theory Spec2Isabelle
  imports Complex_Main "HOL-Library.Multiset"
begin

section \<open>Deal or No Deal: banker, board and game controller\<close>

text \<open>
  A shallow embedding of \<^verbatim>\<open>src/js/Banker.js\<close>, \<^verbatim>\<open>src/js/Board.js\<close> and the
  \<^verbatim>\<open>Game\<close> class (second half of \<^verbatim>\<open>src/js/Animator.js\<close>).

  In the model of the board, the controller and the structure of the banker, JavaScript
  numbers are \<^typ>\<open>real\<close>: the arithmetic is the exact one that IEEE doubles approximate.
  Over the reals no operation on valid (positive, finite) values produces NaN, which is kept
  as a predicate that is constantly false so that the tests of the source stay visible. The
  claims on the size of the banker's offer depend on the rounding of every operation, and
  are settled on a second model of the banker, in IEEE 754 binary64 arithmetic, given after
  the first. Every call of \<^verbatim>\<open>Math.random()\<close> is an explicit argument. Rendering,
  animation and logging are left out: they change neither the board, nor the banker, nor
  the controller fields modelled here.
\<close>

subsection \<open>JavaScript values and numeric primitives\<close>

text \<open>What an array handed to the banker may hold: a finite number, NaN, or something
  that is not of type number (undefined, null, a string, an object). The infinities are
  not represented.\<close>

datatype jsval = JNum real | JNaN | JNotNumber

text \<open>\<^verbatim>\<open>typeof value === 'number' && !isNaN(value) && value > 0\<close>\<close>

fun isValidValue :: "jsval \<Rightarrow> bool" where
  "isValidValue (JNum v) = (v > 0)"
| "isValidValue JNaN = False"
| "isValidValue JNotNumber = False"

fun numberOf :: "jsval \<Rightarrow> real" where
  "numberOf (JNum v) = v"
| "numberOf JNaN = 0"
| "numberOf JNotNumber = 0"

text \<open>\<^verbatim>\<open>remainingValues.filter(...)\<close>: the valid entries, as numbers, in order.\<close>

definition validValuesOf :: "jsval list \<Rightarrow> real list" where
  "validValuesOf remainingValues = map numberOf (filter isValidValue remainingValues)"

text \<open>\<^verbatim>\<open>Math.round\<close>: the nearest integer, a tie going up.\<close>

definition Math_round :: "real \<Rightarrow> real" where
  "Math_round x = of_int \<lfloor>x + 1 / 2\<rfloor>"

text \<open>\<^verbatim>\<open>isNaN\<close> on the result of real arithmetic.\<close>

definition isNaN :: "real \<Rightarrow> bool" where
  "isNaN x = False"

text \<open>\<^verbatim>\<open>Math.min(...validValues)\<close>; it is only called on a non-empty array (on an empty
  one JavaScript gives Infinity, which has no counterpart here).\<close>

fun Math_min :: "real list \<Rightarrow> real" where
  "Math_min [] = 0"
| "Math_min [v] = v"
| "Math_min (v # w # vs) = min v (Math_min (w # vs))"

subsection \<open>Banker\<close>

record banker =
  offers :: "real list"
  currentOffer :: real
  offerNumber :: nat
  aggressiveness :: real

text \<open>The constructor and \<^verbatim>\<open>reset()\<close>.\<close>

definition newBanker :: banker where
  "newBanker = \<lparr>offers = [], currentOffer = 0, offerNumber = 0, aggressiveness = 1 / 2\<rparr>"

text \<open>\<^verbatim>\<open>values.reduce((sum, value) => sum + value, 0) / values.length\<close>\<close>

definition calculateExpectedValue :: "real list \<Rightarrow> real" where
  "calculateExpectedValue vs =
     (if length vs = 0 then 0
      else foldl (\<lambda>sum v. sum + v) 0 vs / real (length vs))"

definition getRoundMultiplier :: "int \<Rightarrow> nat \<Rightarrow> real" where
  "getRoundMultiplier round_n remainingCases =
     (if remainingCases \<le> 2 then 95 / 100
      else if remainingCases \<le> 3 then 90 / 100
      else if remainingCases \<le> 5 then 85 / 100
      else if remainingCases \<le> 10 then 80 / 100
      else if round_n = 1 then 25 / 100
      else if round_n = 2 then 35 / 100
      else if round_n = 3 then 45 / 100
      else if round_n = 4 then 55 / 100
      else if round_n = 5 then 65 / 100
      else if round_n = 6 then 75 / 100
      else 70 / 100)"

text \<open>\<^verbatim>\<open>this.offers.slice(-3)\<close>: the last three entries (all of them if fewer).\<close>

definition slice_last3 :: "real list \<Rightarrow> real list" where
  "slice_last3 xs = drop (length xs - 3) xs"

definition getPsychologyMultiplier :: "banker \<Rightarrow> real list \<Rightarrow> real" where
  "getPsychologyMultiplier b remainingValues =
     (let m0 = (1::real);
          m1 = (if length (offers b) > 3 then
                  (let recentOffers = slice_last3 (offers b);
                       avgRecentOffer = foldl (\<lambda>x y. x + y) 0 recentOffers
                                          / real (length recentOffers);
                       currentExpected = calculateExpectedValue remainingValues
                   in if avgRecentOffer > currentExpected * (6 / 10)
                      then m0 * (11 / 10) else m0)
                else m0);
          highValues = filter (\<lambda>v. v \<ge> 100000) remainingValues;
          lowValues = filter (\<lambda>v. v < 1000) remainingValues;
          totalValues = length remainingValues;
          m2 = (if real (length highValues) / real totalValues > 7 / 10
                  then m1 * (105 / 100)
                else if real (length highValues) / real totalValues > 5 / 10
                  then m1 * (102 / 100)
                else if real (length lowValues) / real totalValues > 6 / 10
                  then m1 * (115 / 100)
                else m1)
      in if totalValues \<le> 3 \<and> length highValues \<ge> 1 then m2 * (11 / 10) else m2)"

definition getRiskMultiplier :: "real list \<Rightarrow> real" where
  "getRiskMultiplier remainingValues =
     (let mean = calculateExpectedValue remainingValues;
          variance = foldl (\<lambda>sum v. sum + (v - mean)\<^sup>2) 0 remainingValues
                       / real (length remainingValues);
          standardDeviation = sqrt variance;
          coefficientOfVariation = standardDeviation / mean
      in if coefficientOfVariation > 2 then 85 / 100
         else if coefficientOfVariation > 15 / 10 then 9 / 10
         else if coefficientOfVariation > 1 then 95 / 100
         else 1)"

definition roundOffer :: "real \<Rightarrow> real" where
  "roundOffer offer =
     (if offer < 100 then Math_round (offer / 5) * 5
      else if offer < 1000 then Math_round (offer / 10) * 10
      else if offer < 10000 then Math_round (offer / 100) * 100
      else if offer < 100000 then Math_round (offer / 500) * 500
      else if offer < 500000 then Math_round (offer / 1000) * 1000
      else Math_round (offer / 5000) * 5000)"

text \<open>
  The body of \<^verbatim>\<open>calculateOffer\<close> after the two early returns, one definition per
  stage, in the order of the source. \<open>rv\<close> is the array as passed, \<open>vs\<close> its valid
  values, \<open>rnd\<close> the result of \<^verbatim>\<open>Math.random()\<close>.
\<close>

text \<open>Lines 50--56: the product of the multipliers, then the floor for final cases.\<close>

definition flooredOffer :: "banker \<Rightarrow> real list \<Rightarrow> int \<Rightarrow> real" where
  "flooredOffer b vs round_n =
     (let expectedValue = calculateExpectedValue vs;
          roundMultiplier = getRoundMultiplier round_n (length vs);
          psychologyMultiplier = getPsychologyMultiplier b vs;
          riskMultiplier = getRiskMultiplier vs;
          offer = expectedValue * roundMultiplier * psychologyMultiplier * riskMultiplier
      in if length vs \<le> 3 then max offer (expectedValue * (85 / 100)) else offer)"

text \<open>Lines 58--74: the NaN fallback, the random factor, the rounding.\<close>

definition roundedOffer :: "banker \<Rightarrow> real list \<Rightarrow> int \<Rightarrow> real \<Rightarrow> real" where
  "roundedOffer b vs round_n rnd =
     (let offer0 = flooredOffer b vs round_n;
          offer1 = (if isNaN offer0 then calculateExpectedValue vs * (7 / 10) else offer0);
          randomFactor = 95 / 100 + rnd * (1 / 10)
      in roundOffer (offer1 * randomFactor))"

text \<open>Lines 76--81: at least 5 percent above the last offer, after round 1.\<close>

definition progressedOffer :: "banker \<Rightarrow> real list \<Rightarrow> int \<Rightarrow> real \<Rightarrow> real" where
  "progressedOffer b vs round_n rnd =
     (let offer = roundedOffer b vs round_n rnd
      in if length (offers b) > 0 \<and> round_n > 1 then
           (let lastOffer = last (offers b);
                minIncrease = lastOffer * (105 / 100)
            in max offer minIncrease)
         else offer)"

text \<open>Lines 83--86: the ceiling; it looks at the length of the array as passed.\<close>

definition maxOffer :: "jsval list \<Rightarrow> real list \<Rightarrow> real" where
  "maxOffer rv vs =
     (let maxOfferMultiplier = (if length rv \<le> 3 then 95 / 100 else 85 / 100)
      in calculateExpectedValue vs * maxOfferMultiplier)"

definition cappedOffer :: "banker \<Rightarrow> jsval list \<Rightarrow> real list \<Rightarrow> int \<Rightarrow> real \<Rightarrow> real" where
  "cappedOffer b rv vs round_n rnd = min (progressedOffer b vs round_n rnd) (maxOffer rv vs)"

text \<open>Lines 88--92: the final safety check.\<close>

definition safeOffer :: "banker \<Rightarrow> jsval list \<Rightarrow> real list \<Rightarrow> int \<Rightarrow> real \<Rightarrow> real" where
  "safeOffer b rv vs round_n rnd =
     (let offer = cappedOffer b rv vs round_n rnd
      in if isNaN offer \<or> offer \<le> 0 then max 1 (Math_min vs * (1 / 10)) else offer)"

text \<open>
  \<^verbatim>\<open>calculateOffer(remainingValues, round)\<close>. The argument is \<open>None\<close> for a missing
  (null or undefined) array. The result is the returned number and the banker afterwards;
  the early returns leave the banker as it was.
\<close>

definition calculateOffer ::
  "banker \<Rightarrow> jsval list option \<Rightarrow> int \<Rightarrow> real \<Rightarrow> real \<times> banker" where
  "calculateOffer b remainingValues round_n rnd =
     (case remainingValues of
        None \<Rightarrow> (0, b)
      | Some rv \<Rightarrow>
          if length rv = 0 then (0, b)
          else
            (let validValues = validValuesOf rv
             in if length validValues = 0 then (1000, b)
                else
                  (let offer = safeOffer b rv validValues round_n rnd;
                       cur = Math_round offer
                   in (cur, b\<lparr>offers := offers b @ [cur],
                                currentOffer := cur,
                                offerNumber := offerNumber b + 1\<rparr>))))"

text \<open>The object that \<^verbatim>\<open>makeOffer\<close> returns, without its two display strings. The
  model is for a call with an array: with a missing one the source, after the early return
  of \<^verbatim>\<open>calculateOffer\<close>, fails in \<^verbatim>\<open>getBankerMessage\<close>.\<close>

record offer =
  amount :: real
  offerRound :: int
  offerNo :: nat

definition makeOffer :: "banker \<Rightarrow> jsval list option \<Rightarrow> int \<Rightarrow> real \<Rightarrow> offer \<times> banker" where
  "makeOffer b remainingValues round_n rnd =
     (let (amt, b') = calculateOffer b remainingValues round_n rnd
      in (\<lparr>amount = amt, offerRound = round_n, offerNo = offerNumber b'\<rparr>, b'))"

subsection \<open>IEEE 754 binary64 numbers\<close>

text \<open>
  The numeric claims about the banker's offer are settled on the numbers the code computes
  with: JavaScript's Number type, which is IEEE 754 binary64. A number is a finite real (always
  one that binary64 represents, in the results of the operations below), one of the two
  infinities, or NaN. The two zeros are identified: a division by zero gives the infinity with
  the sign of the numerator, as it does for a positive zero.
\<close>

datatype jsnum = Num real | PInf | NInf | NaN

text \<open>Rounding a real to the nearest integer, a tie going to the even one.\<close>

definition rne :: "real \<Rightarrow> int" where
  "rne r =
     (let f = \<lfloor>r\<rfloor>; d = r - of_int f
      in if d < 1 / 2 then f else if 1 / 2 < d then f + 1 else if even f then f else f + 1)"

text \<open>
  The binary exponent of a positive real, not below that of the smallest normal number; and
  the rounding of a positive real to 53 significant bits at that exponent (to a multiple of
  2 to the power -1074 in the subnormal range).
\<close>

definition expo :: "real \<Rightarrow> int" where
  "expo x = max \<lfloor>log 2 x\<rfloor> (- 1022)"

definition rp :: "real \<Rightarrow> real" where
  "rp x = (let q = 2 powi (expo x - 52) in of_int (rne (x / q)) * q)"

text \<open>Round to nearest, ties to even, with overflow to infinity: first for a positive real,
  then for any real.\<close>

definition flp :: "real \<Rightarrow> jsnum" where
  "flp x = (let y = rp x in if 2 powi 1024 \<le> y then PInf else Num y)"

fun jneg :: "jsnum \<Rightarrow> jsnum" where
  "jneg (Num x) = Num (- x)"
| "jneg PInf = NInf"
| "jneg NInf = PInf"
| "jneg NaN = NaN"

definition fl :: "real \<Rightarrow> jsnum" where
  "fl x = (if x = 0 then Num 0 else if 0 < x then flp x else jneg (flp (- x)))"

text \<open>The comparisons \<^verbatim>\<open><=\<close> and \<^verbatim>\<open><\<close>: false whenever an operand is NaN.\<close>

fun jle :: "jsnum \<Rightarrow> jsnum \<Rightarrow> bool" where
  "jle NaN b = False"
| "jle a NaN = False"
| "jle NInf b = True"
| "jle a PInf = True"
| "jle (Num x) (Num y) = (x \<le> y)"
| "jle PInf b = False"
| "jle a NInf = False"

fun jlt :: "jsnum \<Rightarrow> jsnum \<Rightarrow> bool" where
  "jlt NaN b = False"
| "jlt a NaN = False"
| "jlt (Num x) (Num y) = (x < y)"
| "jlt NInf NInf = False"
| "jlt PInf b = False"
| "jlt a NInf = False"
| "jlt NInf b = True"
| "jlt a PInf = True"

text \<open>
  The operators \<^verbatim>\<open>+\<close>, \<^verbatim>\<open>-\<close>, \<^verbatim>\<open>*\<close> and \<^verbatim>\<open>/\<close>: the exact result, rounded. \<^verbatim>\<open>Math.sqrt\<close> is
  correctly rounded, as IEEE 754 requires; \<^verbatim>\<open>Math.pow(x, 2)\<close> is taken to be the correctly
  rounded square.
\<close>

fun jadd :: "jsnum \<Rightarrow> jsnum \<Rightarrow> jsnum" where
  "jadd NaN b = NaN"
| "jadd a NaN = NaN"
| "jadd (Num x) (Num y) = fl (x + y)"
| "jadd PInf NInf = NaN"
| "jadd NInf PInf = NaN"
| "jadd PInf b = PInf"
| "jadd a PInf = PInf"
| "jadd NInf b = NInf"
| "jadd a NInf = NInf"

definition jsub :: "jsnum \<Rightarrow> jsnum \<Rightarrow> jsnum" where
  "jsub a b = jadd a (jneg b)"

fun jmul :: "jsnum \<Rightarrow> jsnum \<Rightarrow> jsnum" where
  "jmul NaN b = NaN"
| "jmul a NaN = NaN"
| "jmul (Num x) (Num y) = fl (x * y)"
| "jmul PInf (Num y) = (if y = 0 then NaN else if 0 < y then PInf else NInf)"
| "jmul NInf (Num y) = (if y = 0 then NaN else if 0 < y then NInf else PInf)"
| "jmul (Num x) PInf = (if x = 0 then NaN else if 0 < x then PInf else NInf)"
| "jmul (Num x) NInf = (if x = 0 then NaN else if 0 < x then NInf else PInf)"
| "jmul PInf PInf = PInf"
| "jmul NInf NInf = PInf"
| "jmul PInf NInf = NInf"
| "jmul NInf PInf = NInf"

fun jdiv :: "jsnum \<Rightarrow> jsnum \<Rightarrow> jsnum" where
  "jdiv NaN b = NaN"
| "jdiv a NaN = NaN"
| "jdiv (Num x) (Num y) =
     (if y = 0 then (if x = 0 then NaN else if 0 < x then PInf else NInf) else fl (x / y))"
| "jdiv (Num x) PInf = Num 0"
| "jdiv (Num x) NInf = Num 0"
| "jdiv PInf (Num y) = (if 0 \<le> y then PInf else NInf)"
| "jdiv NInf (Num y) = (if 0 \<le> y then NInf else PInf)"
| "jdiv PInf b = NaN"
| "jdiv NInf b = NaN"

fun jsqrt :: "jsnum \<Rightarrow> jsnum" where
  "jsqrt (Num x) = (if x < 0 then NaN else fl (sqrt x))"
| "jsqrt PInf = PInf"
| "jsqrt NInf = NaN"
| "jsqrt NaN = NaN"

fun Math_pow2 :: "jsnum \<Rightarrow> jsnum" where
  "Math_pow2 (Num x) = fl (x\<^sup>2)"
| "Math_pow2 PInf = PInf"
| "Math_pow2 NInf = PInf"
| "Math_pow2 NaN = NaN"

fun isNaN64 :: "jsnum \<Rightarrow> bool" where
  "isNaN64 NaN = True"
| "isNaN64 a = False"

text \<open>\<^verbatim>\<open>Math.max\<close> and \<^verbatim>\<open>Math.min\<close> of two numbers: NaN if either is.\<close>

definition jmax :: "jsnum \<Rightarrow> jsnum \<Rightarrow> jsnum" where
  "jmax a b = (if isNaN64 a \<or> isNaN64 b then NaN else if jle a b then b else a)"

definition jmin :: "jsnum \<Rightarrow> jsnum \<Rightarrow> jsnum" where
  "jmin a b = (if isNaN64 a \<or> isNaN64 b then NaN else if jle a b then a else b)"

text \<open>\<^verbatim>\<open>Math.round\<close>: the nearest integer, a tie going up; the infinities and NaN are
  returned as they are.\<close>

fun Math_round64 :: "jsnum \<Rightarrow> jsnum" where
  "Math_round64 (Num x) = Num (of_int \<lfloor>x + 1 / 2\<rfloor>)"
| "Math_round64 a = a"

text \<open>\<^verbatim>\<open>Math.min(...values)\<close>: Infinity for no argument.\<close>

definition Math_min64 :: "jsnum list \<Rightarrow> jsnum" where
  "Math_min64 vs = foldl jmin PInf vs"

subsection \<open>The banker on binary64 numbers\<close>

text \<open>
  \<^verbatim>\<open>Banker.calculateOffer\<close> and the methods it calls, statement by statement as in the
  subsection on the banker above, with every operation the binary64 one. A decimal literal
  of the source, such as \<^verbatim>\<open>0.85\<close>, is the binary64 number nearest to it, \<open>fl (85 / 100)\<close>.
  An array element is a number (finite, infinite or NaN) or a value of another type.
\<close>

datatype jsval64 = JNumber jsnum | JOther

text \<open>\<^verbatim>\<open>typeof value === 'number' && !isNaN(value) && value > 0\<close>\<close>

fun isValidValue64 :: "jsval64 \<Rightarrow> bool" where
  "isValidValue64 (JNumber x) = (\<not> isNaN64 x \<and> jlt (Num 0) x)"
| "isValidValue64 JOther = False"

fun numberOf64 :: "jsval64 \<Rightarrow> jsnum" where
  "numberOf64 (JNumber x) = x"
| "numberOf64 JOther = NaN"

definition validValuesOf64 :: "jsval64 list \<Rightarrow> jsnum list" where
  "validValuesOf64 remainingValues = map numberOf64 (filter isValidValue64 remainingValues)"

record banker64 =
  offers64 :: "jsnum list"
  currentOffer64 :: jsnum
  offerNumber64 :: nat
  aggressiveness64 :: jsnum

definition newBanker64 :: banker64 where
  "newBanker64 =
     \<lparr>offers64 = [], currentOffer64 = Num 0, offerNumber64 = 0, aggressiveness64 = Num (1 / 2)\<rparr>"

definition calculateExpectedValue64 :: "jsnum list \<Rightarrow> jsnum" where
  "calculateExpectedValue64 vs =
     (if length vs = 0 then Num 0
      else jdiv (foldl (\<lambda>sum v. jadd sum v) (Num 0) vs) (Num (real (length vs))))"

definition getRoundMultiplier64 :: "int \<Rightarrow> nat \<Rightarrow> jsnum" where
  "getRoundMultiplier64 round_n remainingCases =
     (if remainingCases \<le> 2 then fl (95 / 100)
      else if remainingCases \<le> 3 then fl (90 / 100)
      else if remainingCases \<le> 5 then fl (85 / 100)
      else if remainingCases \<le> 10 then fl (80 / 100)
      else if round_n = 1 then fl (25 / 100)
      else if round_n = 2 then fl (35 / 100)
      else if round_n = 3 then fl (45 / 100)
      else if round_n = 4 then fl (55 / 100)
      else if round_n = 5 then fl (65 / 100)
      else if round_n = 6 then fl (75 / 100)
      else fl (70 / 100))"

definition getPsychologyMultiplier64 :: "banker64 \<Rightarrow> jsnum list \<Rightarrow> jsnum" where
  "getPsychologyMultiplier64 b remainingValues =
     (let m0 = Num 1;
          m1 = (if length (offers64 b) > 3 then
                  (let recentOffers = drop (length (offers64 b) - 3) (offers64 b);
                       avgRecentOffer = jdiv (foldl (\<lambda>x y. jadd x y) (Num 0) recentOffers)
                                          (Num (real (length recentOffers)));
                       currentExpected = calculateExpectedValue64 remainingValues
                   in if jlt (jmul currentExpected (fl (6 / 10))) avgRecentOffer
                      then jmul m0 (fl (11 / 10)) else m0)
                else m0);
          highValues = filter (\<lambda>v. jle (Num 100000) v) remainingValues;
          lowValues = filter (\<lambda>v. jlt v (Num 1000)) remainingValues;
          totalValues = length remainingValues;
          highShare = jdiv (Num (real (length highValues))) (Num (real totalValues));
          lowShare = jdiv (Num (real (length lowValues))) (Num (real totalValues));
          m2 = (if jlt (fl (7 / 10)) highShare then jmul m1 (fl (105 / 100))
                else if jlt (fl (5 / 10)) highShare then jmul m1 (fl (102 / 100))
                else if jlt (fl (6 / 10)) lowShare then jmul m1 (fl (115 / 100))
                else m1)
      in if totalValues \<le> 3 \<and> length highValues \<ge> 1 then jmul m2 (fl (11 / 10)) else m2)"

definition getRiskMultiplier64 :: "jsnum list \<Rightarrow> jsnum" where
  "getRiskMultiplier64 remainingValues =
     (let mean = calculateExpectedValue64 remainingValues;
          variance = jdiv (foldl (\<lambda>sum v. jadd sum (Math_pow2 (jsub v mean))) (Num 0)
                             remainingValues)
                       (Num (real (length remainingValues)));
          standardDeviation = jsqrt variance;
          coefficientOfVariation = jdiv standardDeviation mean
      in if jlt (Num 2) coefficientOfVariation then fl (85 / 100)
         else if jlt (fl (15 / 10)) coefficientOfVariation then fl (9 / 10)
         else if jlt (Num 1) coefficientOfVariation then fl (95 / 100)
         else Num 1)"

definition roundOffer64 :: "jsnum \<Rightarrow> jsnum" where
  "roundOffer64 offer =
     (if jlt offer (Num 100) then jmul (Math_round64 (jdiv offer (Num 5))) (Num 5)
      else if jlt offer (Num 1000) then jmul (Math_round64 (jdiv offer (Num 10))) (Num 10)
      else if jlt offer (Num 10000) then jmul (Math_round64 (jdiv offer (Num 100))) (Num 100)
      else if jlt offer (Num 100000) then jmul (Math_round64 (jdiv offer (Num 500))) (Num 500)
      else if jlt offer (Num 500000) then jmul (Math_round64 (jdiv offer (Num 1000))) (Num 1000)
      else jmul (Math_round64 (jdiv offer (Num 5000))) (Num 5000))"

text \<open>The offer after the floor for at most 3 values (Banker.js, lines 50 to 56).\<close>

definition flooredOffer64 :: "banker64 \<Rightarrow> jsnum list \<Rightarrow> int \<Rightarrow> jsnum" where
  "flooredOffer64 b vs round_n =
     (let expectedValue = calculateExpectedValue64 vs;
          roundMultiplier = getRoundMultiplier64 round_n (length vs);
          psychologyMultiplier = getPsychologyMultiplier64 b vs;
          riskMultiplier = getRiskMultiplier64 vs;
          offer = jmul (jmul (jmul expectedValue roundMultiplier) psychologyMultiplier)
                    riskMultiplier
      in if length vs \<le> 3 then jmax offer (jmul expectedValue (fl (85 / 100))) else offer)"

text \<open>\<^verbatim>\<open>0.95 + (Math.random() * 0.1)\<close>, the draw \<open>rnd\<close> being a binary64 number in [0, 1).\<close>

definition randomFactor64 :: "real \<Rightarrow> jsnum" where
  "randomFactor64 rnd = jadd (fl (95 / 100)) (jmul (Num rnd) (fl (1 / 10)))"

text \<open>The offer after the NaN test, the random factor and \<^verbatim>\<open>roundOffer\<close> (lines 58 to 74).\<close>

definition roundedOffer64 :: "banker64 \<Rightarrow> jsnum list \<Rightarrow> int \<Rightarrow> real \<Rightarrow> jsnum" where
  "roundedOffer64 b vs round_n rnd =
     (let offer0 = flooredOffer64 b vs round_n;
          offer1 = (if isNaN64 offer0 then jmul (calculateExpectedValue64 vs) (fl (7 / 10))
                    else offer0)
      in roundOffer64 (jmul offer1 (randomFactor64 rnd)))"

text \<open>\<^verbatim>\<open>lastOffer * 1.05\<close>, and the offer after the progression step (lines 76 to 81).\<close>

definition minIncrease64 :: "banker64 \<Rightarrow> jsnum" where
  "minIncrease64 b = jmul (last (offers64 b)) (fl (105 / 100))"

definition progressedOffer64 :: "banker64 \<Rightarrow> jsnum list \<Rightarrow> int \<Rightarrow> real \<Rightarrow> jsnum" where
  "progressedOffer64 b vs round_n rnd =
     (let offer = roundedOffer64 b vs round_n rnd
      in if length (offers64 b) > 0 \<and> round_n > 1 then jmax offer (minIncrease64 b)
         else offer)"

text \<open>The ceiling \<^verbatim>\<open>maxOffer\<close>, which tests the length of the array as passed, and the
  offer after it (lines 83 to 86).\<close>

definition maxOffer64 :: "jsval64 list \<Rightarrow> jsnum list \<Rightarrow> jsnum" where
  "maxOffer64 rv vs =
     (let maxOfferMultiplier = (if length rv \<le> 3 then fl (95 / 100) else fl (85 / 100))
      in jmul (calculateExpectedValue64 vs) maxOfferMultiplier)"

definition cappedOffer64 ::
  "banker64 \<Rightarrow> jsval64 list \<Rightarrow> jsnum list \<Rightarrow> int \<Rightarrow> real \<Rightarrow> jsnum" where
  "cappedOffer64 b rv vs round_n rnd =
     jmin (progressedOffer64 b vs round_n rnd) (maxOffer64 rv vs)"

text \<open>The final safety check (lines 88 to 92).\<close>

definition fallbackOffer64 :: "jsnum list \<Rightarrow> jsnum" where
  "fallbackOffer64 vs = jmax (Num 1) (jmul (Math_min64 vs) (fl (1 / 10)))"

definition safeOffer64 ::
  "banker64 \<Rightarrow> jsval64 list \<Rightarrow> jsnum list \<Rightarrow> int \<Rightarrow> real \<Rightarrow> jsnum" where
  "safeOffer64 b rv vs round_n rnd =
     (let offer = cappedOffer64 b rv vs round_n rnd
      in if isNaN64 offer \<or> jle offer (Num 0) then fallbackOffer64 vs else offer)"

text \<open>\<^verbatim>\<open>calculateOffer(remainingValues, round)\<close>: the returned number and the banker
  afterwards.\<close>

definition calculateOffer64 ::
  "banker64 \<Rightarrow> jsval64 list option \<Rightarrow> int \<Rightarrow> real \<Rightarrow> jsnum \<times> banker64" where
  "calculateOffer64 b remainingValues round_n rnd =
     (case remainingValues of
        None \<Rightarrow> (Num 0, b)
      | Some rv \<Rightarrow>
          if length rv = 0 then (Num 0, b)
          else
            (let validValues = validValuesOf64 rv
             in if length validValues = 0 then (Num 1000, b)
                else
                  (let offer = safeOffer64 b rv validValues round_n rnd;
                       cur = Math_round64 offer
                   in (cur, b\<lparr>offers64 := offers64 b @ [cur],
                                currentOffer64 := cur,
                                offerNumber64 := offerNumber64 b + 1\<rparr>))))"

subsection \<open>Board\<close>

record briefcase =
  number :: int
  isSelected :: bool
  isEliminated :: bool
  "value" :: real

record board =
  briefcases :: "briefcase list"
  selectedCase :: "int option"
  eliminatedCases :: "int set"
  "values" :: "real list"
  caseValues :: "int \<rightharpoonup> real"

text \<open>\<^verbatim>\<open>throw new Error('Values and briefcases count mismatch')\<close>\<close>

datatype error = CountMismatch

text \<open>The table in the constructor.\<close>

definition denominations :: "real list" where
  "denominations =
     [1 / 100, 1, 5, 10, 25, 50, 75, 100, 200, 300, 400, 500, 750, 1000,
      5000, 10000, 25000, 50000, 75000, 100000, 200000,
      300000, 400000, 500000, 750000, 1000000]"

definition setupBriefcases :: "board \<Rightarrow> board" where
  "setupBriefcases b =
     b\<lparr>briefcases :=
         map (\<lambda>i. \<lparr>number = i, isSelected = False, isEliminated = False, value = 0\<rparr>)
           [1..26]\<rparr>"

text \<open>
  A JavaScript array whose entries may be undefined (\<open>None\<close>): reading past the end
  gives undefined, writing past the end extends the array with holes.
\<close>

definition js_get :: "'a option list \<Rightarrow> nat \<Rightarrow> 'a option" where
  "js_get a i = (if i < length a then a ! i else None)"

definition js_set :: "'a option list \<Rightarrow> nat \<Rightarrow> 'a option \<Rightarrow> 'a option list" where
  "js_set a i v =
     (if i < length a then a[i := v] else a @ replicate (i - length a) None @ [v])"

text \<open>\<^verbatim>\<open>[a[i], a[j]] = [a[j], a[i]]\<close>: both reads, then the write to \<open>i\<close>, then to \<open>j\<close>.\<close>

definition swapEntries :: "'a option list \<Rightarrow> nat \<Rightarrow> nat \<Rightarrow> 'a option list" where
  "swapEntries a i j =
     (let t0 = js_get a j; t1 = js_get a i
      in js_set (js_set a i t0) j t1)"

text \<open>
  The Fisher-Yates loop \<^verbatim>\<open>for (let i = n - 1; i > 0; i--)\<close>. \<open>rand k\<close> is the result of the
  \<open>k\<close>-th call of \<^verbatim>\<open>Math.random()\<close>, which JavaScript promises to lie in \<open>[0, 1)\<close>; \<open>j\<close> is
  \<^verbatim>\<open>Math.floor(Math.random() * (i + 1))\<close>.
\<close>

fun shuffleLoop :: "(nat \<Rightarrow> real) \<Rightarrow> nat \<Rightarrow> nat \<Rightarrow> real option list \<Rightarrow> real option list" where
  "shuffleLoop rand k 0 a = a"
| "shuffleLoop rand k (Suc i') a =
     (let i = Suc i';
          j = nat \<lfloor>rand k * real (i + 1)\<rfloor>
      in shuffleLoop rand (Suc k) i' (swapEntries a i j))"

text \<open>The body of the \<^verbatim>\<open>forEach\<close>: the value at the index, or 1 where it is undefined.\<close>

definition assignValue :: "real option list \<Rightarrow> nat \<Rightarrow> briefcase \<Rightarrow> briefcase" where
  "assignValue shuffledValues index bc =
     (case js_get shuffledValues index of
        None \<Rightarrow> bc\<lparr>value := 1\<rparr>
      | Some v \<Rightarrow> bc\<lparr>value := v\<rparr>)"

definition shuffleValues :: "(nat \<Rightarrow> real) \<Rightarrow> board \<Rightarrow> error + board" where
  "shuffleValues rand b =
     (if length (values b) \<noteq> length (briefcases b) then Inl CountMismatch
      else
        (let shuffledValues =
               shuffleLoop rand 0 (length (values b) - 1) (map Some (values b));
             bs = map (\<lambda>(index, bc). assignValue shuffledValues index bc)
                    (enumerate 0 (briefcases b))
         in Inr (b\<lparr>briefcases := bs,
                    caseValues := fold (\<lambda>bc m. m(number bc \<mapsto> value bc)) bs (caseValues b)\<rparr>)))"

text \<open>The constructor followed by \<^verbatim>\<open>init()\<close>, and \<^verbatim>\<open>reset()\<close>.\<close>

definition newBoard :: "(nat \<Rightarrow> real) \<Rightarrow> error + board" where
  "newBoard rand =
     shuffleValues rand
       (setupBriefcases
          \<lparr>briefcases = [], selectedCase = None, eliminatedCases = {},
           values = denominations, caseValues = Map.empty\<rparr>)"

definition reset :: "(nat \<Rightarrow> real) \<Rightarrow> board \<Rightarrow> error + board" where
  "reset rand b =
     shuffleValues rand
       (setupBriefcases (b\<lparr>selectedCase := None, eliminatedCases := {},
                           caseValues := Map.empty\<rparr>))"

text \<open>\<^verbatim>\<open>this.briefcases.find(b => b.number === caseNumber)\<close>\<close>

definition getBriefcase :: "board \<Rightarrow> int \<Rightarrow> briefcase option" where
  "getBriefcase b caseNumber = find (\<lambda>bc. number bc = caseNumber) (briefcases b)"

text \<open>Assigning to a field of the object that \<^verbatim>\<open>find\<close> returned: the first entry that
  satisfies the test is the one changed.\<close>

fun updateFirst :: "('a \<Rightarrow> bool) \<Rightarrow> ('a \<Rightarrow> 'a) \<Rightarrow> 'a list \<Rightarrow> 'a list" where
  "updateFirst P f [] = []"
| "updateFirst P f (x # xs) = (if P x then f x # xs else x # updateFirst P f xs)"

text \<open>
  \<open>doc\<close> is the set of case numbers for which
  \<^verbatim>\<open>document.querySelector('[data-number="n"]')\<close> finds an element. The first component
  of the result is the returned value (\<open>None\<close> for \<^verbatim>\<open>null\<close>).
\<close>

definition selectBriefcase :: "int set \<Rightarrow> board \<Rightarrow> int \<Rightarrow> bool \<times> board" where
  "selectBriefcase doc b caseNumber =
     (case getBriefcase b caseNumber of
        None \<Rightarrow> (False, b)
      | Some bc \<Rightarrow>
          if caseNumber \<notin> doc then (False, b)
          else (True,
                b\<lparr>briefcases :=
                     updateFirst (\<lambda>c. number c = caseNumber) (\<lambda>c. c\<lparr>isSelected := True\<rparr>)
                       (briefcases b),
                   selectedCase := Some caseNumber\<rparr>))"

definition eliminateBriefcase :: "int set \<Rightarrow> board \<Rightarrow> int \<Rightarrow> real option \<times> board" where
  "eliminateBriefcase doc b caseNumber =
     (case getBriefcase b caseNumber of
        None \<Rightarrow> (None, b)
      | Some bc \<Rightarrow>
          if caseNumber \<notin> doc \<or> isEliminated bc then (None, b)
          else (Some (value bc),
                b\<lparr>briefcases :=
                     updateFirst (\<lambda>c. number c = caseNumber) (\<lambda>c. c\<lparr>isEliminated := True\<rparr>)
                       (briefcases b),
                   eliminatedCases := insert caseNumber (eliminatedCases b)\<rparr>))"

definition getRemainingValues :: "board \<Rightarrow> real list" where
  "getRemainingValues b = map value (filter (\<lambda>bc. \<not> isEliminated bc) (briefcases b))"

definition getAvailableCases :: "board \<Rightarrow> int list" where
  "getAvailableCases b =
     map number (filter (\<lambda>bc. \<not> isSelected bc \<and> \<not> isEliminated bc) (briefcases b))"

definition getRemainingCasesCount :: "board \<Rightarrow> nat" where
  "getRemainingCasesCount b = length (filter (\<lambda>bc. \<not> isEliminated bc) (briefcases b))"

definition isCaseAvailable :: "board \<Rightarrow> int \<Rightarrow> bool" where
  "isCaseAvailable b caseNumber =
     (case getBriefcase b caseNumber of
        None \<Rightarrow> False
      | Some bc \<Rightarrow> \<not> isSelected bc \<and> \<not> isEliminated bc)"

definition getRemainingCases :: "board \<Rightarrow> briefcase list" where
  "getRemainingCases b = filter (\<lambda>bc. \<not> isEliminated bc \<and> \<not> isSelected bc) (briefcases b)"

definition getChosenCase :: "board \<Rightarrow> briefcase option" where
  "getChosenCase b = find isSelected (briefcases b)"

text \<open>\<^verbatim>\<open>switchPlayerCase\<close>: the first selected briefcase is deselected, then the first one
  with the new number is selected. The field \<^verbatim>\<open>selectedCase\<close> is not assigned.\<close>

definition switchPlayerCase :: "board \<Rightarrow> int \<Rightarrow> board" where
  "switchPlayerCase b newCaseNumber =
     (let bs1 = updateFirst isSelected (\<lambda>c. c\<lparr>isSelected := False\<rparr>) (briefcases b);
          bs2 = updateFirst (\<lambda>c. number c = newCaseNumber) (\<lambda>c. c\<lparr>isSelected := True\<rparr>) bs1
      in b\<lparr>briefcases := bs2\<rparr>)"

text \<open>A sequence of board operations, as a session issues them.\<close>

datatype boardOp = Select int | Eliminate int | Switch int

fun applyOp :: "int set \<Rightarrow> board \<Rightarrow> boardOp \<Rightarrow> board" where
  "applyOp doc b (Select n) = snd (selectBriefcase doc b n)"
| "applyOp doc b (Eliminate n) = snd (eliminateBriefcase doc b n)"
| "applyOp doc b (Switch n) = switchPlayerCase b n"

definition applyOps :: "int set \<Rightarrow> board \<Rightarrow> boardOp list \<Rightarrow> board" where
  "applyOps doc b ops = foldl (applyOp doc) b ops"

subsection \<open>Game controller\<close>

datatype phase = waiting | selecting | playing | banker_offer | game_over

record game =
  board :: board
  banker :: banker
  gameState :: phase
  round_n :: int
  casesToEliminate :: nat
  eliminatedThisRound :: nat
  currentEliminatedCase :: "(int \<times> real) option"

text \<open>What a step of the controller hands to the user interface.\<close>

datatype event =
    BankerOffer offer
  | SwitchOffered briefcase "briefcase option"
  | GameOver

definition selectPlayerCase :: "int set \<Rightarrow> game \<Rightarrow> int \<Rightarrow> game" where
  "selectPlayerCase doc g caseNumber =
     g\<lparr>board := snd (selectBriefcase doc (board g) caseNumber), gameState := playing\<rparr>"

text \<open>\<^verbatim>\<open>eliminateCase\<close>, up to the timer that later calls \<^verbatim>\<open>handleContinueGame\<close>.\<close>

definition eliminateCase :: "int set \<Rightarrow> game \<Rightarrow> int \<Rightarrow> game" where
  "eliminateCase doc g caseNumber =
     (if \<not> isCaseAvailable (board g) caseNumber then g
      else
        (case eliminateBriefcase doc (board g) caseNumber of
           (None, b') \<Rightarrow> g\<lparr>board := b'\<rparr>
         | (Some v, b') \<Rightarrow> g\<lparr>board := b', currentEliminatedCase := Some (caseNumber, v)\<rparr>))"

definition endGame :: "game \<Rightarrow> game" where
  "endGame g = g\<lparr>gameState := game_over\<rparr>"

definition offerSwitchOption :: "game \<Rightarrow> game \<times> event" where
  "offerSwitchOption g =
     (let remainingCases = getRemainingCases (board g)
      in if length remainingCases \<noteq> 1 then (endGame g, GameOver)
         else (g, SwitchOffered (hd remainingCases) (getChosenCase (board g))))"

definition endRound :: "game \<Rightarrow> real \<Rightarrow> game \<times> event" where
  "endRound g rnd =
     (let g1 = g\<lparr>eliminatedThisRound := 0\<rparr>;
          totalRemainingCases = getRemainingCasesCount (board g1)
      in if totalRemainingCases \<le> 2 then offerSwitchOption g1
         else
           (let remainingValues = getRemainingValues (board g1);
                (offer, bk) = makeOffer (banker g1) (Some (map JNum remainingValues))
                                (round_n g1) rnd
            in (g1\<lparr>banker := bk, gameState := banker_offer\<rparr>, BankerOffer offer)))"

definition handleContinueGame :: "game \<Rightarrow> real \<Rightarrow> game \<times> event option" where
  "handleContinueGame g rnd =
     (case currentEliminatedCase g of
        None \<Rightarrow> (g, None)
      | Some _ \<Rightarrow>
          (let g1 = g\<lparr>eliminatedThisRound := eliminatedThisRound g + 1\<rparr>
           in if eliminatedThisRound g1 \<ge> casesToEliminate g1 then
                (let (g2, ev) = endRound g1 rnd
                 in (g2\<lparr>currentEliminatedCase := None\<rparr>, Some ev))
              else (g1\<lparr>currentEliminatedCase := None\<rparr>, None)))"

definition handleDealRejected :: "game \<Rightarrow> game" where
  "handleDealRejected g =
     (let g1 = g\<lparr>round_n := round_n g + 1, gameState := playing\<rparr>;
          remainingCases = getRemainingCasesCount (board g1)
      in if remainingCases > 10 then g1\<lparr>casesToEliminate := 5\<rparr>
         else if remainingCases > 6 then g1\<lparr>casesToEliminate := 4\<rparr>
         else if remainingCases > 3 then g1\<lparr>casesToEliminate := 2\<rparr>
         else g1\<lparr>casesToEliminate := 1\<rparr>)"

text \<open>
  A click on a briefcase: \<^verbatim>\<open>Board.handleBriefcaseClick\<close> drops it when the case is unknown or
  eliminated, otherwise \<^verbatim>\<open>Game.handleBriefcaseClick\<close> dispatches on the phase.
\<close>

definition handleBriefcaseClick :: "int set \<Rightarrow> game \<Rightarrow> int \<Rightarrow> game" where
  "handleBriefcaseClick doc g caseNumber =
     (case getBriefcase (board g) caseNumber of
        None \<Rightarrow> g
      | Some bc \<Rightarrow>
          if isEliminated bc then g
          else if gameState g = selecting then selectPlayerCase doc g caseNumber
          else if gameState g = playing then eliminateCase doc g caseNumber
          else g)"

subsection \<open>Concrete boards\<close>

text \<open>
  A board whose 26 cases hold the table in its own order (case 1 holds 0.01, case 26 holds
  1000000), with the given held case and eliminated cases.
\<close>

definition tableBoard :: "int option \<Rightarrow> (int \<Rightarrow> bool) \<Rightarrow> board" where
  "tableBoard held elim =
     \<lparr>briefcases =
        map (\<lambda>(i, v). \<lparr>number = i, isSelected = (held = Some i), isEliminated = elim i,
                         value = v\<rparr>)
          (zip [1..26] denominations),
      selectedCase = held,
      eliminatedCases = set (filter elim [1..26]),
      values = denominations,
      caseValues = map_of (zip [1..26] denominations)\<rparr>"

text \<open>Late in a game: case 26 is held, cases 1, 2 and 3 are in play, the rest is opened.\<close>

definition finalFour :: board where
  "finalFour = tableBoard (Some 26) (\<lambda>i. 3 < i \<and> i < 26)"

definition finalFourGame :: "banker \<Rightarrow> game" where
  "finalFourGame bk =
     \<lparr>board = finalFour, banker = bk, gameState = playing, round_n = 5,
      casesToEliminate = 2, eliminatedThisRound = 2, currentEliminatedCase = None\<rparr>"

text \<open>The late-game controller once \<^verbatim>\<open>endRound\<close> has made the offer 212501.\<close>

definition finalFourOffered :: game where
  "finalFourOffered =
     \<lparr>board = finalFour,
      banker = \<lparr>offers = [212501], currentOffer = 212501, offerNumber = 1,
                aggressiveness = 1 / 2\<rparr>,
      gameState = banker_offer, round_n = 5, casesToEliminate = 2, eliminatedThisRound = 0,
      currentEliminatedCase = None\<rparr>"

subsection \<open>Concrete sessions of the banker\<close>

text \<open>
  The arrays of a session that opens the six smallest values in round 1 (20 values are
  left) and the five largest in round 2 (15 are left).
\<close>

definition valuesAfterRound1 :: "real list" where
  "valuesAfterRound1 =
     [75, 100, 200, 300, 400, 500, 750, 1000, 5000, 10000, 25000, 50000, 75000,
      100000, 200000, 300000, 400000, 500000, 750000, 1000000]"

definition valuesAfterRound2 :: "real list" where
  "valuesAfterRound2 =
     [75, 100, 200, 300, 400, 500, 750, 1000, 5000, 10000, 25000, 50000, 75000,
      100000, 200000]"

definition afterRound1_64 :: "jsval64 list" where
  "afterRound1_64 = map (\<lambda>v. JNumber (Num v)) valuesAfterRound1"

definition afterRound2_64 :: "jsval64 list" where
  "afterRound2_64 = map (\<lambda>v. JNumber (Num v)) valuesAfterRound2"

text \<open>The banker once it has made the single offer 38500.\<close>

definition bankerAfterRound1_64 :: banker64 where
  "bankerAfterRound1_64 =
     \<lparr>offers64 = [Num 38500], currentOffer64 = Num 38500, offerNumber64 = 1,
      aggressiveness64 = Num (1 / 2)\<rparr>"

text \<open>
  Seventeen values of the table in play in round 7, and a banker whose one earlier offer was
  236995. The mean of the values is 3402230 / 17 and 0.85 times it is 170111.5 in exact
  arithmetic; the binary64 product is the number just below, 170111.49999999997.
\<close>

definition valuesRound7 :: "real list" where
  "valuesRound7 =
     [5, 75, 200, 300, 400, 500, 750, 25000, 50000, 75000, 100000, 200000, 300000,
      400000, 500000, 750000, 1000000]"

definition round7_64 :: "jsval64 list" where
  "round7_64 = map (\<lambda>v. JNumber (Num v)) valuesRound7"

definition bankerRound7_64 :: banker64 where
  "bankerRound7_64 =
     \<lparr>offers64 = [Num 236995], currentOffer64 = Num 236995, offerNumber64 = 1,
      aggressiveness64 = Num (1 / 2)\<rparr>"

section \<open>Properties of the board\<close>

subsection \<open>Updating the first matching briefcase\<close>

lemma length_updateFirst: "length (updateFirst P f xs) = length xs"
  by (induction xs) auto

lemma map_updateFirst: "(\<And>x. g (f x) = g x) \<Longrightarrow> map g (updateFirst P f xs) = map g xs"
  by (induction xs) auto

lemma updateFirst_nth_other:
  "i < length xs \<Longrightarrow> \<not> P (xs ! i) \<Longrightarrow> updateFirst P f xs ! i = xs ! i"
  by (induction xs arbitrary: i) (auto simp: nth_Cons split: nat.splits)

lemma find_updateFirst:
  "find P xs = Some x \<Longrightarrow> P (f x) \<Longrightarrow> find P (updateFirst P f xs) = Some (f x)"
  by (induction xs) (auto split: if_splits)

lemma find_None_updateFirst: "find P xs = None \<Longrightarrow> updateFirst P f xs = xs"
  by (induction xs) (auto split: if_splits)

lemma count_clear_first:
  "length (filter isSelected (updateFirst isSelected (\<lambda>c. c\<lparr>isSelected := False\<rparr>) xs))
     = length (filter isSelected xs) - 1"
  by (induction xs) auto

lemma count_set_first:
  "filter isSelected xs = [] \<Longrightarrow> \<exists>x \<in> set xs. P x \<Longrightarrow>
   length (filter isSelected (updateFirst P (\<lambda>c. c\<lparr>isSelected := True\<rparr>) xs)) = 1"
  by (induction xs) (auto split: if_splits)

lemma find_Some_ex: "(\<exists>x \<in> set xs. P x) \<Longrightarrow> \<exists>y. find P xs = Some y \<and> P y"
  by (induction xs) auto

lemma set_first_selected:
  "\<exists>x \<in> set xs. number x = n \<Longrightarrow>
   \<exists>y. find (\<lambda>c. number c = n) (updateFirst (\<lambda>c. number c = n) (\<lambda>c. c\<lparr>isSelected := True\<rparr>) xs) = Some y
     \<and> isSelected y"
  by (induction xs) auto


subsection \<open>The shuffle permutes the table\<close>

lemma swapEntries_in_range:
  "i < length a \<Longrightarrow> j < length a \<Longrightarrow> swapEntries a i j = a[i := a ! j, j := a ! i]"
  by (simp add: swapEntries_def js_get_def js_set_def)

lemma mset_swapEntries:
  assumes "i < length a" "j < length a"
  shows "mset (swapEntries a i j) = mset a" and "length (swapEntries a i j) = length a"
proof -
  have "mset (a[i := a ! j, j := a ! i]) = mset a"
    using assms by (simp add: mset_swap)
  then show "mset (swapEntries a i j) = mset a"
    using assms by (simp add: swapEntries_in_range)
  show "length (swapEntries a i j) = length a"
    using assms by (simp add: swapEntries_in_range)
qed

lemma random_index_le:
  assumes "0 \<le> r" "r < 1"
  shows "nat \<lfloor>r * real (Suc i)\<rfloor> \<le> i"
proof -
  have "r * real (Suc i) < real (Suc i)"
    using assms by simp
  then have "\<lfloor>r * real (Suc i)\<rfloor> < int (Suc i)"
    by (simp add: floor_less_iff)
  then show ?thesis by simp
qed

lemma shuffleLoop_mset:
  assumes "\<forall>k. 0 \<le> rand k \<and> rand k < 1"
  shows "i < length a \<Longrightarrow>
         mset (shuffleLoop rand k i a) = mset a \<and> length (shuffleLoop rand k i a) = length a"
proof (induction i arbitrary: k a)
  case 0
  then show ?case by simp
next
  case (Suc i)
  define j where "j = nat \<lfloor>rand k * real (Suc (Suc i))\<rfloor>"
  have "j \<le> Suc i"
    unfolding j_def using assms by (intro random_index_le) auto
  with Suc.prems have j: "j < length a" by simp
  have sw: "mset (swapEntries a (Suc i) j) = mset a" "length (swapEntries a (Suc i) j) = length a"
    using Suc.prems j by (simp_all add: mset_swapEntries)
  have "i < length (swapEntries a (Suc i) j)"
    using Suc.prems sw by simp
  from Suc.IH [OF this, of "Suc k"] sw show ?case
    by (simp add: j_def Let_def)
qed

lemma assigned_values_nth:
  assumes "length ws = length bs"
  shows "map value (map (\<lambda>(index, bc). assignValue (map Some ws) index bc) (enumerate 0 bs)) = ws"
proof (rule nth_equalityI)
  show "length (map value (map (\<lambda>(index, bc). assignValue (map Some ws) index bc) (enumerate 0 bs)))
          = length ws"
    using assms by simp
next
  fix i
  assume "i < length (map value (map (\<lambda>(index, bc). assignValue (map Some ws) index bc) (enumerate 0 bs)))"
  then have i: "i < length bs" by simp
  then show "map value (map (\<lambda>(index, bc). assignValue (map Some ws) index bc) (enumerate 0 bs)) ! i
               = ws ! i"
    using assms by (simp add: nth_enumerate_eq assignValue_def js_get_def)
qed

lemma all_Some_of_mset:
  assumes "mset sh = mset (map Some vs)"
  shows "sh = map Some (map the sh)" and "mset (map the sh) = mset vs"
proof -
  have "set sh = set (map Some vs)"
    using assms by (rule mset_eq_setD)
  then have "\<forall>x \<in> set sh. \<exists>v. x = Some v" by auto
  then show "sh = map Some (map the sh)"
    by (induction sh) auto
  have "mset (map the sh) = image_mset the (mset sh)" by simp
  also have "\<dots> = image_mset the (mset (map Some vs))" by (simp only: assms)
  also have "\<dots> = mset vs" by (simp add: multiset.map_comp comp_def)
  finally show "mset (map the sh) = mset vs" .
qed

lemma shuffleValues_conserves:
  assumes rand: "\<forall>k. 0 \<le> rand k \<and> rand k < 1"
      and len: "length (values b) = length (briefcases b)"
  shows "\<exists>b'. shuffleValues rand b = Inr b' \<and>
               values b' = values b \<and>
               length (briefcases b') = length (briefcases b) \<and>
               map number (briefcases b') = map number (briefcases b) \<and>
               mset (map value (briefcases b')) = mset (values b)"
proof -
  define sh where "sh = shuffleLoop rand 0 (length (values b) - 1) (map Some (values b))"
  have msh: "mset sh = mset (map Some (values b))" and lsh: "length sh = length (values b)"
  proof -
    show "mset sh = mset (map Some (values b))"
    proof (cases "values b = []")
      case True
      then show ?thesis by (simp add: sh_def)
    next
      case False
      then have "length (values b) - 1 < length (map Some (values b))" by simp
      from shuffleLoop_mset [OF rand this] show ?thesis by (simp add: sh_def)
    qed
    show "length sh = length (values b)"
    proof (cases "values b = []")
      case True
      then show ?thesis by (simp add: sh_def)
    next
      case False
      then have "length (values b) - 1 < length (map Some (values b))" by simp
      from shuffleLoop_mset [OF rand this] show ?thesis by (simp add: sh_def)
    qed
  qed
  define ws where "ws = map the sh"
  have sh_ws: "sh = map Some ws" and mws: "mset ws = mset (values b)"
    unfolding ws_def using all_Some_of_mset [OF msh] by simp_all
  have lws: "length ws = length (briefcases b)"
    using lsh len by (simp add: ws_def)
  define bs where
    "bs = map (\<lambda>(index, bc). assignValue sh index bc) (enumerate 0 (briefcases b))"
  have vals: "map value bs = ws"
    unfolding bs_def sh_ws using lws by (rule assigned_values_nth)
  have nums: "map number bs = map number (briefcases b)"
    unfolding bs_def
    by (rule nth_equalityI)
       (auto simp: nth_enumerate_eq assignValue_def split: option.splits)
  have "shuffleValues rand b =
          Inr (b\<lparr>briefcases := bs,
                 caseValues := fold (\<lambda>bc m. m(number bc \<mapsto> value bc)) bs (caseValues b)\<rparr>)"
    using len by (simp add: shuffleValues_def Let_def sh_def bs_def)
  moreover have "mset (map value bs) = mset (values b)"
    using vals mws by simp
  moreover have "length bs = length (briefcases b)"
    by (simp add: bs_def)
  ultimately show ?thesis
    using nums by simp
qed

lemma setupBriefcases_length: "length (briefcases (setupBriefcases b)) = 26"
  by (simp add: setupBriefcases_def upto.simps)

lemma setupBriefcases_numbers: "map number (briefcases (setupBriefcases b)) = [1..26]"
  by (simp add: setupBriefcases_def comp_def)

lemma length_denominations: "length denominations = 26"
  by (simp add: denominations_def)

lemma reset_conserves:
  assumes rand: "\<forall>k. 0 \<le> rand k \<and> rand k < 1"
      and tab: "values b = denominations"
  shows "\<exists>b'. reset rand b = Inr b' \<and> values b' = denominations \<and>
               length (briefcases b') = 26 \<and>
               map number (briefcases b') = [1..26] \<and>
               mset (map value (briefcases b')) = mset denominations"
proof -
  let ?b0 = "setupBriefcases (b\<lparr>selectedCase := None, eliminatedCases := {},
                               caseValues := Map.empty\<rparr>)"
  have v0: "values ?b0 = denominations"
    using tab by (simp add: setupBriefcases_def)
  then have "length (values ?b0) = length (briefcases ?b0)"
    by (simp only: setupBriefcases_length length_denominations)
  from shuffleValues_conserves [OF rand this] v0 show ?thesis
    by (auto simp: reset_def setupBriefcases_length setupBriefcases_numbers)
qed

lemma applyOp_values:
  "map value (briefcases (applyOp doc b p)) = map value (briefcases b) \<and>
   map number (briefcases (applyOp doc b p)) = map number (briefcases b) \<and>
   values (applyOp doc b p) = values b"
  by (cases p)
     (auto simp: selectBriefcase_def eliminateBriefcase_def switchPlayerCase_def
        map_updateFirst Let_def split: option.splits)

lemma applyOps_values:
  "map value (briefcases (applyOps doc b ops)) = map value (briefcases b) \<and>
   map number (briefcases (applyOps doc b ops)) = map number (briefcases b) \<and>
   values (applyOps doc b ops) = values b"
  unfolding applyOps_def
  by (induction ops arbitrary: b) (simp_all add: applyOp_values)

lemma distinct_denominations: "distinct denominations"
  by (simp add: denominations_def)

lemma upto_1_26:
  "[1..26] = [1, 2, 3, 4, 5, 6, 7, 8, 9, 10, 11, 12, 13, 14, 15, 16, 17, 18, 19, 20, 21, 22, 23,
              24, 25, 26 :: int]"
  by (simp add: upto_rec1)

subsection \<open>Claims about the board\<close>

text \<open>
  Claim C10. On a board with exactly one selected case, \<^verbatim>\<open>switchPlayerCase(newId)\<close> for an
  existing \<open>newId\<close> keeps every briefcase's number, value and eliminated flag, the set of
  eliminated cases, the case-value map, the table and the \<^verbatim>\<open>selectedCase\<close> field; a
  briefcase that was neither the selected one nor numbered \<open>newId\<close> is unchanged; the
  previously selected case is cleared, the case \<open>newId\<close> is set, and exactly one case is
  selected afterwards.
\<close>

theorem switchPlayerCase_frame:
  assumes one: "length (filter isSelected (briefcases b)) = 1"
      and ex: "\<exists>bc \<in> set (briefcases b). number bc = newId"
  shows "let b' = switchPlayerCase b newId in
           length (briefcases b') = length (briefcases b) \<and>
           map number (briefcases b') = map number (briefcases b) \<and>
           map value (briefcases b') = map value (briefcases b) \<and>
           map isEliminated (briefcases b') = map isEliminated (briefcases b) \<and>
           eliminatedCases b' = eliminatedCases b \<and>
           caseValues b' = caseValues b \<and>
           values b' = values b \<and>
           selectedCase b' = selectedCase b \<and>
           (\<forall>i < length (briefcases b).
              \<not> isSelected (briefcases b ! i) \<and> number (briefcases b ! i) \<noteq> newId
                \<longrightarrow> briefcases b' ! i = briefcases b ! i) \<and>
           (\<forall>i < length (briefcases b).
              isSelected (briefcases b ! i) \<and> number (briefcases b ! i) \<noteq> newId
                \<longrightarrow> \<not> isSelected (briefcases b' ! i)) \<and>
           (\<exists>bc'. getBriefcase b' newId = Some bc' \<and> isSelected bc') \<and>
           length (filter isSelected (briefcases b')) = 1"
proof -
  define bs1 where "bs1 = updateFirst isSelected (\<lambda>c. c\<lparr>isSelected := False\<rparr>) (briefcases b)"
  define bs2 where "bs2 = updateFirst (\<lambda>c. number c = newId) (\<lambda>c. c\<lparr>isSelected := True\<rparr>) bs1"
  have b': "switchPlayerCase b newId = b\<lparr>briefcases := bs2\<rparr>"
    by (simp add: switchPlayerCase_def bs1_def bs2_def)
  have len1: "length bs1 = length (briefcases b)" and len2: "length bs2 = length (briefcases b)"
    by (simp_all add: bs1_def bs2_def length_updateFirst)
  have num1: "map number bs1 = map number (briefcases b)"
    unfolding bs1_def by (rule map_updateFirst) simp
  have num: "map number bs2 = map number (briefcases b)"
    unfolding bs2_def using num1 by (subst map_updateFirst) simp_all
  have val: "map value bs2 = map value (briefcases b)"
    unfolding bs2_def bs1_def by (simp add: map_updateFirst)
  have eli: "map isEliminated bs2 = map isEliminated (briefcases b)"
    unfolding bs2_def bs1_def by (simp add: map_updateFirst)
  have none1: "filter isSelected bs1 = []"
    using one count_clear_first [of "briefcases b"] by (simp add: bs1_def)
  have ex1: "\<exists>x \<in> set bs1. number x = newId"
  proof -
    from ex have "newId \<in> set (map number (briefcases b))" by auto
    then have "newId \<in> set (map number bs1)" by (simp only: num1)
    then show ?thesis by auto
  qed
  have cnt: "length (filter isSelected bs2) = 1"
    unfolding bs2_def using none1 ex1 by (rule count_set_first)
  have sel: "\<exists>bc'. find (\<lambda>c. number c = newId) bs2 = Some bc' \<and> isSelected bc'"
    unfolding bs2_def using ex1 by (rule set_first_selected)
  have nth1: "number (bs1 ! i) = number (briefcases b ! i)" if "i < length (briefcases b)" for i
    using that num1 len1 by (metis nth_map)
  have other: "bs2 ! i = briefcases b ! i"
    if "i < length (briefcases b)" "\<not> isSelected (briefcases b ! i)"
       "number (briefcases b ! i) \<noteq> newId" for i
  proof -
    have "bs1 ! i = briefcases b ! i"
      unfolding bs1_def using that by (simp add: updateFirst_nth_other)
    moreover have "bs2 ! i = bs1 ! i"
      unfolding bs2_def using that len1 nth1 [of i] by (simp add: updateFirst_nth_other)
    ultimately show ?thesis by simp
  qed
  have cleared: "\<not> isSelected (bs2 ! i)"
    if "i < length (briefcases b)" "isSelected (briefcases b ! i)"
       "number (briefcases b ! i) \<noteq> newId" for i
  proof -
    have "\<not> isSelected (bs1 ! i)"
    proof
      assume "isSelected (bs1 ! i)"
      with that len1 have "bs1 ! i \<in> set (filter isSelected bs1)" by simp
      with none1 show False by simp
    qed
    moreover have "bs2 ! i = bs1 ! i"
      unfolding bs2_def using that len1 nth1 [of i] by (simp add: updateFirst_nth_other)
    ultimately show ?thesis by simp
  qed
  show ?thesis
    unfolding Let_def b'
    using len2 num val eli other cleared sel cnt by (simp add: getBriefcase_def)
qed

theorem switchPlayerCase_frame_witness:
  "length (filter isSelected (briefcases finalFour)) = 1 \<and>
   map value (briefcases (switchPlayerCase finalFour 2)) = map value (briefcases finalFour) \<and>
   map isEliminated (briefcases (switchPlayerCase finalFour 2))
     = map isEliminated (briefcases finalFour) \<and>
   length (filter isSelected (briefcases (switchPlayerCase finalFour 2))) = 1 \<and>
   map_option isSelected (getBriefcase (switchPlayerCase finalFour 2) 2) = Some True \<and>
   \<not> isSelected (briefcases (switchPlayerCase finalFour 2) ! 25)"
proof -
  have one: "length (filter isSelected (briefcases finalFour)) = 1"
    by (simp add: finalFour_def tableBoard_def denominations_def upto_1_26)
  have ex: "\<exists>bc \<in> set (briefcases finalFour). number bc = 2"
    by (simp add: finalFour_def tableBoard_def denominations_def upto_1_26)
  have held: "isSelected (briefcases finalFour ! 25) \<and> number (briefcases finalFour ! 25) \<noteq> 2
                \<and> (25::nat) < length (briefcases finalFour)"
    by (simp add: finalFour_def tableBoard_def denominations_def upto_1_26)
  from switchPlayerCase_frame [OF one ex] one held show ?thesis
    by (auto simp: Let_def)
qed

text \<open>
  Claim C6. Every board that the constructor or \<^verbatim>\<open>reset()\<close> produces (with random draws in
  \<open>[0, 1)\<close>, as \<^verbatim>\<open>Math.random()\<close> gives them) has 26 briefcases whose values are, as a
  multiset, the table of 26 distinct denominations; and it stays so after any sequence of
  selections, eliminations and switches.
\<close>

theorem value_conservation:
  assumes rand: "\<forall>k. 0 \<le> rand k \<and> rand k < 1"
  shows "distinct denominations \<and> length denominations = 26 \<and>
         (\<exists>b0. newBoard rand = Inr b0 \<and> values b0 = denominations \<and>
            (\<forall>doc ops.
               length (briefcases (applyOps doc b0 ops)) = 26 \<and>
               mset (map value (briefcases (applyOps doc b0 ops))) = mset denominations)) \<and>
         (values b = denominations \<longrightarrow>
            (\<exists>b1. reset rand b = Inr b1 \<and> values b1 = denominations \<and>
               (\<forall>doc ops.
                  values (applyOps doc b1 ops) = denominations \<and>
                  length (briefcases (applyOps doc b1 ops)) = 26 \<and>
                  mset (map value (briefcases (applyOps doc b1 ops))) = mset denominations)))"
proof -
  have keep: "values (applyOps doc c ops) = denominations \<and>
              length (briefcases (applyOps doc c ops)) = 26 \<and>
              mset (map value (briefcases (applyOps doc c ops))) = mset denominations"
    if "values c = denominations" "length (briefcases c) = 26"
       "mset (map value (briefcases c)) = mset denominations" for c doc ops
  proof -
    have "length (briefcases (applyOps doc c ops)) = length (map value (briefcases (applyOps doc c ops)))"
      by simp
    also have "\<dots> = length (map value (briefcases c))"
      by (simp only: applyOps_values)
    finally show ?thesis
      using that applyOps_values [of doc c ops] by simp
  qed
  have fresh: "\<exists>b1. reset rand c = Inr b1 \<and> values b1 = denominations \<and>
                 (\<forall>doc ops.
                    values (applyOps doc b1 ops) = denominations \<and>
                    length (briefcases (applyOps doc b1 ops)) = 26 \<and>
                    mset (map value (briefcases (applyOps doc b1 ops))) = mset denominations)"
    if "values c = denominations" for c
  proof -
    from reset_conserves [OF rand that] obtain b1 where
      "reset rand c = Inr b1" "values b1 = denominations" "length (briefcases b1) = 26"
      "mset (map value (briefcases b1)) = mset denominations"
      by blast
    then show ?thesis using keep [of b1] by blast
  qed
  let ?c0 = "\<lparr>briefcases = [], selectedCase = None, eliminatedCases = {},
             values = denominations, caseValues = Map.empty\<rparr>"
  have "newBoard rand = reset rand ?c0"
    by (simp add: newBoard_def reset_def)
  moreover have "values ?c0 = denominations" by simp
  ultimately have "\<exists>b0. newBoard rand = Inr b0 \<and> values b0 = denominations \<and>
            (\<forall>doc ops.
               length (briefcases (applyOps doc b0 ops)) = 26 \<and>
               mset (map value (briefcases (applyOps doc b0 ops))) = mset denominations)"
    using fresh [of ?c0] by auto
  then show ?thesis
    using fresh [of b] distinct_denominations length_denominations by blast
qed

theorem value_conservation_witness:
  "(\<forall>k::nat. (0::real) \<le> 99 / 100 \<and> (99 / 100 :: real) < 1) \<and>
   (\<exists>b0. newBoard (\<lambda>k. 99 / 100) = Inr b0 \<and>
      mset (map value (briefcases (applyOps {1..26} b0 [Select 7, Eliminate 3, Switch 5])))
        = mset denominations) \<and>
   (\<exists>b1. reset (\<lambda>k. 99 / 100) finalFour = Inr b1 \<and>
      mset (map value (briefcases (applyOps {1..26} b1 [Select 7, Eliminate 3, Switch 5])))
        = mset denominations)"
proof -
  have r: "\<forall>k::nat. (0::real) \<le> (\<lambda>k. 99 / 100) k \<and> (\<lambda>k. 99 / 100 :: real) k < 1"
    by simp
  have v: "values finalFour = denominations"
    by (simp add: finalFour_def tableBoard_def)
  from value_conservation [OF r, of finalFour] v show ?thesis
    by simp blast
qed

lemma find_Some_P: "find P xs = Some x \<Longrightarrow> P x"
  by (induction xs) (auto split: if_splits)

lemma finalFour_case2:
  "getBriefcase finalFour 2 = Some \<lparr>number = 2, isSelected = False, isEliminated = False, value = 1\<rparr>"
  by (simp add: getBriefcase_def finalFour_def tableBoard_def denominations_def upto_1_26)

lemma finalFour_case10:
  "getBriefcase finalFour 10
     = Some \<lparr>number = 10, isSelected = False, isEliminated = True, value = 300\<rparr>"
  by (simp add: getBriefcase_def finalFour_def tableBoard_def denominations_def upto_1_26)

lemma finalFour_case26:
  "getBriefcase finalFour 26
     = Some \<lparr>number = 26, isSelected = True, isEliminated = False, value = 1000000\<rparr>"
  by (simp add: getBriefcase_def finalFour_def tableBoard_def denominations_def upto_1_26)

lemma finalFour_case27: "getBriefcase finalFour 27 = None"
  by (simp add: getBriefcase_def finalFour_def tableBoard_def denominations_def upto_1_26)

lemma finalFourGame_board: "board (finalFourGame bk) = finalFour"
  by (simp add: finalFourGame_def)

text \<open>
  Claim C5, as the code has it. \<^verbatim>\<open>eliminateBriefcase\<close> returns \<^verbatim>\<open>null\<close> and leaves the board
  unchanged when the case is unknown, has no element on the page, or is already eliminated.
  Any other case, the held one included, is marked eliminated, its number is added to the
  eliminated set, and its value is returned; no other briefcase changes. The guard for the
  held case is in the controller: \<^verbatim>\<open>Game.eliminateCase\<close> leaves the game unchanged for a
  case that is not available, and a held case is not available.
\<close>

theorem eliminateBriefcase_guard:
  "(getBriefcase b n = None \<or> n \<notin> doc \<or> map_option isEliminated (getBriefcase b n) = Some True
      \<longrightarrow> eliminateBriefcase doc b n = (None, b)) \<and>
   (\<forall>bc. getBriefcase b n = Some bc \<and> n \<in> doc \<and> \<not> isEliminated bc \<longrightarrow>
      (\<exists>b'. eliminateBriefcase doc b n = (Some (value bc), b') \<and>
            getBriefcase b' n = Some (bc\<lparr>isEliminated := True\<rparr>) \<and>
            eliminatedCases b' = insert n (eliminatedCases b) \<and>
            selectedCase b' = selectedCase b \<and>
            map number (briefcases b') = map number (briefcases b) \<and>
            map value (briefcases b') = map value (briefcases b) \<and>
            map isSelected (briefcases b') = map isSelected (briefcases b) \<and>
            (\<forall>i < length (briefcases b).
               number (briefcases b ! i) \<noteq> n \<longrightarrow> briefcases b' ! i = briefcases b ! i))) \<and>
   (\<not> isCaseAvailable (board g) n \<longrightarrow> eliminateCase doc g n = g) \<and>
   (map_option isSelected (getBriefcase (board g) n) = Some True
      \<longrightarrow> \<not> isCaseAvailable (board g) n)"
proof -
  have a: "eliminateBriefcase doc b n = (None, b)"
    if "getBriefcase b n = None \<or> n \<notin> doc \<or> map_option isEliminated (getBriefcase b n) = Some True"
    using that by (auto simp: eliminateBriefcase_def split: option.splits)
  have b: "\<exists>b'. eliminateBriefcase doc b n = (Some (value bc), b') \<and>
            getBriefcase b' n = Some (bc\<lparr>isEliminated := True\<rparr>) \<and>
            eliminatedCases b' = insert n (eliminatedCases b) \<and>
            selectedCase b' = selectedCase b \<and>
            map number (briefcases b') = map number (briefcases b) \<and>
            map value (briefcases b') = map value (briefcases b) \<and>
            map isSelected (briefcases b') = map isSelected (briefcases b) \<and>
            (\<forall>i < length (briefcases b).
               number (briefcases b ! i) \<noteq> n \<longrightarrow> briefcases b' ! i = briefcases b ! i)"
    if h: "getBriefcase b n = Some bc" "n \<in> doc" "\<not> isEliminated bc" for bc
  proof -
    from h(1) have f: "find (\<lambda>c. number c = n) (briefcases b) = Some bc"
      by (simp add: getBriefcase_def)
    then have nb: "number bc = n" by (auto dest: find_Some_P)
    have "find (\<lambda>c. number c = n)
            (updateFirst (\<lambda>c. number c = n) (\<lambda>c. c\<lparr>isEliminated := True\<rparr>) (briefcases b))
          = Some (bc\<lparr>isEliminated := True\<rparr>)"
      using f nb by (intro find_updateFirst) simp_all
    then show ?thesis
      using h by (simp add: eliminateBriefcase_def getBriefcase_def map_updateFirst
          updateFirst_nth_other)
  qed
  have c: "eliminateCase doc g n = g" if "\<not> isCaseAvailable (board g) n"
    using that by (simp add: eliminateCase_def)
  have d: "\<not> isCaseAvailable (board g) n"
    if "map_option isSelected (getBriefcase (board g) n) = Some True"
    using that by (auto simp: isCaseAvailable_def split: option.splits)
  from a b c d show ?thesis by blast
qed

theorem eliminateBriefcase_guard_witness:
  "eliminateBriefcase {1..26} finalFour 10 = (None, finalFour) \<and>
   eliminateBriefcase {1..26} finalFour 27 = (None, finalFour) \<and>
   fst (eliminateBriefcase {1..26} finalFour 2) = Some 1 \<and>
   eliminatedCases (snd (eliminateBriefcase {1..26} finalFour 2))
     = insert 2 (eliminatedCases finalFour) \<and>
   eliminateCase {1..26} (finalFourGame newBanker) 26 = finalFourGame newBanker"
proof -
  have 1: "eliminateBriefcase {1..26} finalFour 10 = (None, finalFour)"
    using eliminateBriefcase_guard [of finalFour 10 "{1..26}" g, THEN conjunct1]
    by (simp add: finalFour_case10)
  have 2: "eliminateBriefcase {1..26} finalFour 27 = (None, finalFour)"
    using eliminateBriefcase_guard [of finalFour 27 "{1..26}" g, THEN conjunct1]
    by (simp add: finalFour_case27)
  have "\<exists>b'. eliminateBriefcase {1..26} finalFour 2 = (Some 1, b') \<and>
             eliminatedCases b' = insert 2 (eliminatedCases finalFour)"
    using eliminateBriefcase_guard [of finalFour 2 "{1..26}" g, THEN conjunct2,
        THEN conjunct1, rule_format,
        of "\<lparr>number = 2, isSelected = False, isEliminated = False, value = 1\<rparr>"]
    by (auto simp: finalFour_case2)
  then obtain b' where b': "eliminateBriefcase {1..26} finalFour 2 = (Some 1, b')"
      "eliminatedCases b' = insert 2 (eliminatedCases finalFour)"
    by (elim exE conjE)
  have 3: "fst (eliminateBriefcase {1..26} finalFour 2) = Some 1"
    by (simp add: b'(1))
  have 4: "eliminatedCases (snd (eliminateBriefcase {1..26} finalFour 2))
             = insert 2 (eliminatedCases finalFour)"
    by (simp add: b')
  have 5: "eliminateCase {1..26} (finalFourGame newBanker) 26 = finalFourGame newBanker"
    using eliminateBriefcase_guard [of finalFour 26 "{1..26}" "finalFourGame newBanker",
        THEN conjunct2, THEN conjunct2]
    by (simp add: finalFourGame_board finalFour_case26)
  show ?thesis
    by (intro conjI) (rule 1 2 3 4 5)+
qed

text \<open>
  Against claim C5 as stated: on the late-game board, case 26 is the held one, and
  \<^verbatim>\<open>eliminateBriefcase(26)\<close> returns its value 1000000 and marks it eliminated instead of
  signalling an error and leaving the board unchanged.
\<close>

theorem eliminateBriefcase_held_counterexample:
  "map_option isSelected (getBriefcase finalFour 26) = Some True \<and>
   fst (eliminateBriefcase {1..26} finalFour 26) = Some 1000000 \<and>
   map_option isEliminated (getBriefcase (snd (eliminateBriefcase {1..26} finalFour 26)) 26)
     = Some True \<and>
   snd (eliminateBriefcase {1..26} finalFour 26) \<noteq> finalFour"
proof -
  have 1: "map_option isSelected (getBriefcase finalFour 26) = Some True"
    by (simp add: finalFour_case26)
  have 2: "fst (eliminateBriefcase {1..26} finalFour 26) = Some 1000000"
    by (simp add: eliminateBriefcase_def finalFour_case26)
  have 3: "map_option isEliminated (getBriefcase (snd (eliminateBriefcase {1..26} finalFour 26)) 26)
     = Some True"
    by (simp add: eliminateBriefcase_def getBriefcase_def finalFour_def tableBoard_def
        denominations_def upto_1_26)
  have 4: "snd (eliminateBriefcase {1..26} finalFour 26) \<noteq> finalFour"
  proof
    assume "snd (eliminateBriefcase {1..26} finalFour 26) = finalFour"
    with 3 show False by (simp add: finalFour_case26)
  qed
  show ?thesis
    by (intro conjI) (rule 1 2 3 4)+
qed

text \<open>
  Claim C7, as the code has it. \<^verbatim>\<open>selectBriefcase\<close> returns \<^verbatim>\<open>false\<close> and leaves the board
  unchanged when the case does not exist or has no element on the page. Any existing case,
  eliminated or not, and whether or not another case is already held, gets its selected flag
  set and becomes \<^verbatim>\<open>selectedCase\<close>, with \<^verbatim>\<open>true\<close> returned; no other briefcase changes.
  Clicks on an eliminated case are dropped before they reach it.
\<close>

theorem selectBriefcase_guard:
  "(getBriefcase b n = None \<or> n \<notin> doc \<longrightarrow> selectBriefcase doc b n = (False, b)) \<and>
   (\<forall>bc. getBriefcase b n = Some bc \<and> n \<in> doc \<longrightarrow>
      (\<exists>b'. selectBriefcase doc b n = (True, b') \<and>
            getBriefcase b' n = Some (bc\<lparr>isSelected := True\<rparr>) \<and>
            selectedCase b' = Some n \<and>
            eliminatedCases b' = eliminatedCases b \<and>
            map number (briefcases b') = map number (briefcases b) \<and>
            map value (briefcases b') = map value (briefcases b) \<and>
            map isEliminated (briefcases b') = map isEliminated (briefcases b) \<and>
            (\<forall>i < length (briefcases b).
               number (briefcases b ! i) \<noteq> n \<longrightarrow> briefcases b' ! i = briefcases b ! i))) \<and>
   (map_option isEliminated (getBriefcase (board g) n) = Some True
      \<longrightarrow> handleBriefcaseClick doc g n = g)"
proof -
  have a: "selectBriefcase doc b n = (False, b)" if "getBriefcase b n = None \<or> n \<notin> doc"
    using that by (auto simp: selectBriefcase_def split: option.splits)
  have b: "\<exists>b'. selectBriefcase doc b n = (True, b') \<and>
            getBriefcase b' n = Some (bc\<lparr>isSelected := True\<rparr>) \<and>
            selectedCase b' = Some n \<and>
            eliminatedCases b' = eliminatedCases b \<and>
            map number (briefcases b') = map number (briefcases b) \<and>
            map value (briefcases b') = map value (briefcases b) \<and>
            map isEliminated (briefcases b') = map isEliminated (briefcases b) \<and>
            (\<forall>i < length (briefcases b).
               number (briefcases b ! i) \<noteq> n \<longrightarrow> briefcases b' ! i = briefcases b ! i)"
    if h: "getBriefcase b n = Some bc" "n \<in> doc" for bc
  proof -
    from h(1) have f: "find (\<lambda>c. number c = n) (briefcases b) = Some bc"
      by (simp add: getBriefcase_def)
    then have nb: "number bc = n" by (auto dest: find_Some_P)
    have "find (\<lambda>c. number c = n)
            (updateFirst (\<lambda>c. number c = n) (\<lambda>c. c\<lparr>isSelected := True\<rparr>) (briefcases b))
          = Some (bc\<lparr>isSelected := True\<rparr>)"
      using f nb by (intro find_updateFirst) simp_all
    then show ?thesis
      using h by (simp add: selectBriefcase_def getBriefcase_def map_updateFirst
          updateFirst_nth_other)
  qed
  have c: "handleBriefcaseClick doc g n = g"
    if "map_option isEliminated (getBriefcase (board g) n) = Some True"
    using that by (auto simp: handleBriefcaseClick_def split: option.splits)
  from a b c show ?thesis by blast
qed

theorem selectBriefcase_guard_witness:
  "selectBriefcase {1..26} finalFour 27 = (False, finalFour) \<and>
   fst (selectBriefcase {1..26} finalFour 2) = True \<and>
   selectedCase (snd (selectBriefcase {1..26} finalFour 2)) = Some 2 \<and>
   handleBriefcaseClick {1..26} (finalFourGame newBanker) 10 = finalFourGame newBanker"
proof -
  have 1: "selectBriefcase {1..26} finalFour 27 = (False, finalFour)"
    using selectBriefcase_guard [of finalFour 27 "{1..26}" g, THEN conjunct1]
    by (simp add: finalFour_case27)
  have "\<exists>b'. selectBriefcase {1..26} finalFour 2 = (True, b') \<and> selectedCase b' = Some 2"
    using selectBriefcase_guard [of finalFour 2 "{1..26}" g, THEN conjunct2,
        THEN conjunct1, rule_format,
        of "\<lparr>number = 2, isSelected = False, isEliminated = False, value = 1\<rparr>"]
    by (auto simp: finalFour_case2)
  then obtain b' where b': "selectBriefcase {1..26} finalFour 2 = (True, b')"
      "selectedCase b' = Some 2"
    by (elim exE conjE)
  have 2: "fst (selectBriefcase {1..26} finalFour 2) = True"
    by (simp add: b'(1))
  have 3: "selectedCase (snd (selectBriefcase {1..26} finalFour 2)) = Some 2"
    by (simp add: b')
  have 4: "handleBriefcaseClick {1..26} (finalFourGame newBanker) 10 = finalFourGame newBanker"
    using selectBriefcase_guard [of finalFour 10 "{1..26}" "finalFourGame newBanker",
        THEN conjunct2, THEN conjunct2]
    by (simp add: finalFourGame_board finalFour_case10)
  show ?thesis
    by (intro conjI) (rule 1 2 3 4)+
qed

text \<open>
  Against claim C7 as stated: on the late-game board, case 10 is eliminated and case 26 is
  held, yet \<^verbatim>\<open>selectBriefcase(10)\<close> returns \<^verbatim>\<open>true\<close>, makes case 10 the selected case and
  leaves two briefcases flagged as selected.
\<close>

theorem selectBriefcase_eliminated_counterexample:
  "map_option isEliminated (getBriefcase finalFour 10) = Some True \<and>
   fst (selectBriefcase {1..26} finalFour 10) = True \<and>
   selectedCase (snd (selectBriefcase {1..26} finalFour 10)) = Some 10 \<and>
   length (filter isSelected (briefcases (snd (selectBriefcase {1..26} finalFour 10)))) = 2 \<and>
   snd (selectBriefcase {1..26} finalFour 10) \<noteq> finalFour"
proof -
  have 1: "map_option isEliminated (getBriefcase finalFour 10) = Some True"
    by (simp add: finalFour_case10)
  have 2: "fst (selectBriefcase {1..26} finalFour 10) = True"
    by (simp add: selectBriefcase_def finalFour_case10)
  have 3: "selectedCase (snd (selectBriefcase {1..26} finalFour 10)) = Some 10"
    by (simp add: selectBriefcase_def finalFour_case10)
  have 4: "length (filter isSelected (briefcases (snd (selectBriefcase {1..26} finalFour 10)))) = 2"
    by (simp add: selectBriefcase_def getBriefcase_def finalFour_def tableBoard_def
        denominations_def upto_1_26)
  have 5: "selectedCase finalFour = Some 26"
    by (simp add: finalFour_def tableBoard_def)
  have 6: "snd (selectBriefcase {1..26} finalFour 10) \<noteq> finalFour"
  proof
    assume "snd (selectBriefcase {1..26} finalFour 10) = finalFour"
    with 3 5 show False by simp
  qed
  show ?thesis
    by (intro conjI) (rule 1 2 3 4 6)+
qed

section \<open>Properties of the banker\<close>

subsection \<open>A call on an array with valid values\<close>

lemma calculateOffer_eval:
  "validValuesOf rv = vs \<Longrightarrow> vs \<noteq> [] \<Longrightarrow>
   calculateOffer b (Some rv) r rnd =
     (Math_round (safeOffer b rv vs r rnd),
      b\<lparr>offers := offers b @ [Math_round (safeOffer b rv vs r rnd)],
        currentOffer := Math_round (safeOffer b rv vs r rnd),
        offerNumber := offerNumber b + 1\<rparr>)"
  by (auto simp: calculateOffer_def Let_def validValuesOf_def)

subsection \<open>The risk multiplier without square roots\<close>

lemma less_sqrt_iff: "0 \<le> a \<Longrightarrow> (a < sqrt v) = (a\<^sup>2 < v)"
proof -
  assume "0 \<le> a"
  then have "sqrt (a\<^sup>2) = a" by simp
  then have "(a < sqrt v) = (sqrt (a\<^sup>2) < sqrt v)" by simp
  then show ?thesis by (simp only: real_sqrt_less_iff)
qed

lemma cv_gt_iff:
  assumes "0 < m" "0 \<le> c"
  shows "(c < sqrt v / m) = ((c * m)\<^sup>2 < v)"
proof -
  have "(c < sqrt v / m) = (c * m < sqrt v)"
    using assms by (simp add: pos_less_divide_eq)
  also have "\<dots> = ((c * m)\<^sup>2 < v)"
    using assms by (intro less_sqrt_iff) simp
  finally show ?thesis .
qed

lemma getRiskMultiplier_squares:
  "0 < calculateExpectedValue vs \<Longrightarrow>
   getRiskMultiplier vs =
     (let mean = calculateExpectedValue vs;
          variance = foldl (\<lambda>sum v. sum + (v - mean)\<^sup>2) 0 vs / real (length vs)
      in if (2 * mean)\<^sup>2 < variance then 85 / 100
         else if (15 / 10 * mean)\<^sup>2 < variance then 9 / 10
         else if (1 * mean)\<^sup>2 < variance then 95 / 100
         else 1)"
  by (simp only: getRiskMultiplier_def Let_def cv_gt_iff)

subsection \<open>Offers on concrete arrays\<close>

text \<open>The late-game board: 0.01, 1 and 5 in play and 1000000 held.\<close>

lemma mean_four: "calculateExpectedValue [1 / 100, 1, 5, 1000000] = 100000601 / 400"
  by (simp add: calculateExpectedValue_def)

lemma risk_four: "getRiskMultiplier [1 / 100, 1, 5, 1000000] = 9 / 10"
  by (simp add: getRiskMultiplier_squares mean_four Let_def power2_eq_square)

lemma floored_four: "flooredOffer newBanker [1 / 100, 1, 5, 1000000] 5 = 351902114919 / 1600000"
  by (simp add: flooredOffer_def mean_four risk_four getRoundMultiplier_def
      getPsychologyMultiplier_def newBanker_def)

lemma safe_four:
  "safeOffer newBanker [JNum (1 / 100), JNum 1, JNum 5, JNum 1000000] [1 / 100, 1, 5, 1000000]
     5 (1 / 2) = 1700010217 / 8000"
  by (simp add: safeOffer_def cappedOffer_def maxOffer_def progressedOffer_def roundedOffer_def
      floored_four mean_four isNaN_def roundOffer_def Math_round_def Let_def)

lemma offer_four:
  "calculateOffer newBanker (Some [JNum (1 / 100), JNum 1, JNum 5, JNum 1000000]) 5 (1 / 2)
     = (212501, \<lparr>offers = [212501], currentOffer = 212501, offerNumber = 1,
                  aggressiveness = 1 / 2\<rparr>)"
  by (subst calculateOffer_eval [where vs = "[1 / 100, 1, 5, 1000000]"])
     (simp_all add: validValuesOf_def safe_four Math_round_def, simp add: newBanker_def)

lemma mean_three: "calculateExpectedValue [1 / 100, 1, 5] = 601 / 300"
  by (simp add: calculateExpectedValue_def)

lemma risk_three: "getRiskMultiplier [1 / 100, 1, 5] = 95 / 100"
  by (simp add: getRiskMultiplier_squares mean_three Let_def power2_eq_square)

lemma floored_three: "flooredOffer newBanker [1 / 100, 1, 5] 5 = 787911 / 400000"
  by (simp add: flooredOffer_def mean_three risk_three getRoundMultiplier_def
      getPsychologyMultiplier_def newBanker_def)

lemma safe_three:
  "safeOffer newBanker [JNum (1 / 100), JNum 1, JNum 5] [1 / 100, 1, 5] 5 (1 / 2) = 1"
  by (simp add: safeOffer_def cappedOffer_def maxOffer_def progressedOffer_def roundedOffer_def
      floored_three mean_three isNaN_def roundOffer_def Math_round_def Let_def)
     (simp add: newBanker_def)

lemma offer_three:
  "fst (calculateOffer newBanker (Some [JNum (1 / 100), JNum 1, JNum 5]) 5 (1 / 2)) = 1"
  by (subst calculateOffer_eval [where vs = "[1 / 100, 1, 5]"])
     (simp_all add: validValuesOf_def safe_three Math_round_def)

subsection \<open>Claims about the banker\<close>

text \<open>
  Claim C8. The round multiplier is the step function of the specification: by remaining
  count first (at most 2: 0.95, at most 3: 0.90, at most 5: 0.85, at most 10: 0.80, whatever
  the round), otherwise by round (0.25, 0.35, 0.45, 0.55, 0.65, 0.75 for rounds 1 to 6),
  otherwise 0.70.
\<close>

theorem getRoundMultiplier_step_function:
  "(n \<le> 2 \<longrightarrow> getRoundMultiplier r n = 95 / 100) \<and>
   (n = 3 \<longrightarrow> getRoundMultiplier r n = 90 / 100) \<and>
   (3 < n \<and> n \<le> 5 \<longrightarrow> getRoundMultiplier r n = 85 / 100) \<and>
   (5 < n \<and> n \<le> 10 \<longrightarrow> getRoundMultiplier r n = 80 / 100) \<and>
   (10 < n \<and> r = 1 \<longrightarrow> getRoundMultiplier r n = 25 / 100) \<and>
   (10 < n \<and> r = 2 \<longrightarrow> getRoundMultiplier r n = 35 / 100) \<and>
   (10 < n \<and> r = 3 \<longrightarrow> getRoundMultiplier r n = 45 / 100) \<and>
   (10 < n \<and> r = 4 \<longrightarrow> getRoundMultiplier r n = 55 / 100) \<and>
   (10 < n \<and> r = 5 \<longrightarrow> getRoundMultiplier r n = 65 / 100) \<and>
   (10 < n \<and> r = 6 \<longrightarrow> getRoundMultiplier r n = 75 / 100) \<and>
   (10 < n \<and> (r < 1 \<or> 6 < r) \<longrightarrow> getRoundMultiplier r n = 70 / 100)"
  unfolding getRoundMultiplier_def by simp

theorem getRoundMultiplier_step_function_witness:
  "getRoundMultiplier 1 2 = 95 / 100 \<and> getRoundMultiplier 7 3 = 90 / 100 \<and>
   getRoundMultiplier 1 5 = 85 / 100 \<and> getRoundMultiplier 2 10 = 80 / 100 \<and>
   getRoundMultiplier 1 20 = 25 / 100 \<and> getRoundMultiplier 2 15 = 35 / 100 \<and>
   getRoundMultiplier 3 11 = 45 / 100 \<and> getRoundMultiplier 4 11 = 55 / 100 \<and>
   getRoundMultiplier 5 11 = 65 / 100 \<and> getRoundMultiplier 6 11 = 75 / 100 \<and>
   getRoundMultiplier 7 11 = 70 / 100"
  using getRoundMultiplier_step_function [of 2 1]
    getRoundMultiplier_step_function [of 3 7]
    getRoundMultiplier_step_function [of 5 1]
    getRoundMultiplier_step_function [of 10 2]
    getRoundMultiplier_step_function [of 20 1]
    getRoundMultiplier_step_function [of 15 2]
    getRoundMultiplier_step_function [of 11 3]
    getRoundMultiplier_step_function [of 11 4]
    getRoundMultiplier_step_function [of 11 5]
    getRoundMultiplier_step_function [of 11 6]
    getRoundMultiplier_step_function [of 11 7]
  by simp

text \<open>
  Claim C9. On a missing or empty array, or one without any valid (numeric, not NaN,
  positive) value, \<^verbatim>\<open>calculateOffer\<close> takes one of its early returns: it gives the fixed
  fallback 0 (nothing passed) or 1000 (nothing valid), and the banker, its offer history
  included, is untouched. The function is total, so no input makes it raise.
\<close>

theorem calculateOffer_degrades:
  "calculateOffer b None r rnd = (0, b) \<and>
   calculateOffer b (Some []) r rnd = (0, b) \<and>
   (rv \<noteq> [] \<and> (\<forall>v \<in> set rv. \<not> isValidValue v)
      \<longrightarrow> calculateOffer b (Some rv) r rnd = (1000, b))"
  by (simp add: calculateOffer_def validValuesOf_def filter_empty_conv)

theorem calculateOffer_degrades_witness:
  "calculateOffer newBanker (Some [JNaN, JNotNumber, JNum 0, JNum (- 5)]) 3 (1 / 2)
     = (1000, newBanker)"
  using calculateOffer_degrades [of newBanker 3 "1 / 2" "[JNaN, JNotNumber, JNum 0, JNum (- 5)]"]
  by simp

section \<open>Properties of the banker in binary64 arithmetic\<close>

subsection \<open>Rounding to binary64\<close>

text \<open>Powers of two, the rounding \<open>rne\<close> to an integer and the rounding \<open>rp\<close> to 53
  significant bits: bounds, monotonicity, and exactness on the numbers binary64 represents.\<close>

lemma a1: "(2::real) powr real_of_int (k + 1) = 2 powi (k + 1)"
  by (rule powr_real_of_int') simp_all

lemma pw_add: "(2::real) powi a * 2 powi b = 2 powi (a + b)"
  by (simp add: power_int_add)

lemma s52: "(2::real) powi e = real_of_int (2 ^ 52) * 2 powi (e - 52)"
proof -
  have "real_of_int (2 ^ 52) = 2 powi 52" by simp
  moreover have "(2::real) powi 52 * 2 powi (e - 52) = 2 powi e"
    using pw_add [of 52 "e - 52"] by (simp del: power_int_numeral)
  ultimately show ?thesis by (simp only:)
qed

lemma s53: "(2::real) powi (e + 1) = real_of_int (2 ^ 53) * 2 powi (e - 52)"
proof -
  have "real_of_int (2 ^ 53) = 2 powi 53" by simp
  moreover have "(2::real) powi 53 * 2 powi (e - 52) = 2 powi (e + 1)"
    using pw_add [of 53 "e - 52"] by (simp del: power_int_numeral add: add.commute)
  ultimately show ?thesis by (simp only:)
qed

lemma rne_bounds: "\<lfloor>r\<rfloor> \<le> rne r \<and> rne r \<le> \<lfloor>r\<rfloor> + 1"
  by (simp add: rne_def Let_def)

lemma rne_of_int: "rne (of_int n) = n"
  by (simp add: rne_def Let_def)

lemma rne_mono: "r \<le> s \<Longrightarrow> rne r \<le> rne s"
proof -
  assume rs: "r \<le> s"
  then have fl: "\<lfloor>r\<rfloor> \<le> \<lfloor>s\<rfloor>" by (rule floor_mono)
  show ?thesis
  proof (cases "\<lfloor>r\<rfloor> = \<lfloor>s\<rfloor>")
    case True
    with rs have "r - of_int \<lfloor>r\<rfloor> \<le> s - of_int \<lfloor>s\<rfloor>" by simp
    with True show ?thesis by (auto simp: rne_def Let_def)
  next
    case False
    with fl have "\<lfloor>r\<rfloor> + 1 \<le> \<lfloor>s\<rfloor>" by simp
    with rne_bounds [of r] rne_bounds [of s] show ?thesis by linarith
  qed
qed

lemma floor_log2_iff:
  "0 < x \<Longrightarrow> (\<lfloor>log 2 x\<rfloor> = k) = (2 powi k \<le> x \<and> x < 2 powi (k + 1))"
proof -
  assume x: "0 < x"
  have a: "(2::real) powr real_of_int k = 2 powi k"
    by (rule powr_real_of_int') simp_all
  have b: "(2::real) powr (real_of_int k + 1) = 2 powi (k + 1)"
    using a1 [of k] by simp
  have "(\<lfloor>log 2 x\<rfloor> = k)
          = (2 powr real_of_int k \<le> x \<and> x < 2 powr (real_of_int k + 1))"
    using floor_log_eq_powr_iff [of x 2 k] x by simp
  also have "\<dots> = (2 powi k \<le> x \<and> x < 2 powi (k + 1))"
    unfolding a b ..
  finally show ?thesis .
qed

lemma rne_scale_lower:
  assumes "0 < q" "real_of_int N * q \<le> x"
  shows "real_of_int N * q \<le> real_of_int (rne (x / q)) * q"
proof -
  have "real_of_int N \<le> x / q" using assms by (simp add: pos_le_divide_eq)
  then have "rne (real_of_int N) \<le> rne (x / q)" by (rule rne_mono)
  then have "real_of_int N \<le> real_of_int (rne (x / q))" by (simp only: rne_of_int of_int_le_iff)
  then show ?thesis using assms(1) by (simp add: mult_right_mono)
qed

lemma rne_scale_upper:
  assumes "0 < q" "x \<le> real_of_int N * q"
  shows "real_of_int (rne (x / q)) * q \<le> real_of_int N * q"
proof -
  have "x / q \<le> real_of_int N" using assms by (simp add: pos_divide_le_eq)
  then have "rne (x / q) \<le> rne (real_of_int N)" by (rule rne_mono)
  then have "real_of_int (rne (x / q)) \<le> real_of_int N" by (simp only: rne_of_int of_int_le_iff)
  then show ?thesis using assms(1) by (simp add: mult_right_mono)
qed

lemma expo_upper: "0 < x \<Longrightarrow> x < 2 powi (expo x + 1)"
proof -
  assume x: "0 < x"
  from floor_log2_iff [OF x, of "\<lfloor>log 2 x\<rfloor>"] have "x < 2 powi (\<lfloor>log 2 x\<rfloor> + 1)" by simp
  also have "\<dots> \<le> 2 powi (expo x + 1)"
    by (rule power_int_increasing) (simp_all add: expo_def)
  finally show ?thesis .
qed

lemma expo_lower: "0 < x \<Longrightarrow> - 1022 < expo x \<Longrightarrow> 2 powi (expo x) \<le> x"
proof -
  assume x: "0 < x" and e: "- 1022 < expo x"
  then have "expo x = \<lfloor>log 2 x\<rfloor>" by (simp add: expo_def max_def split: if_splits)
  with floor_log2_iff [OF x, of "\<lfloor>log 2 x\<rfloor>"] show ?thesis by simp
qed

lemma expo_mono: "0 < x \<Longrightarrow> x \<le> y \<Longrightarrow> expo x \<le> expo y"
  unfolding expo_def by (intro max.mono floor_mono) simp_all

lemma expo_eqI:
  "0 < x \<Longrightarrow> 2 powi k \<le> x \<Longrightarrow> x < 2 powi (k + 1) \<Longrightarrow> expo x = max k (- 1022)"
  using floor_log2_iff [of x k] by (simp add: expo_def)

lemma rp_nonneg: "0 \<le> x \<Longrightarrow> 0 \<le> rp x"
proof -
  assume "0 \<le> x"
  then have "0 \<le> x / 2 powi (expo x - 52)" by simp
  then have "rne 0 \<le> rne (x / 2 powi (expo x - 52))" by (rule rne_mono)
  then show ?thesis using rne_of_int [of 0] by (simp add: rp_def Let_def)
qed

lemma rp_upper: "0 < x \<Longrightarrow> rp x \<le> 2 powi (expo x + 1)"
proof -
  assume x: "0 < x"
  let ?q = "2 powi (expo x - 52) :: real"
  have q: "0 < ?q" by simp
  have "x \<le> real_of_int (2 ^ 53) * ?q"
    using expo_upper [OF x] by (simp only: s53 [symmetric])
  from rne_scale_upper [OF q this] show ?thesis
    by (simp only: rp_def Let_def s53 [symmetric])
qed

lemma rp_lower: "0 < x \<Longrightarrow> - 1022 < expo x \<Longrightarrow> 2 powi (expo x) \<le> rp x"
proof -
  assume x: "0 < x" and e: "- 1022 < expo x"
  let ?q = "2 powi (expo x - 52) :: real"
  have q: "0 < ?q" by simp
  have "real_of_int (2 ^ 52) * ?q \<le> x"
    using expo_lower [OF x e] by (simp only: s52 [symmetric])
  from rne_scale_lower [OF q this] show ?thesis
    by (simp only: rp_def Let_def s52 [symmetric])
qed

lemma rp_mono: "0 < x \<Longrightarrow> x \<le> y \<Longrightarrow> rp x \<le> rp y"
proof -
  assume x: "0 < x" and xy: "x \<le> y"
  then have y: "0 < y" by simp
  have le: "expo x \<le> expo y" using x xy by (rule expo_mono)
  show ?thesis
  proof (cases "expo x = expo y")
    case True
    let ?q = "2 powi (expo x - 52) :: real"
    have q: "0 < ?q" by simp
    have "x / ?q \<le> y / ?q" using xy q by (simp add: divide_right_mono)
    then have "rne (x / ?q) \<le> rne (y / ?q)" by (rule rne_mono)
    then have "real_of_int (rne (x / ?q)) * ?q \<le> real_of_int (rne (y / ?q)) * ?q"
      using q by (simp add: mult_right_mono)
    then show ?thesis by (simp add: rp_def Let_def True)
  next
    case False
    with le have lt: "expo x + 1 \<le> expo y" by simp
    have "- 1022 \<le> expo x" by (simp add: expo_def)
    with lt have ey: "- 1022 < expo y" by simp
    have "rp x \<le> 2 powi (expo x + 1)" using x by (rule rp_upper)
    also have "\<dots> \<le> 2 powi (expo y)"
      using lt by (intro power_int_increasing) simp_all
    also have "\<dots> \<le> rp y" using y ey by (rule rp_lower)
    finally show ?thesis .
  qed
qed

lemma rp_exact:
  assumes n: "0 < n" "n < 2 ^ 53" and k: "k \<le> 1074"
  shows "rp (of_int n / 2 ^ k) = of_int n / 2 ^ k"
proof -
  let ?x = "real_of_int n / 2 ^ k"
  have x: "0 < ?x" using n by simp
  have "real_of_int n < 2 ^ 53" using n(2) by (metis of_int_less_iff of_int_numeral of_int_power)
  then have "?x < 2 ^ 53 / 2 ^ k" by (simp add: divide_strict_right_mono)
  also have "\<dots> = 2 powi (53 - int k)" by (simp add: power_int_diff)
  finally have up: "?x < 2 powi (53 - int k)" .
  have "\<lfloor>log 2 ?x\<rfloor> < 53 - int k"
  proof (rule ccontr)
    assume "\<not> \<lfloor>log 2 ?x\<rfloor> < 53 - int k"
    then have "53 - int k \<le> \<lfloor>log 2 ?x\<rfloor>" by simp
    then have "(2::real) powi (53 - int k) \<le> 2 powi \<lfloor>log 2 ?x\<rfloor>"
      by (intro power_int_increasing) simp_all
    also have "\<dots> \<le> ?x" using floor_log2_iff [OF x, of "\<lfloor>log 2 ?x\<rfloor>"] by simp
    finally show False using up by simp
  qed
  with k have e: "expo ?x \<le> 52 - int k" by (simp add: expo_def)
  define m where "m = nat (52 - int k - expo ?x)"
  have m: "int m = 52 - int k - expo ?x" using e by (simp add: m_def)
  let ?q = "2 powi (expo ?x - 52) :: real"
  have "?x / ?q = of_int n * (2 powi (- int k) * 2 powi (52 - expo ?x))"
    by (simp add: power_int_minus power_int_diff field_simps)
  also have "2 powi (- int k) * 2 powi (52 - expo ?x) = (2::real) powi (int m)"
    by (simp add: m flip: power_int_add) (simp add: algebra_simps)
  finally have xq: "?x / ?q = of_int (n * 2 ^ m)" by simp
  have "rp ?x = of_int (rne (?x / ?q)) * ?q" by (simp add: rp_def Let_def)
  also have "\<dots> = of_int (n * 2 ^ m) * ?q" by (simp only: xq rne_of_int)
  also have "\<dots> = ?x / ?q * ?q" by (simp only: xq)
  also have "\<dots> = ?x" by simp
  finally show ?thesis .
qed

subsection \<open>The order on binary64 numbers\<close>

lemma jle_refl: "\<not> isNaN64 a \<Longrightarrow> jle a a"
  by (cases a) simp_all

lemma jle_trans: "jle a b \<Longrightarrow> jle b c \<Longrightarrow> jle a c"
  by (cases a; cases b; cases c) simp_all

lemma jle_not_NaN: "jle a b \<Longrightarrow> \<not> isNaN64 a \<and> \<not> isNaN64 b"
  by (cases a; cases b) simp_all

lemma nonneg_cases: "jle (Num 0) a \<Longrightarrow> (\<exists>y. a = Num y \<and> 0 \<le> y) \<or> a = PInf"
  by (cases a) simp_all

lemma jlt_imp_jle: "jlt a b \<Longrightarrow> jle a b"
  by (cases a; cases b) simp_all

lemma jmax_ge1: "\<not> isNaN64 a \<Longrightarrow> \<not> isNaN64 b \<Longrightarrow> jle a (jmax a b)"
  by (cases a; cases b) (simp_all add: jmax_def)

lemma jmax_ge2: "\<not> isNaN64 a \<Longrightarrow> \<not> isNaN64 b \<Longrightarrow> jle b (jmax a b)"
  by (cases a; cases b) (simp_all add: jmax_def)

lemma jmin_le2: "\<not> isNaN64 a \<Longrightarrow> \<not> isNaN64 b \<Longrightarrow> jle (jmin a b) b"
  by (cases a; cases b) (simp_all add: jmin_def)

lemma jmin_mono: "jle a a' \<Longrightarrow> jle b b' \<Longrightarrow> jle (jmin a b) (jmin a' b')"
  by (cases a; cases a'; cases b; cases b') (simp_all add: jmin_def)

lemma jmin_nonneg: "jle (Num 0) a \<Longrightarrow> jle (Num 0) b \<Longrightarrow> jle (Num 0) (jmin a b)"
  by (cases a; cases b) (simp_all add: jmin_def)

lemma jmax_nonneg: "jle (Num 0) a \<Longrightarrow> jle (Num 0) b \<Longrightarrow> jle (Num 0) (jmax a b)"
  by (cases a; cases b) (simp_all add: jmax_def)

lemma Math_round64_mono: "jle a b \<Longrightarrow> jle (Math_round64 a) (Math_round64 b)"
  by (cases a; cases b) (simp_all add: floor_mono)

lemma Math_round64_nonneg: "jle (Num 0) a \<Longrightarrow> jle (Num 0) (Math_round64 a)"
  using Math_round64_mono [of "Num 0" a] by simp

subsection \<open>Monotonicity and exact cases of the rounding\<close>

lemma flp_nonneg: "0 < x \<Longrightarrow> jle (Num 0) (flp x)"
  using rp_nonneg [of x] by (simp add: flp_def Let_def)

lemma flp_mono: "0 < x \<Longrightarrow> x \<le> y \<Longrightarrow> jle (flp x) (flp y)"
  using rp_mono [of x y] by (simp add: flp_def Let_def)

lemma fl_nonneg: "0 \<le> x \<Longrightarrow> jle (Num 0) (fl x)"
  using flp_nonneg [of x] by (simp add: fl_def)

lemma fl_mono: "0 \<le> x \<Longrightarrow> x \<le> y \<Longrightarrow> jle (fl x) (fl y)"
proof -
  assume x: "0 \<le> x" and xy: "x \<le> y"
  show ?thesis
  proof (cases "x = 0")
    case True
    with xy fl_nonneg [of y] show ?thesis by (simp add: fl_def)
  next
    case False
    with x xy have "0 < x" "0 < y" by simp_all
    with xy flp_mono [of x y] show ?thesis by (simp add: fl_def)
  qed
qed

lemma jneg_jneg: "jneg (jneg a) = a"
  by (cases a) simp_all

lemma fl_minus: "fl (- x) = jneg (fl x)"
  by (simp add: fl_def jneg_jneg)

lemma rp_exact_gen:
  assumes n: "0 < n" "n < 2 ^ 53" and j: "- 1074 \<le> j"
  shows "rp (of_int n * 2 powi j) = of_int n * 2 powi j"
proof -
  let ?x = "real_of_int n * 2 powi j"
  have x: "0 < ?x" using n by simp
  have "real_of_int n < real_of_int (2 ^ 53)" using n(2) by (simp only: of_int_less_iff)
  then have "?x < real_of_int (2 ^ 53) * 2 powi j" by simp
  also have "\<dots> = 2 powi (j + 53)"
    using s53 [of "j + 52"] by (simp add: add.commute)
  finally have up: "?x < 2 powi (j + 53)" .
  have "\<lfloor>log 2 ?x\<rfloor> < j + 53"
  proof (rule ccontr)
    assume "\<not> \<lfloor>log 2 ?x\<rfloor> < j + 53"
    then have "j + 53 \<le> \<lfloor>log 2 ?x\<rfloor>" by simp
    then have "(2::real) powi (j + 53) \<le> 2 powi \<lfloor>log 2 ?x\<rfloor>"
      by (intro power_int_increasing) simp_all
    also have "\<dots> \<le> ?x" using floor_log2_iff [OF x, of "\<lfloor>log 2 ?x\<rfloor>"] by simp
    finally show False using up by simp
  qed
  with j have e: "expo ?x \<le> j + 52" by (simp add: expo_def)
  define m where "m = nat (j + 52 - expo ?x)"
  have m: "int m = j + 52 - expo ?x" using e by (simp add: m_def)
  let ?q = "2 powi (expo ?x - 52) :: real"
  have pj: "2 powi j = 2 powi (int m) * ?q"
    using pw_add [of "int m" "expo ?x - 52"] by (simp add: m)
  have "?x = real_of_int n * (2 powi (int m) * ?q)" by (simp only: pj [symmetric])
  also have "\<dots> = real_of_int (n * 2 ^ m) * ?q" by simp
  finally have eq: "?x = real_of_int (n * 2 ^ m) * ?q" .
  have q0: "?q \<noteq> 0" by simp
  have "?x / ?q = real_of_int (n * 2 ^ m) * ?q / ?q" using eq by (rule arg_cong)
  also have "\<dots> = real_of_int (n * 2 ^ m)" using q0 by (rule nonzero_mult_div_cancel_right)
  finally have xq: "?x / ?q = of_int (n * 2 ^ m)" .
  have "rp ?x = of_int (rne (?x / ?q)) * ?q" by (simp add: rp_def Let_def)
  also have "\<dots> = of_int (n * 2 ^ m) * ?q" by (simp only: xq rne_of_int)
  also have "\<dots> = ?x" by (simp only: eq [symmetric])
  finally show ?thesis .
qed

lemma rp_idem:
  assumes x: "0 < x"
  shows "rp (rp x) = rp x"
proof -
  let ?q = "2 powi (expo x - 52) :: real"
  define N where "N = rne (x / ?q)"
  have q: "0 < ?q" by simp
  have r: "rp x = of_int N * ?q" by (simp add: rp_def Let_def N_def)
  have e: "- 1074 \<le> expo x - 52" by (simp add: expo_def)
  have "0 \<le> x / ?q" using x by simp
  then have "rne 0 \<le> N" unfolding N_def by (rule rne_mono)
  then have N0: "0 \<le> N" using rne_of_int [of 0] by simp
  have "real_of_int N * ?q \<le> real_of_int (2 ^ 53) * ?q"
    using rp_upper [OF x] by (simp only: r s53 [symmetric])
  then have "real_of_int N \<le> real_of_int (2 ^ 53)" using q by (simp only: mult_le_cancel_right_pos)
  then have N53: "N \<le> 2 ^ 53" by (simp only: of_int_le_iff)
  consider "N = 0" | "0 < N" "N < 2 ^ 53" | "N = 2 ^ 53" using N0 N53 by linarith
  then show ?thesis
  proof cases
    case 1
    then have "rp x = 0" by (simp add: r)
    moreover have "rp 0 = 0" by (simp add: rp_def Let_def rne_def)
    ultimately show ?thesis by simp
  next
    case 2
    from rp_exact_gen [OF 2 e] show ?thesis by (simp only: r)
  next
    case 3
    have "rp x = real_of_int 1 * 2 powi (expo x + 1)"
      by (simp only: r 3 s53 [symmetric])
    moreover have "rp (real_of_int 1 * 2 powi (expo x + 1)) = real_of_int 1 * 2 powi (expo x + 1)"
      by (rule rp_exact_gen) (simp_all add: expo_def)
    ultimately show ?thesis by simp
  qed
qed

lemma fl_idem: "fl x = Num y \<Longrightarrow> fl y = Num y"
proof -
  assume a: "fl x = Num y"
  have pos: "fl z = Num w \<Longrightarrow> fl w = Num w" if "0 < z" for z w
  proof -
    assume b: "fl z = Num w"
    with that have w: "w = rp z" "\<not> 2 powi 1024 \<le> rp z"
      by (auto simp: fl_def flp_def Let_def split: if_splits)
    have "0 \<le> w" using rp_nonneg [of z] that w by simp
    show "fl w = Num w"
    proof (cases "w = 0")
      case True
      then show ?thesis by (simp add: fl_def)
    next
      case False
      with \<open>0 \<le> w\<close> have "0 < w" by simp
      moreover have "rp w = w" using rp_idem [OF that] w by simp
      ultimately show ?thesis using w by (simp add: fl_def flp_def Let_def)
    qed
  qed
  consider "x = 0" | "0 < x" | "x < 0" by linarith
  then show ?thesis
  proof cases
    case 1
    with a show ?thesis by (simp add: fl_def)
  next
    case 2
    with a pos show ?thesis by blast
  next
    case 3
    then have nx: "0 < - x" by simp
    from a have "fl (- x) = Num (- y)" by (simp add: fl_minus)
    with pos [OF nx] have "fl (- y) = Num (- y)" by blast
    then have "jneg (fl y) = Num (- y)" by (simp add: fl_minus)
    then show ?thesis by (cases "fl y") simp_all
  qed
qed

lemma fl_dyadic:
  assumes "0 < n" "n < 2 ^ 53" "k \<le> 1074"
  shows "fl (of_int n / 2 ^ k) = Num (of_int n / 2 ^ k)"
proof -
  let ?x = "real_of_int n / 2 ^ k"
  have x: "0 < ?x" using assms by simp
  have r: "rp ?x = ?x" using assms by (rule rp_exact)
  have "real_of_int n < real_of_int (2 ^ 53)" using assms(2) by (simp only: of_int_less_iff)
  then have "real_of_int n < 2 ^ 53" by simp
  moreover have "?x \<le> real_of_int n"
  proof -
    have "real_of_int n * 1 \<le> real_of_int n * 2 ^ k"
      using assms(1) by (intro mult_left_mono) simp_all
    then show ?thesis by (simp add: pos_divide_le_eq)
  qed
  ultimately have "?x < 2 ^ 53" by linarith
  also have "(2::real) ^ 53 < 2 powi 1024" by simp
  finally have "\<not> 2 powi 1024 \<le> rp ?x" by (simp only: r)
  with x r show ?thesis by (simp add: fl_def flp_def Let_def)
qed

lemma fl_between:
  assumes a: "fl a = Num a" and b: "fl b = Num b" and "0 \<le> a" "a \<le> x" "x \<le> b"
  shows "\<exists>y. fl x = Num y \<and> a \<le> y \<and> y \<le> b"
proof -
  have "jle (Num a) (fl x)" using fl_mono [of a x] assms by simp
  moreover have "jle (fl x) (Num b)" using fl_mono [of x b] assms by simp
  ultimately show ?thesis by (cases "fl x") simp_all
qed

lemma fl_0: "fl 0 = Num 0"
  by (simp add: fl_def)

lemma fl_int: "0 < n \<Longrightarrow> n < 2 ^ 53 \<Longrightarrow> fl (of_int n) = Num (of_int n)"
  using fl_dyadic [of n 0] by simp

lemma fl_numeral: "numeral w < (2::int) ^ 53 \<Longrightarrow> fl (numeral w) = Num (numeral w)"
  using fl_int [of "numeral w"] by simp

lemma fl_1: "fl 1 = Num 1"
  using fl_int [of 1] by simp

lemma fl_half: "fl (1 / 2) = Num (1 / 2)"
  using fl_dyadic [of 1 1] by simp

lemma fl_quarter: "fl (1 / 4) = Num (1 / 4)"
  using fl_dyadic [of 1 2] by simp

lemma fl_eighth: "fl (1 / 8) = Num (1 / 8)"
  using fl_dyadic [of 1 3] by simp

text \<open>a decimal literal between 1/4 and 2\<close>

lemma literal_bounds:
  assumes "1 / 4 \<le> c" "c \<le> 2"
  shows "\<exists>y. fl c = Num y \<and> 1 / 4 \<le> y \<and> y \<le> 2"
  using fl_between [OF fl_quarter fl_numeral [of "num.Bit0 num.One"], of c] assms by simp

lemma literal_ge1:
  assumes "1 \<le> c" "c \<le> 2"
  shows "\<exists>y. fl c = Num y \<and> 1 \<le> y \<and> y \<le> 2"
  using fl_between [OF fl_1 fl_numeral [of "num.Bit0 num.One"], of c] assms by simp

subsection \<open>Operations on non-negative numbers\<close>

lemma jadd_nonneg: "jle (Num 0) a \<Longrightarrow> jle (Num 0) b \<Longrightarrow> jle (Num 0) (jadd a b)"
  by (cases a; cases b) (simp_all add: fl_nonneg)

lemma jmul_nonneg: "jle (Num 0) a \<Longrightarrow> 0 < y \<Longrightarrow> jle (Num 0) (jmul a (Num y))"
  by (cases a) (simp_all add: fl_nonneg)

lemma jdiv_nonneg: "jle (Num 0) a \<Longrightarrow> 0 < y \<Longrightarrow> jle (Num 0) (jdiv a (Num y))"
  by (cases a) (simp_all add: fl_nonneg)

lemma jmul_mono:
  "jle (Num 0) a \<Longrightarrow> jle a a' \<Longrightarrow> 0 < c \<Longrightarrow> c \<le> c' \<Longrightarrow>
   jle (jmul a (Num c)) (jmul a' (Num c'))"
proof (cases a; cases a')
  fix x x' assume "a = Num x" "a' = Num x'" "jle (Num 0) a" "jle a a'" "0 < c" "c \<le> c'"
  then have "0 \<le> x * c" "x * c \<le> x' * c'" by (simp_all add: mult_mono)
  then show ?thesis using \<open>a = Num x\<close> \<open>a' = Num x'\<close> by (simp add: fl_mono)
next
  fix x assume "a = Num x" "a' = PInf" "jle (Num 0) a" "0 < c" "c \<le> c'"
  then show ?thesis using fl_nonneg [of "x * c"] jle_not_NaN [of "Num 0" "fl (x * c)"]
    by (cases "fl (x * c)") simp_all
qed simp_all

lemma jdiv_mono:
  "jle (Num 0) a \<Longrightarrow> jle a a' \<Longrightarrow> 0 < s \<Longrightarrow> jle (jdiv a (Num s)) (jdiv a' (Num s))"
proof (cases a; cases a')
  fix x x' assume "a = Num x" "a' = Num x'" "jle (Num 0) a" "jle a a'" "0 < s"
  then have "0 \<le> x / s" "x / s \<le> x' / s" by (simp_all add: divide_right_mono)
  then show ?thesis using \<open>a = Num x\<close> \<open>a' = Num x'\<close> \<open>0 < s\<close> by (simp add: fl_mono)
next
  fix x assume "a = Num x" "a' = PInf" "jle (Num 0) a" "0 < s"
  then show ?thesis using fl_nonneg [of "x / s"] jle_not_NaN [of "Num 0" "fl (x / s)"]
    by (cases "fl (x / s)") simp_all
qed simp_all

subsection \<open>Rounding to a multiple of a step\<close>

lemma step_nonneg:
  "jle (Num 0) x \<Longrightarrow> 0 < s \<Longrightarrow> jle (Num 0) (jmul (Math_round64 (jdiv x (Num s))) (Num s))"
  by (intro jmul_nonneg Math_round64_nonneg jdiv_nonneg)

lemma step_mono:
  assumes "jle (Num 0) x" "jle x y" "0 < s"
  shows "jle (jmul (Math_round64 (jdiv x (Num s))) (Num s))
             (jmul (Math_round64 (jdiv y (Num s))) (Num s))"
proof -
  have "jle (Num 0) (Math_round64 (jdiv x (Num s)))"
    using assms by (intro Math_round64_nonneg jdiv_nonneg)
  moreover have "jle (Math_round64 (jdiv x (Num s))) (Math_round64 (jdiv y (Num s)))"
    using assms by (intro Math_round64_mono jdiv_mono)
  ultimately show ?thesis using assms(3) by (intro jmul_mono) simp_all
qed

lemma step_upper:
  assumes x: "jle (Num 0) x" "jlt x (Num (of_int k * s))"
      and s: "0 < s" and k: "0 < k" "k < 2 ^ 53" and B: "fl (of_int k * s) = Num (of_int k * s)"
  shows "jle (jmul (Math_round64 (jdiv x (Num s))) (Num s)) (Num (of_int k * s))"
proof -
  have kk: "jdiv (Num (of_int k * s)) (Num s) = Num (of_int k)"
    using s fl_int [OF k] by simp
  have "jmul (Math_round64 (Num (of_int k))) (Num s) = Num (of_int k * s)"
    by (simp add: B)
  then have r: "jmul (Math_round64 (jdiv (Num (of_int k * s)) (Num s))) (Num s)
                  = Num (of_int k * s)"
    by (simp only: kk)
  have "jle (jmul (Math_round64 (jdiv x (Num s))) (Num s))
            (jmul (Math_round64 (jdiv (Num (of_int k * s)) (Num s))) (Num s))"
    using x(1) jlt_imp_jle [OF x(2)] s by (rule step_mono)
  then show ?thesis by (simp only: r)
qed

lemma step_lower:
  assumes y: "jle (Num (of_int k * s)) y"
      and s: "0 < s" and k: "0 < k" "k < 2 ^ 53" and B: "fl (of_int k * s) = Num (of_int k * s)"
  shows "jle (Num (of_int k * s)) (jmul (Math_round64 (jdiv y (Num s))) (Num s))"
proof -
  have kk: "jdiv (Num (of_int k * s)) (Num s) = Num (of_int k)"
    using s fl_int [OF k] by simp
  have "jmul (Math_round64 (Num (of_int k))) (Num s) = Num (of_int k * s)"
    by (simp add: B)
  then have r: "jmul (Math_round64 (jdiv (Num (of_int k * s)) (Num s))) (Num s)
                  = Num (of_int k * s)"
    by (simp only: kk)
  have "jle (Num 0) (Num (of_int k * s))" using s k by simp
  then have "jle (jmul (Math_round64 (jdiv (Num (of_int k * s)) (Num s))) (Num s))
            (jmul (Math_round64 (jdiv y (Num s))) (Num s))"
    using y s by (rule step_mono)
  then show ?thesis by (simp only: r)
qed

subsection \<open>The rounding of offers to brackets is monotone\<close>

lemma roundOffer64_nonneg: "jle (Num 0) x \<Longrightarrow> jle (Num 0) (roundOffer64 x)"
  by (simp add: roundOffer64_def step_nonneg)

lemma roundOffer64_PInf: "roundOffer64 PInf = PInf"
  by (simp add: roundOffer64_def)

lemma step5_upper:
  "0 \<le> x \<Longrightarrow> x < 100 \<Longrightarrow> jle (jmul (Math_round64 (jdiv (Num x) (Num 5))) (Num 5)) (Num 100)"
  using step_upper [of "Num x" 20 5] by (simp add: fl_numeral)

lemma step10_lower:
  "100 \<le> x \<Longrightarrow> jle (Num 100) (jmul (Math_round64 (jdiv (Num x) (Num 10))) (Num 10))"
  using step_lower [of 10 10 "Num x"] by (simp add: fl_numeral)

lemma step10_upper:
  "0 \<le> x \<Longrightarrow> x < 1000 \<Longrightarrow>
   jle (jmul (Math_round64 (jdiv (Num x) (Num 10))) (Num 10)) (Num 1000)"
  using step_upper [of "Num x" 100 10] by (simp add: fl_numeral)

lemma step100_lower:
  "1000 \<le> x \<Longrightarrow> jle (Num 1000) (jmul (Math_round64 (jdiv (Num x) (Num 100))) (Num 100))"
  using step_lower [of 10 100 "Num x"] by (simp add: fl_numeral)

lemma step100_upper:
  "0 \<le> x \<Longrightarrow> x < 10000 \<Longrightarrow>
   jle (jmul (Math_round64 (jdiv (Num x) (Num 100))) (Num 100)) (Num 10000)"
  using step_upper [of "Num x" 100 100] by (simp add: fl_numeral)

lemma step500_lower:
  "10000 \<le> x \<Longrightarrow> jle (Num 10000) (jmul (Math_round64 (jdiv (Num x) (Num 500))) (Num 500))"
  using step_lower [of 20 500 "Num x"] by (simp add: fl_numeral)

lemma step500_upper:
  "0 \<le> x \<Longrightarrow> x < 100000 \<Longrightarrow>
   jle (jmul (Math_round64 (jdiv (Num x) (Num 500))) (Num 500)) (Num 100000)"
  using step_upper [of "Num x" 200 500] by (simp add: fl_numeral)

lemma step1000_lower:
  "100000 \<le> x \<Longrightarrow>
   jle (Num 100000) (jmul (Math_round64 (jdiv (Num x) (Num 1000))) (Num 1000))"
  using step_lower [of 100 1000 "Num x"] by (simp add: fl_numeral)

lemma step1000_upper:
  "0 \<le> x \<Longrightarrow> x < 500000 \<Longrightarrow>
   jle (jmul (Math_round64 (jdiv (Num x) (Num 1000))) (Num 1000)) (Num 500000)"
  using step_upper [of "Num x" 500 1000] by (simp add: fl_numeral)

lemma step5000_lower:
  "500000 \<le> x \<Longrightarrow>
   jle (Num 500000) (jmul (Math_round64 (jdiv (Num x) (Num 5000))) (Num 5000))"
  using step_lower [of 100 5000 "Num x"] by (simp add: fl_numeral)

text \<open>The result of a bracket lies between the bracket's own bounds.\<close>

lemma roundOffer64_bracket:
  assumes "0 \<le> x"
  shows "(x < 100 \<longrightarrow> jle (roundOffer64 (Num x)) (Num 100)) \<and>
         (100 \<le> x \<and> x < 1000 \<longrightarrow>
            jle (Num 100) (roundOffer64 (Num x)) \<and> jle (roundOffer64 (Num x)) (Num 1000)) \<and>
         (1000 \<le> x \<and> x < 10000 \<longrightarrow>
            jle (Num 1000) (roundOffer64 (Num x)) \<and> jle (roundOffer64 (Num x)) (Num 10000)) \<and>
         (10000 \<le> x \<and> x < 100000 \<longrightarrow>
            jle (Num 10000) (roundOffer64 (Num x)) \<and> jle (roundOffer64 (Num x)) (Num 100000)) \<and>
         (100000 \<le> x \<and> x < 500000 \<longrightarrow>
            jle (Num 100000) (roundOffer64 (Num x)) \<and> jle (roundOffer64 (Num x)) (Num 500000)) \<and>
         (500000 \<le> x \<longrightarrow> jle (Num 500000) (roundOffer64 (Num x)))"
  using assms
  by (simp add: roundOffer64_def step5_upper step10_lower step10_upper step100_lower
      step100_upper step500_lower step500_upper step1000_lower step1000_upper step5000_lower
      del: jdiv.simps)

lemma roundOffer64_below:
  assumes "0 \<le> x" "x < B" "B \<in> {100, 1000, 10000, 100000, 500000}"
  shows "jle (roundOffer64 (Num x)) (Num B)"
proof -
  note br = roundOffer64_bracket [OF assms(1)]
  consider "x < 100" | "100 \<le> x" "x < 1000" | "1000 \<le> x" "x < 10000"
    | "10000 \<le> x" "x < 100000" | "100000 \<le> x" "x < 500000" | "500000 \<le> x"
    by linarith
  then show ?thesis
  proof cases
    case 1
    with br have "jle (roundOffer64 (Num x)) (Num 100)" by simp
    moreover have "jle (Num 100) (Num B)" using assms(3) by auto
    ultimately show ?thesis by (rule jle_trans)
  next
    case 2
    with br have "jle (roundOffer64 (Num x)) (Num 1000)" by simp
    moreover have "jle (Num 1000) (Num B)" using assms(2,3) 2 by auto
    ultimately show ?thesis by (rule jle_trans)
  next
    case 3
    with br have "jle (roundOffer64 (Num x)) (Num 10000)" by simp
    moreover have "jle (Num 10000) (Num B)" using assms(2,3) 3 by auto
    ultimately show ?thesis by (rule jle_trans)
  next
    case 4
    with br have "jle (roundOffer64 (Num x)) (Num 100000)" by simp
    moreover have "jle (Num 100000) (Num B)" using assms(2,3) 4 by auto
    ultimately show ?thesis by (rule jle_trans)
  next
    case 5
    with br have "jle (roundOffer64 (Num x)) (Num 500000)" by simp
    moreover have "jle (Num 500000) (Num B)" using assms(2,3) 5 by auto
    ultimately show ?thesis by (rule jle_trans)
  next
    case 6
    with assms(2,3) show ?thesis by auto
  qed
qed

lemma roundOffer64_above:
  assumes "0 \<le> y" "B \<le> y" "B \<in> {100, 1000, 10000, 100000, 500000}"
  shows "jle (Num B) (roundOffer64 (Num y))"
proof -
  note br = roundOffer64_bracket [OF assms(1)]
  consider "y < 100" | "100 \<le> y" "y < 1000" | "1000 \<le> y" "y < 10000"
    | "10000 \<le> y" "y < 100000" | "100000 \<le> y" "y < 500000" | "500000 \<le> y"
    by linarith
  then show ?thesis
  proof cases
    case 1
    with assms(2,3) show ?thesis by auto
  next
    case 2
    with br have "jle (Num 100) (roundOffer64 (Num y))" by simp
    moreover have "jle (Num B) (Num 100)" using assms(2,3) 2 by auto
    ultimately show ?thesis using jle_trans by blast
  next
    case 3
    with br have "jle (Num 1000) (roundOffer64 (Num y))" by simp
    moreover have "jle (Num B) (Num 1000)" using assms(2,3) 3 by auto
    ultimately show ?thesis using jle_trans by blast
  next
    case 4
    with br have "jle (Num 10000) (roundOffer64 (Num y))" by simp
    moreover have "jle (Num B) (Num 10000)" using assms(2,3) 4 by auto
    ultimately show ?thesis using jle_trans by blast
  next
    case 5
    with br have "jle (Num 100000) (roundOffer64 (Num y))" by simp
    moreover have "jle (Num B) (Num 100000)" using assms(2,3) 5 by auto
    ultimately show ?thesis using jle_trans by blast
  next
    case 6
    with br have "jle (Num 500000) (roundOffer64 (Num y))" by simp
    moreover have "jle (Num B) (Num 500000)" using assms(2,3) 6 by auto
    ultimately show ?thesis using jle_trans by blast
  qed
qed

lemma roundOffer64_same_bracket:
  assumes "0 \<le> x" "x \<le> y"
      and "\<forall>B \<in> {100, 1000, 10000, 100000, 500000}. \<not> (x < B \<and> B \<le> y)"
  shows "jle (roundOffer64 (Num x)) (roundOffer64 (Num y))"
proof -
  have m: "jle (jmul (Math_round64 (jdiv (Num x) (Num s))) (Num s))
               (jmul (Math_round64 (jdiv (Num y) (Num s))) (Num s))" if "0 < s" for s
    using assms(1,2) that by (intro step_mono) simp_all
  from assms(3) have
    "(x < 100) = (y < 100)" "(x < 1000) = (y < 1000)" "(x < 10000) = (y < 10000)"
    "(x < 100000) = (y < 100000)" "(x < 500000) = (y < 500000)"
    using assms(2) by auto
  then show ?thesis
    by (simp add: roundOffer64_def m del: jdiv.simps)
qed

lemma roundOffer64_mono:
  assumes "jle (Num 0) a" "jle a b"
  shows "jle (roundOffer64 a) (roundOffer64 b)"
proof -
  from assms have nb: "jle (Num 0) b" by (rule jle_trans)
  from nonneg_cases [OF assms(1)] nonneg_cases [OF nb]
  consider x y where "a = Num x" "b = Num y" "0 \<le> x" "0 \<le> y"
    | "b = PInf" | "a = PInf" "b \<noteq> PInf"
    by blast
  then show ?thesis
  proof cases
    case 1
    with assms(2) have xy: "x \<le> y" by simp
    show ?thesis
    proof (cases "\<exists>B \<in> {100, 1000, 10000, 100000, 500000}. x < B \<and> B \<le> y")
      case True
      then obtain B where B: "B \<in> {100, 1000, 10000, 100000, 500000}" "x < B" "B \<le> y"
        by blast
      have "jle (roundOffer64 (Num x)) (Num B)" using 1(3) B(2,1) by (rule roundOffer64_below)
      moreover have "jle (Num B) (roundOffer64 (Num y))"
        using 1(4) B(3,1) by (rule roundOffer64_above)
      ultimately show ?thesis using 1 jle_trans by blast
    next
      case False
      then have "\<forall>B \<in> {100, 1000, 10000, 100000, 500000}. \<not> (x < B \<and> B \<le> y)" by blast
      with 1 xy roundOffer64_same_bracket show ?thesis by blast
    qed
  next
    case 2
    have "\<not> isNaN64 (roundOffer64 a)"
      using roundOffer64_nonneg [OF assms(1)] jle_not_NaN by blast
    with 2 show ?thesis by (cases "roundOffer64 a") (simp_all add: roundOffer64_PInf)
  next
    case 3
    with assms(2) show ?thesis by (cases b) simp_all
  qed
qed

lemma fl_sixteenth: "fl (1 / 16) = Num (1 / 16)"
  using fl_dyadic [of 1 4] by simp

lemma fl_2: "fl 2 = Num 2" and fl_4: "fl 4 = Num 4" and fl_8: "fl 8 = Num 8"
  by (simp_all add: fl_numeral)

lemma literal_tenth: "\<exists>d. fl (1 / 10) = Num d \<and> 1 / 16 \<le> d \<and> d \<le> 1 / 8"
  using fl_between [OF fl_sixteenth fl_eighth, of "1 / 10"] by simp

lemma literal_below1:
  assumes "1 / 2 \<le> c" "c \<le> 1"
  shows "\<exists>y. fl c = Num y \<and> 1 / 2 \<le> y \<and> y \<le> 1"
  using fl_between [OF fl_half fl_1, of c] assms by simp

subsection \<open>Sign and size of every stage of the offer\<close>

lemma validValuesOf64_positive: "v \<in> set (validValuesOf64 rv) \<Longrightarrow> jlt (Num 0) v"
proof -
  assume "v \<in> set (validValuesOf64 rv)"
  then obtain j where j: "isValidValue64 j" "v = numberOf64 j"
    by (auto simp: validValuesOf64_def)
  then show ?thesis by (cases j) simp_all
qed

lemma validValuesOf64_nonneg: "\<forall>v \<in> set (validValuesOf64 rv). jle (Num 0) v"
  using validValuesOf64_positive jlt_imp_jle by blast

lemma sum64_nonneg:
  "jle (Num 0) acc \<Longrightarrow> \<forall>v \<in> set vs. jle (Num 0) v \<Longrightarrow>
   jle (Num 0) (foldl (\<lambda>sum v. jadd sum v) acc vs)"
  by (induction vs arbitrary: acc) (simp_all add: jadd_nonneg)

lemma mean64_nonneg:
  "\<forall>v \<in> set vs. jle (Num 0) v \<Longrightarrow> jle (Num 0) (calculateExpectedValue64 vs)"
  by (simp add: calculateExpectedValue64_def sum64_nonneg jdiv_nonneg)

lemma roundMultiplier64_bounds:
  "\<exists>y. getRoundMultiplier64 r n = Num y \<and> 1 / 4 \<le> y \<and> y \<le> 2"
  unfolding getRoundMultiplier64_def
  by ((split if_split | intro conjI impI literal_bounds)+) simp_all

lemma one_bounds: "\<exists>y. Num 1 = Num y \<and> 1 / 4 \<le> y \<and> y \<le> 2"
  by simp

lemma riskMultiplier64_bounds:
  "\<exists>y. getRiskMultiplier64 vs = Num y \<and> 1 / 4 \<le> y \<and> y \<le> 2"
  unfolding getRiskMultiplier64_def Let_def
  by ((split if_split | intro conjI impI literal_bounds one_bounds)+) simp_all

lemma times_literal:
  assumes "m = Num u" "1 \<le> u" "u \<le> B" "1 \<le> c" "c \<le> 2" "fl (2 * B) = Num (2 * B)"
  shows "\<exists>y. jmul m (fl c) = Num y \<and> 1 \<le> y \<and> y \<le> 2 * B"
proof -
  from literal_ge1 [OF assms(4,5)] obtain w where w: "fl c = Num w" "1 \<le> w" "w \<le> 2"
    by blast
  have "1 * 1 \<le> u * w" using assms(2) w(2) by (intro mult_mono) simp_all
  moreover have "u * w \<le> B * 2" using assms(2,3) w(2,3) by (intro mult_mono) simp_all
  ultimately show ?thesis
    using fl_between [OF fl_1 assms(6), of "u * w"] assms(1) w(1) by (simp add: mult.commute)
qed

lemma psychologyMultiplier64_bounds:
  "\<exists>y. getPsychologyMultiplier64 b vs = Num y \<and> 1 \<le> y \<and> y \<le> 8"
proof -
  define m1 where "m1 =
    (if length (offers64 b) > 3 then
       (let recentOffers = drop (length (offers64 b) - 3) (offers64 b);
            avgRecentOffer = jdiv (foldl (\<lambda>x y. jadd x y) (Num 0) recentOffers)
                               (Num (real (length recentOffers)));
            currentExpected = calculateExpectedValue64 vs
        in if jlt (jmul currentExpected (fl (6 / 10))) avgRecentOffer
           then jmul (Num 1) (fl (11 / 10)) else Num 1)
     else Num 1)"
  define highShare where
    "highShare = jdiv (Num (real (length (filter (\<lambda>v. jle (Num 100000) v) vs))))
                   (Num (real (length vs)))"
  define lowShare where
    "lowShare = jdiv (Num (real (length (filter (\<lambda>v. jlt v (Num 1000)) vs))))
                  (Num (real (length vs)))"
  define m2 where "m2 =
    (if jlt (fl (7 / 10)) highShare then jmul m1 (fl (105 / 100))
     else if jlt (fl (5 / 10)) highShare then jmul m1 (fl (102 / 100))
     else if jlt (fl (6 / 10)) lowShare then jmul m1 (fl (115 / 100))
     else m1)"
  have p: "getPsychologyMultiplier64 b vs =
      (if length vs \<le> 3 \<and> length (filter (\<lambda>v. jle (Num 100000) v) vs) \<ge> 1
       then jmul m2 (fl (11 / 10)) else m2)"
    by (simp add: getPsychologyMultiplier64_def Let_def m1_def m2_def highShare_def
        lowShare_def)
  have b1: "\<exists>y. m1 = Num y \<and> 1 \<le> y \<and> y \<le> 2"
    using times_literal [of "Num 1" 1 1 "11 / 10"]
    by (auto simp: m1_def Let_def fl_2)
  then obtain u1 where u1: "m1 = Num u1" "1 \<le> u1" "u1 \<le> 2" by blast
  have t: "\<exists>y. jmul m1 (fl c) = Num y \<and> 1 \<le> y \<and> y \<le> 4" if "1 \<le> c" "c \<le> 2" for c
    using times_literal [OF u1 that] by (simp add: fl_4)
  have b2: "\<exists>y. m2 = Num y \<and> 1 \<le> y \<and> y \<le> 4"
    using t [of "105 / 100"] t [of "102 / 100"] t [of "115 / 100"] u1
    by (auto simp: m2_def)
  then obtain u2 where u2: "m2 = Num u2" "1 \<le> u2" "u2 \<le> 4" by blast
  have "\<exists>y. jmul m2 (fl (11 / 10)) = Num y \<and> 1 \<le> y \<and> y \<le> 8"
    using times_literal [OF u2, of "11 / 10"] by (simp add: fl_8)
  with u2 show ?thesis by (auto simp: p)
qed

lemma product64_nonneg:
  assumes "\<forall>v \<in> set vs. jle (Num 0) v"
  shows "jle (Num 0)
           (jmul (jmul (jmul (calculateExpectedValue64 vs) (getRoundMultiplier64 r (length vs)))
                    (getPsychologyMultiplier64 b vs))
              (getRiskMultiplier64 vs))"
proof -
  obtain a where a: "getRoundMultiplier64 r (length vs) = Num a" "0 < a"
    using roundMultiplier64_bounds [of r "length vs"] by force
  obtain p where p: "getPsychologyMultiplier64 b vs = Num p" "0 < p"
    using psychologyMultiplier64_bounds [of b vs] by force
  obtain k where k: "getRiskMultiplier64 vs = Num k" "0 < k"
    using riskMultiplier64_bounds [of vs] by force
  show ?thesis
    unfolding a(1) p(1) k(1)
    by (intro jmul_nonneg mean64_nonneg assms a p k)
qed

lemma literal85: "\<exists>y. fl (85 / 100) = Num y \<and> 1 / 2 \<le> y \<and> y \<le> 1"
  by (rule literal_below1) simp_all

lemma literal95: "\<exists>y. fl (95 / 100) = Num y \<and> 1 / 2 \<le> y \<and> y \<le> 1"
  by (rule literal_below1) simp_all

lemma literal105: "\<exists>y. fl (105 / 100) = Num y \<and> 1 \<le> y \<and> y \<le> 2"
  by (rule literal_ge1) simp_all

lemma floor85_nonneg:
  assumes "\<forall>v \<in> set vs. jle (Num 0) v"
  shows "jle (Num 0) (jmul (calculateExpectedValue64 vs) (fl (85 / 100)))"
proof -
  obtain y where y: "fl (85 / 100) = Num y" "0 < y" using literal85 by force
  show ?thesis unfolding y(1) by (intro jmul_nonneg mean64_nonneg assms y)
qed

lemma flooredOffer64_nonneg:
  assumes "\<forall>v \<in> set vs. jle (Num 0) v"
  shows "jle (Num 0) (flooredOffer64 b vs r)"
  using product64_nonneg [OF assms] floor85_nonneg [OF assms]
  by (simp add: flooredOffer64_def Let_def jmax_nonneg)

lemma flooredOffer64_floor:
  assumes "\<forall>v \<in> set vs. jle (Num 0) v" "length vs \<le> 3"
  shows "jle (jmul (calculateExpectedValue64 vs) (fl (85 / 100))) (flooredOffer64 b vs r)"
  using product64_nonneg [OF assms(1), of r b] floor85_nonneg [OF assms(1)] assms(2)
  by (simp add: flooredOffer64_def Let_def jmax_ge2 jle_not_NaN)

lemma randomFactor64_bounds:
  assumes "0 \<le> rnd" "rnd < 1"
  shows "\<exists>a y. fl (95 / 100) = Num a \<and> randomFactor64 rnd = Num y \<and> 0 < a \<and> a \<le> y"
proof -
  obtain a where a: "fl (95 / 100) = Num a" "1 / 2 \<le> a" "a \<le> 1" using literal95 by blast
  obtain d where d: "fl (1 / 10) = Num d" "1 / 16 \<le> d" "d \<le> 1 / 8"
    using literal_tenth by blast
  have "0 \<le> rnd * d" using assms d by simp
  moreover have "rnd * d \<le> 1 * (1 / 8)" using assms d by (intro mult_mono) simp_all
  ultimately obtain z where z: "fl (rnd * d) = Num z" "0 \<le> z" "z \<le> 1 / 8"
    using fl_between [OF fl_0 fl_eighth, of "rnd * d"] by auto
  have aa: "fl a = Num a" using a(1) by (rule fl_idem)
  obtain y where y: "fl (a + z) = Num y" "a \<le> y" "y \<le> 2"
    using fl_between [OF aa fl_2, of "a + z"] a z by auto
  show ?thesis
    using a d z y by (simp add: randomFactor64_def)
qed

lemma roundedOffer64_nonneg:
  assumes "\<forall>v \<in> set vs. jle (Num 0) v" "0 \<le> rnd" "rnd < 1"
  shows "jle (Num 0) (roundedOffer64 b vs r rnd)"
proof -
  obtain a y where y: "randomFactor64 rnd = Num y" "0 < a" "a \<le> y"
    using randomFactor64_bounds [OF assms(2,3)] by blast
  have n: "\<not> isNaN64 (flooredOffer64 b vs r)"
    using flooredOffer64_nonneg [OF assms(1)] jle_not_NaN by blast
  have "jle (Num 0) (jmul (flooredOffer64 b vs r) (Num y))"
    using flooredOffer64_nonneg [OF assms(1)] y by (intro jmul_nonneg) simp_all
  then show ?thesis
    using n y(1) by (simp add: roundedOffer64_def Let_def roundOffer64_nonneg)
qed

lemma roundedOffer64_floor:
  assumes "\<forall>v \<in> set vs. jle (Num 0) v" "0 \<le> rnd" "rnd < 1" "length vs \<le> 3"
  shows "jle (roundOffer64 (jmul (jmul (calculateExpectedValue64 vs) (fl (85 / 100)))
                               (fl (95 / 100))))
             (roundedOffer64 b vs r rnd)"
proof -
  obtain a y where y: "fl (95 / 100) = Num a" "randomFactor64 rnd = Num y" "0 < a" "a \<le> y"
    using randomFactor64_bounds [OF assms(2,3)] by blast
  have n: "\<not> isNaN64 (flooredOffer64 b vs r)"
    using flooredOffer64_nonneg [OF assms(1)] jle_not_NaN by blast
  let ?f = "jmul (calculateExpectedValue64 vs) (fl (85 / 100))"
  have "jle (jmul ?f (Num a)) (jmul (flooredOffer64 b vs r) (Num y))"
    using floor85_nonneg [OF assms(1)] flooredOffer64_floor [OF assms(1,4)] y(3,4)
    by (rule jmul_mono)
  moreover have "jle (Num 0) (jmul ?f (Num a))"
    using floor85_nonneg [OF assms(1)] y(3) by (rule jmul_nonneg)
  ultimately have "jle (roundOffer64 (jmul ?f (Num a)))
                       (roundOffer64 (jmul (flooredOffer64 b vs r) (Num y)))"
    using roundOffer64_mono by blast
  then show ?thesis
    using n y(1,2) by (simp add: roundedOffer64_def Let_def)
qed

lemma minIncrease64_nonneg:
  "jle (Num 0) (last (offers64 b)) \<Longrightarrow> jle (Num 0) (minIncrease64 b)"
proof -
  assume l: "jle (Num 0) (last (offers64 b))"
  obtain c where c: "fl (105 / 100) = Num c" "0 < c" using literal105 by force
  show ?thesis unfolding minIncrease64_def c(1) using l c(2) by (rule jmul_nonneg)
qed

lemma progressedOffer64_facts:
  assumes vs: "\<forall>v \<in> set vs. jle (Num 0) v" and rnd: "0 \<le> rnd" "rnd < 1"
      and hist: "\<forall>o' \<in> set (offers64 b). jle (Num 0) o'"
  shows "jle (Num 0) (progressedOffer64 b vs r rnd)"
    and "jle (roundedOffer64 b vs r rnd) (progressedOffer64 b vs r rnd)"
    and "offers64 b \<noteq> [] \<Longrightarrow> 1 < r \<Longrightarrow> jle (minIncrease64 b) (progressedOffer64 b vs r rnd)"
proof -
  have ro: "jle (Num 0) (roundedOffer64 b vs r rnd)"
    using vs rnd by (rule roundedOffer64_nonneg)
  then have nro: "\<not> isNaN64 (roundedOffer64 b vs r rnd)" using jle_not_NaN by blast
  have mi: "jle (Num 0) (minIncrease64 b)" if "offers64 b \<noteq> []"
    using that hist by (intro minIncrease64_nonneg) simp
  then have nmi: "\<not> isNaN64 (minIncrease64 b)" if "offers64 b \<noteq> []"
    using that jle_not_NaN by blast
  show "jle (Num 0) (progressedOffer64 b vs r rnd)"
    using ro mi by (simp add: progressedOffer64_def Let_def jmax_nonneg)
  show "jle (roundedOffer64 b vs r rnd) (progressedOffer64 b vs r rnd)"
    using nro nmi by (simp add: progressedOffer64_def Let_def jmax_ge1 jle_refl)
  show "jle (minIncrease64 b) (progressedOffer64 b vs r rnd)" if "offers64 b \<noteq> []" "1 < r"
    using that nro nmi by (simp add: progressedOffer64_def Let_def jmax_ge2)
qed

lemma maxOffer64_nonneg:
  assumes "\<forall>v \<in> set vs. jle (Num 0) v"
  shows "jle (Num 0) (maxOffer64 rv vs)"
proof -
  obtain y where y: "fl (85 / 100) = Num y" "0 < y" using literal85 by force
  obtain z where z: "fl (95 / 100) = Num z" "0 < z" using literal95 by force
  show ?thesis
    using y z mean64_nonneg [OF assms] by (simp add: maxOffer64_def Let_def jmul_nonneg)
qed

lemma Math_min64_nonneg:
  "\<forall>v \<in> set vs. jle (Num 0) v \<Longrightarrow> jle (Num 0) (Math_min64 vs)"
proof -
  have "jle (Num 0) acc \<Longrightarrow> \<forall>v \<in> set vs. jle (Num 0) v \<Longrightarrow> jle (Num 0) (foldl jmin acc vs)"
    for acc
    by (induction vs arbitrary: acc) (simp_all add: jmin_nonneg)
  then show "\<forall>v \<in> set vs. jle (Num 0) v \<Longrightarrow> jle (Num 0) (Math_min64 vs)"
    by (simp add: Math_min64_def)
qed

lemma fallbackOffer64_ge1:
  assumes "\<forall>v \<in> set vs. jle (Num 0) v"
  shows "jle (Num 1) (fallbackOffer64 vs)"
proof -
  obtain d where d: "fl (1 / 10) = Num d" "0 < d" using literal_tenth by force
  have "jle (Num 0) (jmul (Math_min64 vs) (Num d))"
    using Math_min64_nonneg [OF assms] d(2) by (rule jmul_nonneg)
  then have "\<not> isNaN64 (jmul (Math_min64 vs) (Num d))" using jle_not_NaN by blast
  then show ?thesis by (simp add: fallbackOffer64_def d(1) jmax_ge1)
qed

lemma calculateOffer64_valid:
  assumes "validValuesOf64 rv \<noteq> []"
  shows "calculateOffer64 b (Some rv) r rnd =
           (Math_round64 (safeOffer64 b rv (validValuesOf64 rv) r rnd),
            b\<lparr>offers64 := offers64 b @ [Math_round64 (safeOffer64 b rv (validValuesOf64 rv) r rnd)],
              currentOffer64 := Math_round64 (safeOffer64 b rv (validValuesOf64 rv) r rnd),
              offerNumber64 := offerNumber64 b + 1\<rparr>)"
proof -
  from assms have "rv \<noteq> []" by (auto simp: validValuesOf64_def)
  with assms show ?thesis by (simp add: calculateOffer64_def Let_def)
qed

lemma cappedOffer64_facts:
  assumes vs: "\<forall>v \<in> set vs. jle (Num 0) v" and rnd: "0 \<le> rnd" "rnd < 1"
      and hist: "\<forall>o' \<in> set (offers64 b). jle (Num 0) o'"
  shows "jle (Num 0) (cappedOffer64 b rv vs r rnd)"
    and "jle (cappedOffer64 b rv vs r rnd) (maxOffer64 rv vs)"
    and "jle x (progressedOffer64 b vs r rnd) \<Longrightarrow>
         jle (jmin x (maxOffer64 rv vs)) (cappedOffer64 b rv vs r rnd)"
proof -
  note p = progressedOffer64_facts [OF vs rnd hist, where r = r]
  note m = maxOffer64_nonneg [OF vs, where rv = rv]
  show "jle (Num 0) (cappedOffer64 b rv vs r rnd)"
    using p(1) m by (simp add: cappedOffer64_def jmin_nonneg)
  show "jle (cappedOffer64 b rv vs r rnd) (maxOffer64 rv vs)"
    using p(1) m jle_not_NaN by (simp add: cappedOffer64_def jmin_le2)
  show "jle (jmin x (maxOffer64 rv vs)) (cappedOffer64 b rv vs r rnd)" if "jle x (progressedOffer64 b vs r rnd)"
    unfolding cappedOffer64_def using that m jle_not_NaN by (intro jmin_mono jle_refl) blast+
qed

lemma returned64:
  assumes valid: "validValuesOf64 rv \<noteq> []" and rnd: "0 \<le> rnd" "rnd < 1"
      and hist: "\<forall>o' \<in> set (offers64 b). jle (Num 0) o'"
  shows "jlt (Num 0) (cappedOffer64 b rv (validValuesOf64 rv) r rnd) \<Longrightarrow>
           fst (calculateOffer64 b (Some rv) r rnd)
             = Math_round64 (cappedOffer64 b rv (validValuesOf64 rv) r rnd)"
    and "\<not> jlt (Num 0) (cappedOffer64 b rv (validValuesOf64 rv) r rnd) \<Longrightarrow>
           fst (calculateOffer64 b (Some rv) r rnd)
             = Math_round64 (fallbackOffer64 (validValuesOf64 rv))"
    and "jle (Math_round64 (cappedOffer64 b rv (validValuesOf64 rv) r rnd))
             (fst (calculateOffer64 b (Some rv) r rnd))"
    and "jle (Num 0) (fst (calculateOffer64 b (Some rv) r rnd))"
proof -
  let ?vs = "validValuesOf64 rv"
  let ?c = "cappedOffer64 b rv ?vs r rnd"
  note vs = validValuesOf64_nonneg [of rv]
  note c = cappedOffer64_facts [OF vs rnd hist, where rv = rv and r = r]
  have nn: "\<not> isNaN64 ?c" using c(1) jle_not_NaN by blast
  have le0: "jle ?c (Num 0) = (\<not> jlt (Num 0) ?c)"
    using c(1) by (cases ?c) auto
  have ret: "fst (calculateOffer64 b (Some rv) r rnd) =
               Math_round64 (if \<not> jlt (Num 0) ?c then fallbackOffer64 ?vs else ?c)"
    using nn le0 by (simp add: calculateOffer64_valid [OF valid] safeOffer64_def Let_def)
  show "fst (calculateOffer64 b (Some rv) r rnd) = Math_round64 ?c" if "jlt (Num 0) ?c"
    using that by (simp add: ret)
  show "fst (calculateOffer64 b (Some rv) r rnd) = Math_round64 (fallbackOffer64 ?vs)" if "\<not> jlt (Num 0) ?c"
    using that by (simp add: ret)
  have f1: "jle (Num 1) (Math_round64 (fallbackOffer64 ?vs))"
    using Math_round64_mono [OF fallbackOffer64_ge1 [OF vs]] by simp
  show "jle (Math_round64 ?c) (fst (calculateOffer64 b (Some rv) r rnd))"
  proof (cases "jlt (Num 0) ?c")
    case True
    then show ?thesis using nn by (simp add: ret jle_refl Math_round64_mono)
  next
    case False
    then have "jle ?c (Num 0)" using le0 by simp
    then have "jle (Math_round64 ?c) (Num 0)"
      using Math_round64_mono [of ?c "Num 0"] by simp
    moreover have "jle (Num 0) (Math_round64 (fallbackOffer64 ?vs))"
      using f1 jle_trans [of "Num 0" "Num 1"] by simp
    ultimately have "jle (Math_round64 ?c) (Math_round64 (fallbackOffer64 ?vs))"
      by (rule jle_trans)
    then show ?thesis using False by (simp add: ret)
  qed
  show "jle (Num 0) (fst (calculateOffer64 b (Some rv) r rnd))"
  proof (cases "jlt (Num 0) ?c")
    case True
    then show ?thesis using c(1) by (simp add: ret Math_round64_nonneg)
  next
    case False
    then show ?thesis using f1 jle_trans [of "Num 0" "Num 1"] by (simp add: ret)
  qed
qed

subsection \<open>Evaluation on concrete numbers by enclosure\<close>

text \<open>
  The result of an operation on binary64 numbers lies between any two binary64 numbers that
  enclose the exact result. An offer on concrete values is evaluated by carrying an enclosure
  of every intermediate number through the stages; a comparison or a \<^verbatim>\<open>Math.round\<close> is
  decided once the enclosure is narrow enough. Where an enclosure cannot decide, the number
  itself is computed from the definition of the rounding.
\<close>

lemma jneg_anti: "jle a b \<Longrightarrow> jle (jneg b) (jneg a)"
  by (cases a; cases b) simp_all

lemma fl_mono_gen: "x \<le> y \<Longrightarrow> jle (fl x) (fl y)"
proof -
  assume xy: "x \<le> y"
  consider "0 \<le> x" | "x < 0" "0 \<le> y" | "x < 0" "y < 0" by linarith
  then show ?thesis
  proof cases
    case 1
    then show ?thesis using xy by (rule fl_mono)
  next
    case 2
    have "jle (Num 0) (fl (- x))" using 2 by (intro fl_nonneg) simp
    then have "jle (jneg (fl (- x))) (jneg (Num 0))" by (rule jneg_anti)
    then have "jle (fl x) (Num 0)" using fl_minus [of "- x"] by simp
    moreover have "jle (Num 0) (fl y)" using 2 by (intro fl_nonneg)
    ultimately show ?thesis by (rule jle_trans)
  next
    case 3
    then have "jle (fl (- y)) (fl (- x))" using xy by (intro fl_mono) simp_all
    then have "jle (jneg (fl (- x))) (jneg (fl (- y)))" by (rule jneg_anti)
    then show ?thesis using fl_minus [of "- x"] fl_minus [of "- y"] by simp
  qed
qed

lemma fl_between_gen:
  assumes "fl l = Num l" "fl u = Num u" "l \<le> x" "x \<le> u"
  shows "\<exists>z. fl x = Num z \<and> l \<le> z \<and> z \<le> u \<and> fl z = Num z"
proof -
  have "jle (Num l) (fl x)" using fl_mono_gen [of l x] assms by simp
  moreover have "jle (fl x) (Num u)" using fl_mono_gen [of x u] assms by simp
  ultimately obtain z where z: "fl x = Num z" "l \<le> z" "z \<le> u"
    by (cases "fl x") simp_all
  from z(1) have "fl z = Num z" by (rule fl_idem)
  with z show ?thesis by blast
qed

lemma fl_grid:
  assumes "x * 2 ^ 30 \<in> \<int>" "\<bar>x * 2 ^ 30\<bar> < 2 ^ 53"
  shows "fl x = Num x"
proof -
  from assms(1) obtain n where n: "x * 2 ^ 30 = of_int n" by (auto elim: Ints_cases)
  then have x: "x = of_int n / 2 ^ 30" by (simp add: field_simps)
  have "\<bar>real_of_int n\<bar> < real_of_int (2 ^ 53)" using assms(2) n by simp
  then have nb: "\<bar>n\<bar> < 2 ^ 53" by (simp only: of_int_abs [symmetric] of_int_less_iff)
  consider "n = 0" | "0 < n" | "n < 0" by linarith
  then show ?thesis
  proof cases
    case 1
    then show ?thesis by (simp add: x fl_def)
  next
    case 2
    with nb have "n < 2 ^ 53" by simp
    with 2 show ?thesis unfolding x by (intro fl_dyadic) simp_all
  next
    case 3
    with nb have "0 < - n" "- n < 2 ^ 53" by simp_all
    then have "fl (of_int (- n) / 2 ^ 30) = Num (of_int (- n) / 2 ^ 30)"
      by (intro fl_dyadic) simp_all
    then have "fl (- x) = Num (- x)" by (simp add: x)
    then show ?thesis using fl_minus [of x] by (cases "fl x") simp_all
  qed
qed

lemma fl_grid4:
  assumes "x * 2 ^ 4 \<in> \<int>" "\<bar>x * 2 ^ 4\<bar> < 2 ^ 53"
  shows "fl x = Num x"
proof -
  from assms(1) obtain n where n: "x * 2 ^ 4 = of_int n" by (auto elim: Ints_cases)
  then have x: "x = of_int n / 2 ^ 4" by (simp add: field_simps)
  have "\<bar>real_of_int n\<bar> < real_of_int (2 ^ 53)" using assms(2) n by simp
  then have nb: "\<bar>n\<bar> < 2 ^ 53" by (simp only: of_int_abs [symmetric] of_int_less_iff)
  consider "n = 0" | "0 < n" | "n < 0" by linarith
  then show ?thesis
  proof cases
    case 1
    then show ?thesis by (simp add: x fl_def)
  next
    case 2
    with nb have "n < 2 ^ 53" by simp
    with 2 show ?thesis unfolding x by (intro fl_dyadic) simp_all
  next
    case 3
    with nb have "0 < - n" "- n < 2 ^ 53" by simp_all
    then have "fl (of_int (- n) / 2 ^ 4) = Num (of_int (- n) / 2 ^ 4)"
      by (intro fl_dyadic) simp_all
    then have "fl (- x) = Num (- x)" by (simp add: x)
    then show ?thesis using fl_minus [of x] by (cases "fl x") simp_all
  qed
qed

lemma fl_whole:
  assumes "x \<in> \<int>" "\<bar>x\<bar> < 2 ^ 53"
  shows "fl x = Num x"
proof -
  from assms(1) obtain n where n: "x = of_int n" by (auto elim: Ints_cases)
  have "\<bar>real_of_int n\<bar> < real_of_int (2 ^ 53)" using assms(2) n by simp
  then have nb: "\<bar>n\<bar> < 2 ^ 53" by (simp only: of_int_abs [symmetric] of_int_less_iff)
  consider "n = 0" | "0 < n" | "n < 0" by linarith
  then show ?thesis
  proof cases
    case 1
    then show ?thesis by (simp add: n fl_def)
  next
    case 2
    with nb have "n < 2 ^ 53" by simp
    with 2 show ?thesis unfolding n by (rule fl_int)
  next
    case 3
    with nb have "0 < - n" "- n < 2 ^ 53" by simp_all
    then have "fl (of_int (- n)) = Num (of_int (- n))" by (rule fl_int)
    then have "fl (- x) = Num (- x)" by (simp add: n)
    then show ?thesis using fl_minus [of x] by (cases "fl x") simp_all
  qed
qed

lemma lit_ex:
  assumes "fl l = Num l" "fl u = Num u" "l \<le> c" "c \<le> u"
  shows "\<exists>z. fl c = Num z \<and> l \<le> z \<and> z \<le> u \<and> fl z = Num z"
  using assms by (rule fl_between_gen)

lemma add_ex:
  assumes "a \<le> x" "x \<le> b" "c \<le> y" "y \<le> d"
      and "fl l = Num l" "fl u = Num u" "l \<le> a + c" "b + d \<le> u"
  shows "\<exists>z. jadd (Num x) (Num y) = Num z \<and> l \<le> z \<and> z \<le> u \<and> fl z = Num z"
  using fl_between_gen [OF assms(5,6), of "x + y"] assms by simp

lemma sub_ex:
  assumes "a \<le> x" "x \<le> b" "c \<le> y" "y \<le> d"
      and "fl l = Num l" "fl u = Num u" "l \<le> a - d" "b - c \<le> u"
  shows "\<exists>z. jadd (Num x) (Num (- y)) = Num z \<and> l \<le> z \<and> z \<le> u \<and> fl z = Num z"
  using fl_between_gen [OF assms(5,6), of "x - y"] assms by simp

lemma mul_ex:
  assumes "a \<le> x" "x \<le> b" "c \<le> y" "y \<le> d" "0 \<le> a" "0 \<le> c"
      and "fl l = Num l" "fl u = Num u" "l \<le> a * c" "b * d \<le> u"
  shows "\<exists>z. jmul (Num x) (Num y) = Num z \<and> l \<le> z \<and> z \<le> u \<and> fl z = Num z"
proof -
  have "a * c \<le> x * y" using assms by (intro mult_mono) simp_all
  moreover have "x * y \<le> b * d" using assms by (intro mult_mono) simp_all
  ultimately show ?thesis
    using fl_between_gen [OF assms(7,8), of "x * y"] assms by simp
qed

lemma div_ex:
  assumes "a \<le> x" "x \<le> b" "c \<le> y" "y \<le> d" "0 \<le> a" "0 < c"
      and "fl l = Num l" "fl u = Num u" "l \<le> a / d" "b / c \<le> u"
  shows "\<exists>z. jdiv (Num x) (Num y) = Num z \<and> l \<le> z \<and> z \<le> u \<and> fl z = Num z"
proof -
  have "a / d \<le> x / y" using assms by (intro frac_le) simp_all
  moreover have "x / y \<le> b / c" using assms by (intro frac_le) simp_all
  ultimately show ?thesis
    using fl_between_gen [OF assms(7,8), of "x / y"] assms by simp
qed

lemma sq_neg_ex:
  assumes "a \<le> x" "x \<le> b" "b \<le> 0"
      and "fl l = Num l" "fl u = Num u" "l \<le> b * b" "a * a \<le> u"
  shows "\<exists>z. Math_pow2 (Num x) = Num z \<and> l \<le> z \<and> z \<le> u \<and> fl z = Num z"
proof -
  have "(- b) * (- b) \<le> (- x) * (- x)" using assms by (intro mult_mono) simp_all
  moreover have "(- x) * (- x) \<le> (- a) * (- a)" using assms by (intro mult_mono) simp_all
  ultimately show ?thesis
    using fl_between_gen [OF assms(4,5), of "x\<^sup>2"] assms by (simp add: power2_eq_square)
qed

lemma sq_pos_ex:
  assumes "a \<le> x" "x \<le> b" "0 \<le> a"
      and "fl l = Num l" "fl u = Num u" "l \<le> a * a" "b * b \<le> u"
  shows "\<exists>z. Math_pow2 (Num x) = Num z \<and> l \<le> z \<and> z \<le> u \<and> fl z = Num z"
proof -
  have "a * a \<le> x * x" using assms by (intro mult_mono) simp_all
  moreover have "x * x \<le> b * b" using assms by (intro mult_mono) simp_all
  ultimately show ?thesis
    using fl_between_gen [OF assms(4,5), of "x\<^sup>2"] assms by (simp add: power2_eq_square)
qed

lemma sqrt_ex:
  assumes "a \<le> x" "x \<le> b" "0 \<le> a" "0 \<le> l" "0 \<le> u"
      and "fl l = Num l" "fl u = Num u" "l * l \<le> a" "b \<le> u * u"
  shows "\<exists>z. jsqrt (Num x) = Num z \<and> l \<le> z \<and> z \<le> u \<and> fl z = Num z"
proof -
  have "l \<le> sqrt x"
    using assms by (intro real_le_rsqrt) (simp add: power2_eq_square)
  moreover have "sqrt x \<le> u"
    using assms by (intro real_le_lsqrt) (simp_all add: power2_eq_square)
  ultimately show ?thesis
    using fl_between_gen [OF assms(6,7), of "sqrt x"] assms by simp
qed

lemma round_ex:
  assumes "a \<le> x" "x \<le> b" "of_int n - 1 / 2 \<le> a" "b < of_int n + 1 / 2"
  shows "Math_round64 (Num x) = Num (of_int n)"
proof -
  have "\<lfloor>x + 1 / 2\<rfloor> = n" using assms by (intro floor_unique) simp_all
  then show ?thesis by simp
qed

text \<open>The literal \<^verbatim>\<open>0.1\<close> is the binary64 number 3602879701896397 / 2^55, that is 0x3FB999999999999A.\<close>

lemma rp_eval:
  assumes "0 < x" "2 powi e \<le> x" "x < 2 powi (e + 1)" "- 1022 \<le> e"
  shows "rp x = of_int (rne (x / 2 powi (e - 52))) * 2 powi (e - 52)"
  using expo_eqI [OF assms(1,2,3)] assms(4) by (simp add: rp_def Let_def)

lemma fl_tenth: "fl (1 / 10) = Num (3602879701896397 / 2 ^ 55)"
proof -
  have "rp (1 / 10) = of_int (rne (1 / 10 / 2 powi (- 4 - 52))) * 2 powi (- 4 - 52)"
    by (rule rp_eval) simp_all
  also have "\<dots> = 3602879701896397 / 2 ^ 55"
    by (simp add: rne_def Let_def power_int_minus)
  finally show ?thesis by (simp add: fl_def flp_def Let_def)
qed

lemma fl_eval:
  assumes "0 < x" "2 powi e \<le> x" "x < 2 powi (e + 1)" "- 1022 \<le> e" "e < 1023"
  shows "fl x = Num (of_int (rne (x / 2 powi (e - 52))) * 2 powi (e - 52))"
proof -
  have ex: "expo x = e" using expo_eqI [OF assms(1,2,3)] assms(4) by simp
  have "rp x \<le> 2 powi (e + 1)" using rp_upper [OF assms(1)] by (simp add: ex)
  also have "(2::real) powi (e + 1) < 2 powi 1024"
    using assms(5) by (intro power_int_strict_increasing) simp_all
  finally have "\<not> 2 powi 1024 \<le> rp x" by simp
  then show ?thesis
    using assms(1) rp_eval [OF assms(1,2,3,4)] by (simp add: fl_def flp_def Let_def)
qed

lemma jle_antisym: "jle a b \<Longrightarrow> jle b a \<Longrightarrow> a = b"
  by (cases a; cases b) simp_all

lemma jmin_right: "jle b a \<Longrightarrow> jmin a b = b"
  using jle_antisym [of a b] jle_not_NaN [of b a] by (auto simp: jmin_def)

lemma fl_85_exact: "fl (85 / 100) = Num (7656119366529843 / 2 ^ 53)"
proof -
  have "fl (85 / 100) = Num (of_int (rne (85 / 100 / 2 powi (- 1 - 52))) * 2 powi (- 1 - 52))"
    by (rule fl_eval) simp_all
  also have "\<dots> = Num (7656119366529843 / 2 ^ 53)"
    by (simp add: rne_def Let_def power_int_minus)
  finally show ?thesis .
qed

subsection \<open>Offers on concrete arrays\<close>

text \<open>Three values left: 1, 5 and 25. The offer is 10, above the ceiling.\<close>

lemma offer64_1_5_25:
  shows "fst (calculateOffer64 newBanker64 (Some [JNumber (Num 1), JNumber (Num 5), JNumber (Num 25)]) 1 (1 / 2)) = Num 10"
    and "maxOffer64 [JNumber (Num 1), JNumber (Num 5), JNumber (Num 25)] [Num 1, Num 5, Num 25] = jmul (calculateExpectedValue64 [Num 1, Num 5, Num 25]) (fl (95 / 100))"
    and "\<not> jle (Num 10) (maxOffer64 [JNumber (Num 1), JNumber (Num 5), JNumber (Num 25)] [Num 1, Num 5, Num 25])"
    and "jlt (Num 0) (cappedOffer64 newBanker64 [JNumber (Num 1), JNumber (Num 5), JNumber (Num 25)] [Num 1, Num 5, Num 25] 1 (1 / 2))"
proof -
  let ?rv = "[JNumber (Num 1), JNumber (Num 5), JNumber (Num 25)]"
  have vs: "validValuesOf64 ?rv = [Num 1, Num 5, Num 25]"
    by (simp add: validValuesOf64_def)
  have e1: "jadd (Num 0) (Num 1) = Num 1"
    by (simp add: fl_grid fl_whole fl_grid4)
  have e2: "jadd (Num 1) (Num 5) = Num 6"
    by (simp add: fl_grid fl_whole fl_grid4)
  have e3: "jadd (Num 6) (Num 25) = Num 31"
    by (simp add: fl_grid fl_whole fl_grid4)
  have "\<exists>z. jdiv (Num 31) (Num 3) = Num z \<and> 11095332181 / 1073741824 \<le> z \<and> z \<le> 5547666091 / 536870912 \<and> fl z = Num z"
    by (rule div_ex [OF order_refl [of "31::real"] order_refl [of "31::real"] order_refl [of "3::real"] order_refl [of "3::real"]]) (simp_all add: fl_grid fl_whole)
  then obtain z4 where z4: "jdiv (Num 31) (Num 3) = Num z4" "11095332181 / 1073741824 \<le> z4" "z4 \<le> 5547666091 / 536870912" "fl z4 = Num z4"
    by blast
  have s_mean: "calculateExpectedValue64 [Num 1, Num 5, Num 25] = Num z4"
    unfolding calculateExpectedValue64_def Let_def
    by (simp add:  e1 e2 e3 z4(1) 
          del: jadd.simps jmul.simps jdiv.simps jsqrt.simps Math_pow2.simps Math_round64.simps)
  have "\<exists>z. fl (9 / 10) = Num z \<and> 966367641 / 1073741824 \<le> z \<and> z \<le> 483183821 / 536870912 \<and> fl z = Num z"
    by (rule lit_ex) (simp_all add: fl_grid fl_whole)
  then obtain c5 where c5: "fl (9 / 10) = Num c5" "966367641 / 1073741824 \<le> c5" "c5 \<le> 483183821 / 536870912" "fl c5 = Num c5"
    by blast
  have s_rm: "getRoundMultiplier64 1 (length [Num 1, Num 5, Num 25]) = Num c5"
    unfolding getRoundMultiplier64_def Let_def s_mean
    by (simp add: fl_grid c5(1) 
          del: jadd.simps jmul.simps jdiv.simps jsqrt.simps Math_pow2.simps Math_round64.simps)
  have e6: "jdiv (Num 0) (Num 3) = Num 0"
    by (simp add: fl_grid fl_whole fl_grid4)
  have e7: "jdiv (Num 3) (Num 3) = Num 1"
    by (simp add: fl_grid fl_whole fl_grid4)
  have "\<exists>z. fl (7 / 10) = Num z \<and> 187904819 / 268435456 \<le> z \<and> z \<le> 751619277 / 1073741824 \<and> fl z = Num z"
    by (rule lit_ex) (simp_all add: fl_grid fl_whole)
  then obtain c8 where c8: "fl (7 / 10) = Num c8" "187904819 / 268435456 \<le> c8" "c8 \<le> 751619277 / 1073741824" "fl c8 = Num c8"
    by blast
  have d9: "\<not> c8 < 0"
    using c8(2,3) by simp
  have "\<exists>z. fl (3 / 5) = Num z \<and> 322122547 / 536870912 \<le> z \<and> z \<le> 644245095 / 1073741824 \<and> fl z = Num z"
    by (rule lit_ex) (simp_all add: fl_grid fl_whole)
  then obtain c10 where c10: "fl (3 / 5) = Num c10" "322122547 / 536870912 \<le> c10" "c10 \<le> 644245095 / 1073741824" "fl c10 = Num c10"
    by blast
  have d11: "c10 < 1"
    using c10(2,3) by simp
  have "\<exists>z. fl (23 / 20) = Num z \<and> 1234803097 / 1073741824 \<le> z \<and> z \<le> 617401549 / 536870912 \<and> fl z = Num z"
    by (rule lit_ex) (simp_all add: fl_grid fl_whole)
  then obtain c12 where c12: "fl (23 / 20) = Num c12" "1234803097 / 1073741824 \<le> c12" "c12 \<le> 617401549 / 536870912" "fl c12 = Num c12"
    by blast
  have e13: "jmul (Num 1) (Num c12) = Num c12"
    using c12(4) by simp
  have s_pm: "getPsychologyMultiplier64 newBanker64 [Num 1, Num 5, Num 25] = Num c12"
    unfolding getPsychologyMultiplier64_def Let_def s_mean s_rm
    using c8(2,3) c10(2,3)
    by (simp add: fl_grid e6 e7 d9 d11 e13 c5(1) c8(1) c10(1) c12(1) newBanker64_def
          del: jadd.simps jmul.simps jdiv.simps jsqrt.simps Math_pow2.simps Math_round64.simps)
  have "\<exists>z. jadd (Num 1) (Num (- z4)) = Num z \<and> - (5010795179 / 536870912) \<le> z \<and> z \<le> - (10021590357 / 1073741824) \<and> fl z = Num z"
    by (rule sub_ex [OF order_refl [of "1::real"] order_refl [of "1::real"] z4(2) z4(3)]) (simp_all add: fl_grid fl_whole)
  then obtain z14 where z14: "jadd (Num 1) (Num (- z4)) = Num z14" "- (5010795179 / 536870912) \<le> z14" "z14 \<le> - (10021590357 / 1073741824)" "fl z14 = Num z14"
    by blast
  have "\<exists>z. Math_pow2 (Num z14) = Num z \<and> 1461481927 / 16777216 \<le> z \<and> z \<le> 23383710837 / 268435456 \<and> fl z = Num z"
    by (rule sq_neg_ex [OF z14(2) z14(3)]) (simp_all add: fl_grid fl_whole)
  then obtain z15 where z15: "Math_pow2 (Num z14) = Num z15" "1461481927 / 16777216 \<le> z15" "z15 \<le> 23383710837 / 268435456" "fl z15 = Num z15"
    by blast
  have e16: "jadd (Num 0) (Num z15) = Num z15"
    using z15(4) by simp
  have "\<exists>z. jadd (Num 5) (Num (- z4)) = Num z \<and> - (2863311531 / 536870912) \<le> z \<and> z \<le> - (5726623061 / 1073741824) \<and> fl z = Num z"
    by (rule sub_ex [OF order_refl [of "5::real"] order_refl [of "5::real"] z4(2) z4(3)]) (simp_all add: fl_grid fl_whole)
  then obtain z17 where z17: "jadd (Num 5) (Num (- z4)) = Num z17" "- (2863311531 / 536870912) \<le> z17" "z17 \<le> - (5726623061 / 1073741824)" "fl z17 = Num z17"
    by blast
  have "\<exists>z. Math_pow2 (Num z17) = Num z \<and> 3817748707 / 134217728 \<le> z \<and> z \<le> 7635497417 / 268435456 \<and> fl z = Num z"
    by (rule sq_neg_ex [OF z17(2) z17(3)]) (simp_all add: fl_grid fl_whole)
  then obtain z18 where z18: "Math_pow2 (Num z17) = Num z18" "3817748707 / 134217728 \<le> z18" "z18 \<le> 7635497417 / 268435456" "fl z18 = Num z18"
    by blast
  have "\<exists>z. jadd (Num z15) (Num z18) = Num z \<and> 15509604123 / 134217728 \<le> z \<and> z \<le> 15509604127 / 134217728 \<and> fl z = Num z"
    by (rule add_ex [OF z15(2) z15(3) z18(2) z18(3)]) (simp_all add: fl_grid fl_whole)
  then obtain z19 where z19: "jadd (Num z15) (Num z18) = Num z19" "15509604123 / 134217728 \<le> z19" "z19 \<le> 15509604127 / 134217728" "fl z19 = Num z19"
    by blast
  have "\<exists>z. jadd (Num 25) (Num (- z4)) = Num z \<and> 7874106709 / 536870912 \<le> z \<and> z \<le> 15748213419 / 1073741824 \<and> fl z = Num z"
    by (rule sub_ex [OF order_refl [of "25::real"] order_refl [of "25::real"] z4(2) z4(3)]) (simp_all add: fl_grid fl_whole)
  then obtain z20 where z20: "jadd (Num 25) (Num (- z4)) = Num z20" "7874106709 / 536870912 \<le> z20" "z20 \<le> 15748213419 / 1073741824" "fl z20 = Num z20"
    by blast
  have "\<exists>z. Math_pow2 (Num z20) = Num z \<and> 230973796787 / 1073741824 \<le> z \<and> z \<le> 230973796817 / 1073741824 \<and> fl z = Num z"
    by (rule sq_pos_ex [OF z20(2) z20(3)]) (simp_all add: fl_grid fl_whole)
  then obtain z21 where z21: "Math_pow2 (Num z20) = Num z21" "230973796787 / 1073741824 \<le> z21" "z21 \<le> 230973796817 / 1073741824" "fl z21 = Num z21"
    by blast
  have "\<exists>z. jadd (Num z19) (Num z21) = Num z \<and> 355050629771 / 1073741824 \<le> z \<and> z \<le> 355050629833 / 1073741824 \<and> fl z = Num z"
    by (rule add_ex [OF z19(2) z19(3) z21(2) z21(3)]) (simp_all add: fl_grid fl_whole)
  then obtain z22 where z22: "jadd (Num z19) (Num z21) = Num z22" "355050629771 / 1073741824 \<le> z22" "z22 \<le> 355050629833 / 1073741824" "fl z22 = Num z22"
    by blast
  have "\<exists>z. jdiv (Num z22) (Num 3) = Num z \<and> 118350209923 / 1073741824 \<le> z \<and> z \<le> 118350209945 / 1073741824 \<and> fl z = Num z"
    by (rule div_ex [OF z22(2) z22(3) order_refl [of "3::real"] order_refl [of "3::real"]]) (simp_all add: fl_grid fl_whole)
  then obtain z23 where z23: "jdiv (Num z22) (Num 3) = Num z23" "118350209923 / 1073741824 \<le> z23" "z23 \<le> 118350209945 / 1073741824" "fl z23 = Num z23"
    by blast
  have "\<exists>z. jsqrt (Num z23) = Num z \<and> 352277149 / 33554432 \<le> z \<and> z \<le> 5636434385 / 536870912 \<and> fl z = Num z"
    by (rule sqrt_ex [OF z23(2) z23(3)]) (simp_all add: fl_grid fl_whole)
  then obtain z24 where z24: "jsqrt (Num z23) = Num z24" "352277149 / 33554432 \<le> z24" "z24 \<le> 5636434385 / 536870912" "fl z24 = Num z24"
    by blast
  have "\<exists>z. jdiv (Num z24) (Num z4) = Num z \<and> 1090922783 / 1073741824 \<le> z \<and> z \<le> 1090922785 / 1073741824 \<and> fl z = Num z"
    by (rule div_ex [OF z24(2) z24(3) z4(2) z4(3)]) (simp_all add: fl_grid fl_whole)
  then obtain z25 where z25: "jdiv (Num z24) (Num z4) = Num z25" "1090922783 / 1073741824 \<le> z25" "z25 \<le> 1090922785 / 1073741824" "fl z25 = Num z25"
    by blast
  have d26: "\<not> 2 < z25"
    using z25(2,3) by simp
  have d27: "\<not> (3 / 2) < z25"
    using z25(2,3) by simp
  have d28: "1 < z25"
    using z25(2,3) by simp
  have "\<exists>z. fl (19 / 20) = Num z \<and> 255013683 / 268435456 \<le> z \<and> z \<le> 1020054733 / 1073741824 \<and> fl z = Num z"
    by (rule lit_ex) (simp_all add: fl_grid fl_whole)
  then obtain c29 where c29: "fl (19 / 20) = Num c29" "255013683 / 268435456 \<le> c29" "c29 \<le> 1020054733 / 1073741824" "fl c29 = Num c29"
    by blast
  have s_risk: "getRiskMultiplier64 [Num 1, Num 5, Num 25] = Num c29"
    unfolding getRiskMultiplier64_def jsub_def Let_def s_mean s_rm s_pm
    using z25(2,3)
    by (simp add: fl_grid z14(1) z15(1) e16 z17(1) z18(1) z19(1) z20(1) z21(1) z22(1) z23(1) z24(1) z25(1) d26 d27 d28 c5(1) c8(1) c10(1) c12(1) c29(1) 
          del: jadd.simps jmul.simps jdiv.simps jsqrt.simps Math_pow2.simps Math_round64.simps)
  have "\<exists>z. jmul (Num z4) (Num c5) = Num z \<and> 2496449739 / 268435456 \<le> z \<and> z \<le> 1248224871 / 134217728 \<and> fl z = Num z"
    by (rule mul_ex [OF z4(2) z4(3) c5(2) c5(3)]) (simp_all add: fl_grid fl_whole)
  then obtain z30 where z30: "jmul (Num z4) (Num c5) = Num z30" "2496449739 / 268435456 \<le> z30" "z30 \<le> 1248224871 / 134217728" "fl z30 = Num z30"
    by blast
  have "\<exists>z. jmul (Num z30) (Num c12) = Num z \<and> 11483668793 / 1073741824 \<le> z \<and> z \<le> 11483668817 / 1073741824 \<and> fl z = Num z"
    by (rule mul_ex [OF z30(2) z30(3) c12(2) c12(3)]) (simp_all add: fl_grid fl_whole)
  then obtain z31 where z31: "jmul (Num z30) (Num c12) = Num z31" "11483668793 / 1073741824 \<le> z31" "z31 \<le> 11483668817 / 1073741824" "fl z31 = Num z31"
    by blast
  have "\<exists>z. jmul (Num z31) (Num c29) = Num z \<and> 340921417 / 33554432 \<le> z \<and> z \<le> 10909485379 / 1073741824 \<and> fl z = Num z"
    by (rule mul_ex [OF z31(2) z31(3) c29(2) c29(3)]) (simp_all add: fl_grid fl_whole)
  then obtain z32 where z32: "jmul (Num z31) (Num c29) = Num z32" "340921417 / 33554432 \<le> z32" "z32 \<le> 10909485379 / 1073741824" "fl z32 = Num z32"
    by blast
  have "\<exists>z. fl (17 / 20) = Num z \<and> 456340275 / 536870912 \<le> z \<and> z \<le> 912680551 / 1073741824 \<and> fl z = Num z"
    by (rule lit_ex) (simp_all add: fl_grid fl_whole)
  then obtain c33 where c33: "fl (17 / 20) = Num c33" "456340275 / 536870912 \<le> c33" "c33 \<le> 912680551 / 1073741824" "fl c33 = Num c33"
    by blast
  have "\<exists>z. jmul (Num z4) (Num c33) = Num z \<and> 9431032349 / 1073741824 \<le> z \<and> z \<le> 9431032361 / 1073741824 \<and> fl z = Num z"
    by (rule mul_ex [OF z4(2) z4(3) c33(2) c33(3)]) (simp_all add: fl_grid fl_whole)
  then obtain z34 where z34: "jmul (Num z4) (Num c33) = Num z34" "9431032349 / 1073741824 \<le> z34" "z34 \<le> 9431032361 / 1073741824" "fl z34 = Num z34"
    by blast
  have d35: "\<not> z32 \<le> z34"
    using z32(2,3) z34(2,3) by simp
  have e36: "jmax (Num z32) (Num z34) = Num z32"
    using z32(2,3) z34(2,3) by (simp add: jmax_def)
  have s_floored: "flooredOffer64 newBanker64 [Num 1, Num 5, Num 25] 1 = Num z32"
    unfolding flooredOffer64_def Let_def s_mean s_rm s_pm s_risk
    using z32(2,3) z34(2,3)
    by (simp add:  z30(1) z31(1) z32(1) z34(1) d35 e36 c5(1) c8(1) c10(1) c12(1) c29(1) c33(1) 
          del: jadd.simps jmul.simps jdiv.simps jsqrt.simps Math_pow2.simps Math_round64.simps)
  have "\<exists>z. fl (1 / 10) = Num z \<and> 53687091 / 536870912 \<le> z \<and> z \<le> 107374183 / 1073741824 \<and> fl z = Num z"
    by (rule lit_ex) (simp_all add: fl_grid fl_whole)
  then obtain c37 where c37: "fl (1 / 10) = Num c37" "53687091 / 536870912 \<le> c37" "c37 \<le> 107374183 / 1073741824" "fl c37 = Num c37"
    by blast
  have "\<exists>z. jmul (Num (1 / 2)) (Num c37) = Num z \<and> 53687091 / 1073741824 \<le> z \<and> z \<le> 13421773 / 268435456 \<and> fl z = Num z"
    by (rule mul_ex [OF order_refl [of "(1 / 2)::real"] order_refl [of "(1 / 2)::real"] c37(2) c37(3)]) (simp_all add: fl_grid fl_whole)
  then obtain z38 where z38: "jmul (Num (1 / 2)) (Num c37) = Num z38" "53687091 / 1073741824 \<le> z38" "z38 \<le> 13421773 / 268435456" "fl z38 = Num z38"
    by blast
  have "\<exists>z. jadd (Num c29) (Num z38) = Num z \<and> 1073741823 / 1073741824 \<le> z \<and> z \<le> 1073741825 / 1073741824 \<and> fl z = Num z"
    by (rule add_ex [OF c29(2) c29(3) z38(2) z38(3)]) (simp_all add: fl_grid fl_whole)
  then obtain z39 where z39: "jadd (Num c29) (Num z38) = Num z39" "1073741823 / 1073741824 \<le> z39" "z39 \<le> 1073741825 / 1073741824" "fl z39 = Num z39"
    by blast
  have s_rf: "randomFactor64 (1 / 2) = Num z39"
    unfolding randomFactor64_def Let_def s_mean s_rm s_pm s_risk s_floored
    by (simp add:  z38(1) z39(1) c5(1) c8(1) c10(1) c12(1) c29(1) c33(1) c37(1) 
          del: jadd.simps jmul.simps jdiv.simps jsqrt.simps Math_pow2.simps Math_round64.simps)
  have "\<exists>z. jmul (Num z32) (Num z39) = Num z \<and> 10909485333 / 1073741824 \<le> z \<and> z \<le> 5454742695 / 536870912 \<and> fl z = Num z"
    by (rule mul_ex [OF z32(2) z32(3) z39(2) z39(3)]) (simp_all add: fl_grid fl_whole)
  then obtain z40 where z40: "jmul (Num z32) (Num z39) = Num z40" "10909485333 / 1073741824 \<le> z40" "z40 \<le> 5454742695 / 536870912" "fl z40 = Num z40"
    by blast
  have d41: "z40 < 100"
    using z40(2,3) by simp
  have "\<exists>z. jdiv (Num z40) (Num 5) = Num z \<and> 1090948533 / 536870912 \<le> z \<and> z \<le> 1090948539 / 536870912 \<and> fl z = Num z"
    by (rule div_ex [OF z40(2) z40(3) order_refl [of "5::real"] order_refl [of "5::real"]]) (simp_all add: fl_grid fl_whole)
  then obtain z42 where z42: "jdiv (Num z40) (Num 5) = Num z42" "1090948533 / 536870912 \<le> z42" "z42 \<le> 1090948539 / 536870912" "fl z42 = Num z42"
    by blast
  have e43: "Math_round64 (Num z42) = Num 2"
    using round_ex [OF z42(2) z42(3), where n = 2] by simp
  have e44: "jmul (Num 2) (Num 5) = Num 10"
    by (simp add: fl_grid fl_whole fl_grid4)
  have s_rounded: "roundedOffer64 newBanker64 [Num 1, Num 5, Num 25] 1 (1 / 2) = Num 10"
    unfolding roundedOffer64_def roundOffer64_def Let_def s_mean s_rm s_pm s_risk s_floored s_rf
    using z40(2,3)
    by (simp add:  z40(1) d41 z42(1) e43 e44 c5(1) c8(1) c10(1) c12(1) c29(1) c33(1) c37(1) 
          del: jadd.simps jmul.simps jdiv.simps jsqrt.simps Math_pow2.simps Math_round64.simps)
  have s_prog: "progressedOffer64 newBanker64 [Num 1, Num 5, Num 25] 1 (1 / 2) = Num 10"
    unfolding progressedOffer64_def Let_def s_mean s_rm s_pm s_risk s_floored s_rf s_rounded
    by (simp add:  c5(1) c8(1) c10(1) c12(1) c29(1) c33(1) c37(1) newBanker64_def
          del: jadd.simps jmul.simps jdiv.simps jsqrt.simps Math_pow2.simps Math_round64.simps)
  have "\<exists>z. jmul (Num z4) (Num c29) = Num z \<and> 10540565563 / 1073741824 \<le> z \<and> z \<le> 10540565575 / 1073741824 \<and> fl z = Num z"
    by (rule mul_ex [OF z4(2) z4(3) c29(2) c29(3)]) (simp_all add: fl_grid fl_whole)
  then obtain z45 where z45: "jmul (Num z4) (Num c29) = Num z45" "10540565563 / 1073741824 \<le> z45" "z45 \<le> 10540565575 / 1073741824" "fl z45 = Num z45"
    by blast
  have s_cap: "maxOffer64 ?rv [Num 1, Num 5, Num 25] = Num z45"
    unfolding maxOffer64_def Let_def s_mean s_rm s_pm s_risk s_floored s_rf s_rounded s_prog
    by (simp add:  z45(1) c5(1) c8(1) c10(1) c12(1) c29(1) c33(1) c37(1) 
          del: jadd.simps jmul.simps jdiv.simps jsqrt.simps Math_pow2.simps Math_round64.simps)
  have d46: "\<not> 10 \<le> z45"
    using z45(2,3) by simp
  have e47: "jmin (Num 10) (Num z45) = Num z45"
    using z45(2,3) by (simp add: jmin_def)
  have s_capped: "cappedOffer64 newBanker64 ?rv [Num 1, Num 5, Num 25] 1 (1 / 2) = Num z45"
    unfolding cappedOffer64_def Let_def s_mean s_rm s_pm s_risk s_floored s_rf s_rounded s_prog s_cap
    using z45(2,3)
    by (simp add:  d46 e47 c5(1) c8(1) c10(1) c12(1) c29(1) c33(1) c37(1) 
          del: jadd.simps jmul.simps jdiv.simps jsqrt.simps Math_pow2.simps Math_round64.simps)
  have d48: "\<not> z45 \<le> 0"
    using z45(2,3) by simp
  have s_safe: "safeOffer64 newBanker64 ?rv [Num 1, Num 5, Num 25] 1 (1 / 2) = Num z45"
    unfolding safeOffer64_def Let_def s_mean s_rm s_pm s_risk s_floored s_rf s_rounded s_prog s_cap s_capped
    using z45(2,3)
    by (simp add:  d48 c5(1) c8(1) c10(1) c12(1) c29(1) c33(1) c37(1) 
          del: jadd.simps jmul.simps jdiv.simps jsqrt.simps Math_pow2.simps Math_round64.simps)
  have e49: "Math_round64 (Num z45) = Num 10"
    using round_ex [OF z45(2) z45(3), where n = 10] by simp
  have s_ret: "Math_round64 (safeOffer64 newBanker64 ?rv [Num 1, Num 5, Num 25] 1 (1 / 2)) = Num 10"
    unfolding Let_def s_mean s_rm s_pm s_risk s_floored s_rf s_rounded s_prog s_cap s_capped s_safe
    by (simp add:  e49 c5(1) c8(1) c10(1) c12(1) c29(1) c33(1) c37(1) 
          del: jadd.simps jmul.simps jdiv.simps jsqrt.simps Math_pow2.simps Math_round64.simps)
  show "fst (calculateOffer64 newBanker64 (Some [JNumber (Num 1), JNumber (Num 5), JNumber (Num 25)]) 1 (1 / 2)) = Num 10"
    by (simp add: calculateOffer64_def vs Let_def s_ret del: Math_round64.simps)
  show "maxOffer64 [JNumber (Num 1), JNumber (Num 5), JNumber (Num 25)] [Num 1, Num 5, Num 25] = jmul (calculateExpectedValue64 [Num 1, Num 5, Num 25]) (fl (95 / 100))"
    by (simp add: maxOffer64_def)
  show "\<not> jle (Num 10) (maxOffer64 [JNumber (Num 1), JNumber (Num 5), JNumber (Num 25)] [Num 1, Num 5, Num 25])"
    using d46 by (simp add: s_cap)
  show "jlt (Num 0) (cappedOffer64 newBanker64 [JNumber (Num 1), JNumber (Num 5), JNumber (Num 25)] [Num 1, Num 5, Num 25] 1 (1 / 2))"
    using z45(2) by (simp add: s_capped)
qed

text \<open>Three values left: 1000, 5000 and 50000, with the random draw 0. The offer is 15000,
  below 0.85 times the mean.\<close>

lemma offer64_3k:
  shows "fst (calculateOffer64 newBanker64 (Some [JNumber (Num 1000), JNumber (Num 5000), JNumber (Num 50000)]) 1 0) = Num 15000"
    and "\<not> jle (jmul (calculateExpectedValue64 [Num 1000, Num 5000, Num 50000]) (fl (85 / 100))) (Num 15000)"
proof -
  let ?rv = "[JNumber (Num 1000), JNumber (Num 5000), JNumber (Num 50000)]"
  have vs: "validValuesOf64 ?rv = [Num 1000, Num 5000, Num 50000]"
    by (simp add: validValuesOf64_def)
  have e1: "jadd (Num 0) (Num 1000) = Num 1000"
    by (simp add: fl_grid fl_whole fl_grid4)
  have e2: "jadd (Num 1000) (Num 5000) = Num 6000"
    by (simp add: fl_grid fl_whole fl_grid4)
  have e3: "jadd (Num 6000) (Num 50000) = Num 56000"
    by (simp add: fl_grid fl_whole fl_grid4)
  have "\<exists>z. jdiv (Num 56000) (Num 3) = Num z \<and> 10021590357333 / 536870912 \<le> z \<and> z \<le> 20043180714667 / 1073741824 \<and> fl z = Num z"
    by (rule div_ex [OF order_refl [of "56000::real"] order_refl [of "56000::real"] order_refl [of "3::real"] order_refl [of "3::real"]]) (simp_all add: fl_grid fl_whole)
  then obtain z4 where z4: "jdiv (Num 56000) (Num 3) = Num z4" "10021590357333 / 536870912 \<le> z4" "z4 \<le> 20043180714667 / 1073741824" "fl z4 = Num z4"
    by blast
  have s_mean: "calculateExpectedValue64 [Num 1000, Num 5000, Num 50000] = Num z4"
    unfolding calculateExpectedValue64_def Let_def
    by (simp add:  e1 e2 e3 z4(1) 
          del: jadd.simps jmul.simps jdiv.simps jsqrt.simps Math_pow2.simps Math_round64.simps)
  have "\<exists>z. fl (9 / 10) = Num z \<and> 966367641 / 1073741824 \<le> z \<and> z \<le> 483183821 / 536870912 \<and> fl z = Num z"
    by (rule lit_ex) (simp_all add: fl_grid fl_whole)
  then obtain c5 where c5: "fl (9 / 10) = Num c5" "966367641 / 1073741824 \<le> c5" "c5 \<le> 483183821 / 536870912" "fl c5 = Num c5"
    by blast
  have s_rm: "getRoundMultiplier64 1 (length [Num 1000, Num 5000, Num 50000]) = Num c5"
    unfolding getRoundMultiplier64_def Let_def s_mean
    by (simp add: fl_grid c5(1) 
          del: jadd.simps jmul.simps jdiv.simps jsqrt.simps Math_pow2.simps Math_round64.simps)
  have e6: "jdiv (Num 0) (Num 3) = Num 0"
    by (simp add: fl_grid fl_whole fl_grid4)
  have "\<exists>z. fl (7 / 10) = Num z \<and> 187904819 / 268435456 \<le> z \<and> z \<le> 751619277 / 1073741824 \<and> fl z = Num z"
    by (rule lit_ex) (simp_all add: fl_grid fl_whole)
  then obtain c7 where c7: "fl (7 / 10) = Num c7" "187904819 / 268435456 \<le> c7" "c7 \<le> 751619277 / 1073741824" "fl c7 = Num c7"
    by blast
  have d8: "\<not> c7 < 0"
    using c7(2,3) by simp
  have "\<exists>z. fl (3 / 5) = Num z \<and> 322122547 / 536870912 \<le> z \<and> z \<le> 644245095 / 1073741824 \<and> fl z = Num z"
    by (rule lit_ex) (simp_all add: fl_grid fl_whole)
  then obtain c9 where c9: "fl (3 / 5) = Num c9" "322122547 / 536870912 \<le> c9" "c9 \<le> 644245095 / 1073741824" "fl c9 = Num c9"
    by blast
  have d10: "\<not> c9 < 0"
    using c9(2,3) by simp
  have s_pm: "getPsychologyMultiplier64 newBanker64 [Num 1000, Num 5000, Num 50000] = Num 1"
    unfolding getPsychologyMultiplier64_def Let_def s_mean s_rm
    using c7(2,3) c9(2,3)
    by (simp add: fl_grid e6 d8 d10 c5(1) c7(1) c9(1) newBanker64_def
          del: jadd.simps jmul.simps jdiv.simps jsqrt.simps Math_pow2.simps Math_round64.simps)
  have "\<exists>z. jadd (Num 1000) (Num (- z4)) = Num z \<and> - (18969438890667 / 1073741824) \<le> z \<and> z \<le> - (9484719445333 / 536870912) \<and> fl z = Num z"
    by (rule sub_ex [OF order_refl [of "1000::real"] order_refl [of "1000::real"] z4(2) z4(3)]) (simp_all add: fl_grid fl_whole)
  then obtain z11 where z11: "jadd (Num 1000) (Num (- z4)) = Num z11" "- (18969438890667 / 1073741824) \<le> z11" "z11 \<le> - (9484719445333 / 536870912)" "fl z11 = Num z11"
    by blast
  have "\<exists>z. Math_pow2 (Num z11) = Num z \<and> 312111111 \<le> z \<and> z \<le> 312111112 \<and> fl z = Num z"
    by (rule sq_neg_ex [OF z11(2) z11(3)]) (simp_all add: fl_grid fl_whole)
  then obtain z12 where z12: "Math_pow2 (Num z11) = Num z12" "312111111 \<le> z12" "z12 \<le> 312111112" "fl z12 = Num z12"
    by blast
  have e13: "jadd (Num 0) (Num z12) = Num z12"
    using z12(4) by simp
  have "\<exists>z. jadd (Num 5000) (Num (- z4)) = Num z \<and> - (14674471594667 / 1073741824) \<le> z \<and> z \<le> - (7337235797333 / 536870912) \<and> fl z = Num z"
    by (rule sub_ex [OF order_refl [of "5000::real"] order_refl [of "5000::real"] z4(2) z4(3)]) (simp_all add: fl_grid fl_whole)
  then obtain z14 where z14: "jadd (Num 5000) (Num (- z4)) = Num z14" "- (14674471594667 / 1073741824) \<le> z14" "z14 \<le> - (7337235797333 / 536870912)" "fl z14 = Num z14"
    by blast
  have "\<exists>z. Math_pow2 (Num z14) = Num z \<and> 186777777 \<le> z \<and> z \<le> 186777778 \<and> fl z = Num z"
    by (rule sq_neg_ex [OF z14(2) z14(3)]) (simp_all add: fl_grid fl_whole)
  then obtain z15 where z15: "Math_pow2 (Num z14) = Num z15" "186777777 \<le> z15" "z15 \<le> 186777778" "fl z15 = Num z15"
    by blast
  have "\<exists>z. jadd (Num z12) (Num z15) = Num z \<and> 498888888 \<le> z \<and> z \<le> 498888890 \<and> fl z = Num z"
    by (rule add_ex [OF z12(2) z12(3) z15(2) z15(3)]) (simp_all add: fl_grid fl_whole)
  then obtain z16 where z16: "jadd (Num z12) (Num z15) = Num z16" "498888888 \<le> z16" "z16 \<le> 498888890" "fl z16 = Num z16"
    by blast
  have "\<exists>z. jadd (Num 50000) (Num (- z4)) = Num z \<and> 33643910485333 / 1073741824 \<le> z \<and> z \<le> 16821955242667 / 536870912 \<and> fl z = Num z"
    by (rule sub_ex [OF order_refl [of "50000::real"] order_refl [of "50000::real"] z4(2) z4(3)]) (simp_all add: fl_grid fl_whole)
  then obtain z17 where z17: "jadd (Num 50000) (Num (- z4)) = Num z17" "33643910485333 / 1073741824 \<le> z17" "z17 \<le> 16821955242667 / 536870912" "fl z17 = Num z17"
    by blast
  have "\<exists>z. Math_pow2 (Num z17) = Num z \<and> 981777777 \<le> z \<and> z \<le> 981777778 \<and> fl z = Num z"
    by (rule sq_pos_ex [OF z17(2) z17(3)]) (simp_all add: fl_grid fl_whole)
  then obtain z18 where z18: "Math_pow2 (Num z17) = Num z18" "981777777 \<le> z18" "z18 \<le> 981777778" "fl z18 = Num z18"
    by blast
  have "\<exists>z. jadd (Num z16) (Num z18) = Num z \<and> 1480666665 \<le> z \<and> z \<le> 1480666668 \<and> fl z = Num z"
    by (rule add_ex [OF z16(2) z16(3) z18(2) z18(3)]) (simp_all add: fl_grid fl_whole)
  then obtain z19 where z19: "jadd (Num z16) (Num z18) = Num z19" "1480666665 \<le> z19" "z19 \<le> 1480666668" "fl z19 = Num z19"
    by blast
  have "\<exists>z. jdiv (Num z19) (Num 3) = Num z \<and> 493555555 \<le> z \<and> z \<le> 493555556 \<and> fl z = Num z"
    by (rule div_ex [OF z19(2) z19(3) order_refl [of "3::real"] order_refl [of "3::real"]]) (simp_all add: fl_grid fl_whole)
  then obtain z20 where z20: "jdiv (Num z19) (Num 3) = Num z20" "493555555 \<le> z20" "z20 \<le> 493555556" "fl z20 = Num z20"
    by blast
  have "\<exists>z. jsqrt (Num z20) = Num z \<and> 5963591687679 / 268435456 \<le> z \<and> z \<le> 11927183387441 / 536870912 \<and> fl z = Num z"
    by (rule sqrt_ex [OF z20(2) z20(3)]) (simp_all add: fl_grid fl_whole)
  then obtain z21 where z21: "jsqrt (Num z20) = Num z21" "5963591687679 / 268435456 \<le> z21" "z21 \<le> 11927183387441 / 536870912" "fl z21 = Num z21"
    by blast
  have "\<exists>z. jdiv (Num z21) (Num z4) = Num z \<and> 159739063 / 134217728 \<le> z \<and> z \<le> 638956253 / 536870912 \<and> fl z = Num z"
    by (rule div_ex [OF z21(2) z21(3) z4(2) z4(3)]) (simp_all add: fl_grid fl_whole)
  then obtain z22 where z22: "jdiv (Num z21) (Num z4) = Num z22" "159739063 / 134217728 \<le> z22" "z22 \<le> 638956253 / 536870912" "fl z22 = Num z22"
    by blast
  have d23: "\<not> 2 < z22"
    using z22(2,3) by simp
  have d24: "\<not> (3 / 2) < z22"
    using z22(2,3) by simp
  have d25: "1 < z22"
    using z22(2,3) by simp
  have "\<exists>z. fl (19 / 20) = Num z \<and> 255013683 / 268435456 \<le> z \<and> z \<le> 1020054733 / 1073741824 \<and> fl z = Num z"
    by (rule lit_ex) (simp_all add: fl_grid fl_whole)
  then obtain c26 where c26: "fl (19 / 20) = Num c26" "255013683 / 268435456 \<le> c26" "c26 \<le> 1020054733 / 1073741824" "fl c26 = Num c26"
    by blast
  have s_risk: "getRiskMultiplier64 [Num 1000, Num 5000, Num 50000] = Num c26"
    unfolding getRiskMultiplier64_def jsub_def Let_def s_mean s_rm s_pm
    using z22(2,3)
    by (simp add: fl_grid z11(1) z12(1) e13 z14(1) z15(1) z16(1) z17(1) z18(1) z19(1) z20(1) z21(1) z22(1) d23 d24 d25 c5(1) c7(1) c9(1) c26(1) 
          del: jadd.simps jmul.simps jdiv.simps jsqrt.simps Math_pow2.simps Math_round64.simps)
  have "\<exists>z. jmul (Num z4) (Num c5) = Num z \<and> 18038862631999 / 1073741824 \<le> z \<and> z \<le> 18038862650667 / 1073741824 \<and> fl z = Num z"
    by (rule mul_ex [OF z4(2) z4(3) c5(2) c5(3)]) (simp_all add: fl_grid fl_whole)
  then obtain z27 where z27: "jmul (Num z4) (Num c5) = Num z27" "18038862631999 / 1073741824 \<le> z27" "z27 \<le> 18038862650667 / 1073741824" "fl z27 = Num z27"
    by blast
  have e28: "jmul (Num z27) (Num 1) = Num z27"
    using z27(4) by simp
  have "\<exists>z. jmul (Num z27) (Num c26) = Num z \<and> 17136919486959 / 1073741824 \<le> z \<and> z \<le> 8568459760747 / 536870912 \<and> fl z = Num z"
    by (rule mul_ex [OF z27(2) z27(3) c26(2) c26(3)]) (simp_all add: fl_grid fl_whole)
  then obtain z29 where z29: "jmul (Num z27) (Num c26) = Num z29" "17136919486959 / 1073741824 \<le> z29" "z29 \<le> 8568459760747 / 536870912" "fl z29 = Num z29"
    by blast
  have "\<exists>z. fl (17 / 20) = Num z \<and> 456340275 / 536870912 \<le> z \<and> z \<le> 912680551 / 1073741824 \<and> fl z = Num z"
    by (rule lit_ex) (simp_all add: fl_grid fl_whole)
  then obtain c30 where c30: "fl (17 / 20) = Num c30" "456340275 / 536870912 \<le> c30" "c30 \<le> 912680551 / 1073741824" "fl c30 = Num c30"
    by blast
  have "\<exists>z. jmul (Num z4) (Num c30) = Num z \<and> 17036703599999 / 1073741824 \<le> z \<and> z \<le> 17036703618667 / 1073741824 \<and> fl z = Num z"
    by (rule mul_ex [OF z4(2) z4(3) c30(2) c30(3)]) (simp_all add: fl_grid fl_whole)
  then obtain z31 where z31: "jmul (Num z4) (Num c30) = Num z31" "17036703599999 / 1073741824 \<le> z31" "z31 \<le> 17036703618667 / 1073741824" "fl z31 = Num z31"
    by blast
  have d32: "\<not> z29 \<le> z31"
    using z29(2,3) z31(2,3) by simp
  have e33: "jmax (Num z29) (Num z31) = Num z29"
    using z29(2,3) z31(2,3) by (simp add: jmax_def)
  have s_floored: "flooredOffer64 newBanker64 [Num 1000, Num 5000, Num 50000] 1 = Num z29"
    unfolding flooredOffer64_def Let_def s_mean s_rm s_pm s_risk
    using z29(2,3) z31(2,3)
    by (simp add:  z27(1) e28 z29(1) z31(1) d32 e33 c5(1) c7(1) c9(1) c26(1) c30(1) 
          del: jadd.simps jmul.simps jdiv.simps jsqrt.simps Math_pow2.simps Math_round64.simps)
  have "\<exists>z. fl (1 / 10) = Num z \<and> 53687091 / 536870912 \<le> z \<and> z \<le> 107374183 / 1073741824 \<and> fl z = Num z"
    by (rule lit_ex) (simp_all add: fl_grid fl_whole)
  then obtain c34 where c34: "fl (1 / 10) = Num c34" "53687091 / 536870912 \<le> c34" "c34 \<le> 107374183 / 1073741824" "fl c34 = Num c34"
    by blast
  have e35: "jmul (Num 0) (Num c34) = Num 0"
    by (simp add: fl_0)
  have e36: "jadd (Num c26) (Num 0) = Num c26"
    using c26(4) by simp
  have s_rf: "randomFactor64 (0) = Num c26"
    unfolding randomFactor64_def Let_def s_mean s_rm s_pm s_risk s_floored
    by (simp add:  e35 e36 c5(1) c7(1) c9(1) c26(1) c30(1) c34(1) 
          del: jadd.simps jmul.simps jdiv.simps jsqrt.simps Math_pow2.simps Math_round64.simps)
  have "\<exists>z. jmul (Num z29) (Num c26) = Num z \<and> 16280073499843 / 1073741824 \<le> z \<and> z \<le> 4070018387153 / 268435456 \<and> fl z = Num z"
    by (rule mul_ex [OF z29(2) z29(3) c26(2) c26(3)]) (simp_all add: fl_grid fl_whole)
  then obtain z37 where z37: "jmul (Num z29) (Num c26) = Num z37" "16280073499843 / 1073741824 \<le> z37" "z37 \<le> 4070018387153 / 268435456" "fl z37 = Num z37"
    by blast
  have d38: "\<not> z37 < 100"
    using z37(2,3) by simp
  have d39: "\<not> z37 < 1000"
    using z37(2,3) by simp
  have d40: "\<not> z37 < 10000"
    using z37(2,3) by simp
  have d41: "z37 < 100000"
    using z37(2,3) by simp
  have "\<exists>z. jdiv (Num z37) (Num 500) = Num z \<and> 32560146999 / 1073741824 \<le> z \<and> z \<le> 16280073549 / 536870912 \<and> fl z = Num z"
    by (rule div_ex [OF z37(2) z37(3) order_refl [of "500::real"] order_refl [of "500::real"]]) (simp_all add: fl_grid fl_whole)
  then obtain z42 where z42: "jdiv (Num z37) (Num 500) = Num z42" "32560146999 / 1073741824 \<le> z42" "z42 \<le> 16280073549 / 536870912" "fl z42 = Num z42"
    by blast
  have e43: "Math_round64 (Num z42) = Num 30"
    using round_ex [OF z42(2) z42(3), where n = 30] by simp
  have e44: "jmul (Num 30) (Num 500) = Num 15000"
    by (simp add: fl_grid fl_whole fl_grid4)
  have s_rounded: "roundedOffer64 newBanker64 [Num 1000, Num 5000, Num 50000] 1 (0) = Num 15000"
    unfolding roundedOffer64_def roundOffer64_def Let_def s_mean s_rm s_pm s_risk s_floored s_rf
    using z37(2,3)
    by (simp add:  z37(1) d38 d39 d40 d41 z42(1) e43 e44 c5(1) c7(1) c9(1) c26(1) c30(1) c34(1) 
          del: jadd.simps jmul.simps jdiv.simps jsqrt.simps Math_pow2.simps Math_round64.simps)
  have s_prog: "progressedOffer64 newBanker64 [Num 1000, Num 5000, Num 50000] 1 (0) = Num 15000"
    unfolding progressedOffer64_def Let_def s_mean s_rm s_pm s_risk s_floored s_rf s_rounded
    by (simp add:  c5(1) c7(1) c9(1) c26(1) c30(1) c34(1) newBanker64_def
          del: jadd.simps jmul.simps jdiv.simps jsqrt.simps Math_pow2.simps Math_round64.simps)
  have "\<exists>z. jmul (Num z4) (Num c26) = Num z \<and> 19041021663999 / 1073741824 \<le> z \<and> z \<le> 19041021682667 / 1073741824 \<and> fl z = Num z"
    by (rule mul_ex [OF z4(2) z4(3) c26(2) c26(3)]) (simp_all add: fl_grid fl_whole)
  then obtain z45 where z45: "jmul (Num z4) (Num c26) = Num z45" "19041021663999 / 1073741824 \<le> z45" "z45 \<le> 19041021682667 / 1073741824" "fl z45 = Num z45"
    by blast
  have s_cap: "maxOffer64 ?rv [Num 1000, Num 5000, Num 50000] = Num z45"
    unfolding maxOffer64_def Let_def s_mean s_rm s_pm s_risk s_floored s_rf s_rounded s_prog
    by (simp add:  z45(1) c5(1) c7(1) c9(1) c26(1) c30(1) c34(1) 
          del: jadd.simps jmul.simps jdiv.simps jsqrt.simps Math_pow2.simps Math_round64.simps)
  have d46: "15000 \<le> z45"
    using z45(2,3) by simp
  have e47: "jmin (Num 15000) (Num z45) = Num 15000"
    using z45(2,3) by (simp add: jmin_def)
  have s_capped: "cappedOffer64 newBanker64 ?rv [Num 1000, Num 5000, Num 50000] 1 (0) = Num 15000"
    unfolding cappedOffer64_def Let_def s_mean s_rm s_pm s_risk s_floored s_rf s_rounded s_prog s_cap
    using z45(2,3)
    by (simp add:  d46 e47 c5(1) c7(1) c9(1) c26(1) c30(1) c34(1) 
          del: jadd.simps jmul.simps jdiv.simps jsqrt.simps Math_pow2.simps Math_round64.simps)
  have s_safe: "safeOffer64 newBanker64 ?rv [Num 1000, Num 5000, Num 50000] 1 (0) = Num 15000"
    unfolding safeOffer64_def Let_def s_mean s_rm s_pm s_risk s_floored s_rf s_rounded s_prog s_cap s_capped
    by (simp add:  c5(1) c7(1) c9(1) c26(1) c30(1) c34(1) 
          del: jadd.simps jmul.simps jdiv.simps jsqrt.simps Math_pow2.simps Math_round64.simps)
  have e48: "Math_round64 (Num 15000) = Num 15000"
    by simp
  have s_ret: "Math_round64 (safeOffer64 newBanker64 ?rv [Num 1000, Num 5000, Num 50000] 1 (0)) = Num 15000"
    unfolding Let_def s_mean s_rm s_pm s_risk s_floored s_rf s_rounded s_prog s_cap s_capped s_safe
    by (simp add:  e48 c5(1) c7(1) c9(1) c26(1) c30(1) c34(1) 
          del: jadd.simps jmul.simps jdiv.simps jsqrt.simps Math_pow2.simps Math_round64.simps)
  have d49: "\<not> z31 \<le> 15000"
    using z31(2,3) by simp
  show "fst (calculateOffer64 newBanker64 (Some [JNumber (Num 1000), JNumber (Num 5000), JNumber (Num 50000)]) 1 0) = Num 15000"
    by (simp add: calculateOffer64_def vs Let_def s_ret del: Math_round64.simps)
  show "\<not> jle (jmul (calculateExpectedValue64 [Num 1000, Num 5000, Num 50000]) (fl (85 / 100))) (Num 15000)"
    using d49 by (simp add: s_mean c30(1) z31(1) del: jmul.simps)
qed

text \<open>The two rounds of the session that opens the six smallest values, then the five
  largest: the offers are 38500 and 26538.\<close>

lemma offer64_round1:
  shows "calculateOffer64 newBanker64 (Some afterRound1_64) 1 (1 / 2) = (Num 38500, bankerAfterRound1_64)"
proof -
  let ?rv = "afterRound1_64"
  have vs: "validValuesOf64 ?rv = [Num 75, Num 100, Num 200, Num 300, Num 400, Num 500, Num 750, Num 1000, Num 5000, Num 10000, Num 25000, Num 50000, Num 75000, Num 100000, Num 200000, Num 300000, Num 400000, Num 500000, Num 750000, Num 1000000]"
    by (simp add: validValuesOf64_def afterRound1_64_def valuesAfterRound1_def)
  have len: "length ?rv = 20"
    by (simp add: afterRound1_64_def valuesAfterRound1_def)
  have e1: "jadd (Num 0) (Num 75) = Num 75"
    by (simp add: fl_grid fl_whole fl_grid4)
  have e2: "jadd (Num 75) (Num 100) = Num 175"
    by (simp add: fl_grid fl_whole fl_grid4)
  have e3: "jadd (Num 175) (Num 200) = Num 375"
    by (simp add: fl_grid fl_whole fl_grid4)
  have e4: "jadd (Num 375) (Num 300) = Num 675"
    by (simp add: fl_grid fl_whole fl_grid4)
  have e5: "jadd (Num 675) (Num 400) = Num 1075"
    by (simp add: fl_grid fl_whole fl_grid4)
  have e6: "jadd (Num 1075) (Num 500) = Num 1575"
    by (simp add: fl_grid fl_whole fl_grid4)
  have e7: "jadd (Num 1575) (Num 750) = Num 2325"
    by (simp add: fl_grid fl_whole fl_grid4)
  have e8: "jadd (Num 2325) (Num 1000) = Num 3325"
    by (simp add: fl_grid fl_whole fl_grid4)
  have e9: "jadd (Num 3325) (Num 5000) = Num 8325"
    by (simp add: fl_grid fl_whole fl_grid4)
  have e10: "jadd (Num 8325) (Num 10000) = Num 18325"
    by (simp add: fl_grid fl_whole fl_grid4)
  have e11: "jadd (Num 18325) (Num 25000) = Num 43325"
    by (simp add: fl_grid fl_whole fl_grid4)
  have e12: "jadd (Num 43325) (Num 50000) = Num 93325"
    by (simp add: fl_grid fl_whole fl_grid4)
  have e13: "jadd (Num 93325) (Num 75000) = Num 168325"
    by (simp add: fl_grid fl_whole fl_grid4)
  have e14: "jadd (Num 168325) (Num 100000) = Num 268325"
    by (simp add: fl_grid fl_whole fl_grid4)
  have e15: "jadd (Num 268325) (Num 200000) = Num 468325"
    by (simp add: fl_grid fl_whole fl_grid4)
  have e16: "jadd (Num 468325) (Num 300000) = Num 768325"
    by (simp add: fl_grid fl_whole fl_grid4)
  have e17: "jadd (Num 768325) (Num 400000) = Num 1168325"
    by (simp add: fl_grid fl_whole fl_grid4)
  have e18: "jadd (Num 1168325) (Num 500000) = Num 1668325"
    by (simp add: fl_grid fl_whole fl_grid4)
  have e19: "jadd (Num 1668325) (Num 750000) = Num 2418325"
    by (simp add: fl_grid fl_whole fl_grid4)
  have e20: "jadd (Num 2418325) (Num 1000000) = Num 3418325"
    by (simp add: fl_grid fl_whole fl_grid4)
  have e21: "jdiv (Num 3418325) (Num 20) = Num (683665 / 4)"
    by (simp add: fl_grid fl_whole fl_grid4)
  have s_mean: "calculateExpectedValue64 [Num 75, Num 100, Num 200, Num 300, Num 400, Num 500, Num 750, Num 1000, Num 5000, Num 10000, Num 25000, Num 50000, Num 75000, Num 100000, Num 200000, Num 300000, Num 400000, Num 500000, Num 750000, Num 1000000] = Num (683665 / 4)"
    unfolding calculateExpectedValue64_def Let_def
    by (simp add:  e1 e2 e3 e4 e5 e6 e7 e8 e9 e10 e11 e12 e13 e14 e15 e16 e17 e18 e19 e20 e21 
          del: jadd.simps jmul.simps jdiv.simps jsqrt.simps Math_pow2.simps Math_round64.simps)
  have s_rm: "getRoundMultiplier64 1 (length [Num 75, Num 100, Num 200, Num 300, Num 400, Num 500, Num 750, Num 1000, Num 5000, Num 10000, Num 25000, Num 50000, Num 75000, Num 100000, Num 200000, Num 300000, Num 400000, Num 500000, Num 750000, Num 1000000]) = Num (1 / 4)"
    unfolding getRoundMultiplier64_def Let_def s_mean
    by (simp add: fl_grid  
          del: jadd.simps jmul.simps jdiv.simps jsqrt.simps Math_pow2.simps Math_round64.simps)
  have "\<exists>z. jdiv (Num 7) (Num 20) = Num z \<and> 187904819 / 536870912 \<le> z \<and> z \<le> 375809639 / 1073741824 \<and> fl z = Num z"
    by (rule div_ex [OF order_refl [of "7::real"] order_refl [of "7::real"] order_refl [of "20::real"] order_refl [of "20::real"]]) (simp_all add: fl_grid fl_whole)
  then obtain z22 where z22: "jdiv (Num 7) (Num 20) = Num z22" "187904819 / 536870912 \<le> z22" "z22 \<le> 375809639 / 1073741824" "fl z22 = Num z22"
    by blast
  have "\<exists>z. fl (7 / 10) = Num z \<and> 187904819 / 268435456 \<le> z \<and> z \<le> 751619277 / 1073741824 \<and> fl z = Num z"
    by (rule lit_ex) (simp_all add: fl_grid fl_whole)
  then obtain c23 where c23: "fl (7 / 10) = Num c23" "187904819 / 268435456 \<le> c23" "c23 \<le> 751619277 / 1073741824" "fl c23 = Num c23"
    by blast
  have d24: "\<not> c23 < z22"
    using c23(2,3) z22(2,3) by simp
  have d25: "\<not> (1 / 2) < z22"
    using z22(2,3) by simp
  have "\<exists>z. fl (3 / 5) = Num z \<and> 322122547 / 536870912 \<le> z \<and> z \<le> 644245095 / 1073741824 \<and> fl z = Num z"
    by (rule lit_ex) (simp_all add: fl_grid fl_whole)
  then obtain c26 where c26: "fl (3 / 5) = Num c26" "322122547 / 536870912 \<le> c26" "c26 \<le> 644245095 / 1073741824" "fl c26 = Num c26"
    by blast
  have d27: "\<not> c26 < z22"
    using c26(2,3) z22(2,3) by simp
  have s_pm: "getPsychologyMultiplier64 newBanker64 [Num 75, Num 100, Num 200, Num 300, Num 400, Num 500, Num 750, Num 1000, Num 5000, Num 10000, Num 25000, Num 50000, Num 75000, Num 100000, Num 200000, Num 300000, Num 400000, Num 500000, Num 750000, Num 1000000] = Num 1"
    unfolding getPsychologyMultiplier64_def Let_def s_mean s_rm
    using c23(2,3) z22(2,3) c26(2,3)
    by (simp add: fl_grid z22(1) d24 d25 d27 c23(1) c26(1) newBanker64_def
          del: jadd.simps jmul.simps jdiv.simps jsqrt.simps Math_pow2.simps Math_round64.simps)
  have e28: "jadd (Num 75) (Num (- (683665 / 4))) = Num (- (683365 / 4))"
    by (simp add: fl_grid fl_whole fl_grid4)
  have e29: "Math_pow2 (Num (- (683365 / 4))) = Num (466987723225 / 16)"
    by (simp add: fl_grid fl_whole fl_grid4 power2_eq_square)
  have e30: "jadd (Num 0) (Num (466987723225 / 16)) = Num (466987723225 / 16)"
    by (simp add: fl_grid fl_whole fl_grid4)
  have e31: "jadd (Num 100) (Num (- (683665 / 4))) = Num (- (683265 / 4))"
    by (simp add: fl_grid fl_whole fl_grid4)
  have e32: "Math_pow2 (Num (- (683265 / 4))) = Num (466851060225 / 16)"
    by (simp add: fl_grid fl_whole fl_grid4 power2_eq_square)
  have e33: "jadd (Num (466987723225 / 16)) (Num (466851060225 / 16)) = Num (466919391725 / 8)"
    by (simp add: fl_grid fl_whole fl_grid4)
  have e34: "jadd (Num 200) (Num (- (683665 / 4))) = Num (- (682865 / 4))"
    by (simp add: fl_grid fl_whole fl_grid4)
  have e35: "Math_pow2 (Num (- (682865 / 4))) = Num (466304608225 / 16)"
    by (simp add: fl_grid fl_whole fl_grid4 power2_eq_square)
  have e36: "jadd (Num (466919391725 / 8)) (Num (466304608225 / 16)) = Num (1400143391675 / 16)"
    by (simp add: fl_grid fl_whole fl_grid4)
  have e37: "jadd (Num 300) (Num (- (683665 / 4))) = Num (- (682465 / 4))"
    by (simp add: fl_grid fl_whole fl_grid4)
  have e38: "Math_pow2 (Num (- (682465 / 4))) = Num (465758476225 / 16)"
    by (simp add: fl_grid fl_whole fl_grid4 power2_eq_square)
  have e39: "jadd (Num (1400143391675 / 16)) (Num (465758476225 / 16)) = Num (466475466975 / 4)"
    by (simp add: fl_grid fl_whole fl_grid4)
  have e40: "jadd (Num 400) (Num (- (683665 / 4))) = Num (- (682065 / 4))"
    by (simp add: fl_grid fl_whole fl_grid4)
  have e41: "Math_pow2 (Num (- (682065 / 4))) = Num (465212664225 / 16)"
    by (simp add: fl_grid fl_whole fl_grid4 power2_eq_square)
  have e42: "jadd (Num (466475466975 / 4)) (Num (465212664225 / 16)) = Num (2331114532125 / 16)"
    by (simp add: fl_grid fl_whole fl_grid4)
  have e43: "jadd (Num 500) (Num (- (683665 / 4))) = Num (- (681665 / 4))"
    by (simp add: fl_grid fl_whole fl_grid4)
  have e44: "Math_pow2 (Num (- (681665 / 4))) = Num (464667172225 / 16)"
    by (simp add: fl_grid fl_whole fl_grid4 power2_eq_square)
  have e45: "jadd (Num (2331114532125 / 16)) (Num (464667172225 / 16)) = Num (1397890852175 / 8)"
    by (simp add: fl_grid fl_whole fl_grid4)
  have e46: "jadd (Num 750) (Num (- (683665 / 4))) = Num (- (680665 / 4))"
    by (simp add: fl_grid fl_whole fl_grid4)
  have e47: "Math_pow2 (Num (- (680665 / 4))) = Num (463304842225 / 16)"
    by (simp add: fl_grid fl_whole fl_grid4 power2_eq_square)
  have e48: "jadd (Num (1397890852175 / 8)) (Num (463304842225 / 16)) = Num (3259086546575 / 16)"
    by (simp add: fl_grid fl_whole fl_grid4)
  have e49: "jadd (Num 1000) (Num (- (683665 / 4))) = Num (- (679665 / 4))"
    by (simp add: fl_grid fl_whole fl_grid4)
  have e50: "Math_pow2 (Num (- (679665 / 4))) = Num (461944512225 / 16)"
    by (simp add: fl_grid fl_whole fl_grid4 power2_eq_square)
  have e51: "jadd (Num (3259086546575 / 16)) (Num (461944512225 / 16)) = Num 232564441175"
    by (simp add: fl_grid fl_whole fl_grid4)
  have e52: "jadd (Num 5000) (Num (- (683665 / 4))) = Num (- (663665 / 4))"
    by (simp add: fl_grid fl_whole fl_grid4)
  have e53: "Math_pow2 (Num (- (663665 / 4))) = Num (440451232225 / 16)"
    by (simp add: fl_grid fl_whole fl_grid4 power2_eq_square)
  have e54: "jadd (Num 232564441175) (Num (440451232225 / 16)) = Num (4161482291025 / 16)"
    by (simp add: fl_grid fl_whole fl_grid4)
  have e55: "jadd (Num 10000) (Num (- (683665 / 4))) = Num (- (643665 / 4))"
    by (simp add: fl_grid fl_whole fl_grid4)
  have e56: "Math_pow2 (Num (- (643665 / 4))) = Num (414304632225 / 16)"
    by (simp add: fl_grid fl_whole fl_grid4 power2_eq_square)
  have e57: "jadd (Num (4161482291025 / 16)) (Num (414304632225 / 16)) = Num (2287893461625 / 8)"
    by (simp add: fl_grid fl_whole fl_grid4)
  have e58: "jadd (Num 25000) (Num (- (683665 / 4))) = Num (- (583665 / 4))"
    by (simp add: fl_grid fl_whole fl_grid4)
  have e59: "Math_pow2 (Num (- (583665 / 4))) = Num (340664832225 / 16)"
    by (simp add: fl_grid fl_whole fl_grid4 power2_eq_square)
  have e60: "jadd (Num (2287893461625 / 8)) (Num (340664832225 / 16)) = Num (4916451755475 / 16)"
    by (simp add: fl_grid fl_whole fl_grid4)
  have e61: "jadd (Num 50000) (Num (- (683665 / 4))) = Num (- (483665 / 4))"
    by (simp add: fl_grid fl_whole fl_grid4)
  have e62: "Math_pow2 (Num (- (483665 / 4))) = Num (233931832225 / 16)"
    by (simp add: fl_grid fl_whole fl_grid4 power2_eq_square)
  have e63: "jadd (Num (4916451755475 / 16)) (Num (233931832225 / 16)) = Num (1287595896925 / 4)"
    by (simp add: fl_grid fl_whole fl_grid4)
  have e64: "jadd (Num 75000) (Num (- (683665 / 4))) = Num (- (383665 / 4))"
    by (simp add: fl_grid fl_whole fl_grid4)
  have e65: "Math_pow2 (Num (- (383665 / 4))) = Num (147198832225 / 16)"
    by (simp add: fl_grid fl_whole fl_grid4 power2_eq_square)
  have e66: "jadd (Num (1287595896925 / 4)) (Num (147198832225 / 16)) = Num (5297582419925 / 16)"
    by (simp add: fl_grid fl_whole fl_grid4)
  have e67: "jadd (Num 100000) (Num (- (683665 / 4))) = Num (- (283665 / 4))"
    by (simp add: fl_grid fl_whole fl_grid4)
  have e68: "Math_pow2 (Num (- (283665 / 4))) = Num (80465832225 / 16)"
    by (simp add: fl_grid fl_whole fl_grid4 power2_eq_square)
  have e69: "jadd (Num (5297582419925 / 16)) (Num (80465832225 / 16)) = Num (2689024126075 / 8)"
    by (simp add: fl_grid fl_whole fl_grid4)
  have e70: "jadd (Num 200000) (Num (- (683665 / 4))) = Num (116335 / 4)"
    by (simp add: fl_grid fl_whole fl_grid4)
  have e71: "Math_pow2 (Num (116335 / 4)) = Num (13533832225 / 16)"
    by (simp add: fl_grid fl_whole fl_grid4 power2_eq_square)
  have e72: "jadd (Num (2689024126075 / 8)) (Num (13533832225 / 16)) = Num (5391582084375 / 16)"
    by (simp add: fl_grid fl_whole fl_grid4)
  have e73: "jadd (Num 300000) (Num (- (683665 / 4))) = Num (516335 / 4)"
    by (simp add: fl_grid fl_whole fl_grid4)
  have e74: "Math_pow2 (Num (516335 / 4)) = Num (266601832225 / 16)"
    by (simp add: fl_grid fl_whole fl_grid4 power2_eq_square)
  have e75: "jadd (Num (5391582084375 / 16)) (Num (266601832225 / 16)) = Num (707272989575 / 2)"
    by (simp add: fl_grid fl_whole fl_grid4)
  have e76: "jadd (Num 400000) (Num (- (683665 / 4))) = Num (916335 / 4)"
    by (simp add: fl_grid fl_whole fl_grid4)
  have e77: "Math_pow2 (Num (916335 / 4)) = Num (839669832225 / 16)"
    by (simp add: fl_grid fl_whole fl_grid4 power2_eq_square)
  have e78: "jadd (Num (707272989575 / 2)) (Num (839669832225 / 16)) = Num (6497853748825 / 16)"
    by (simp add: fl_grid fl_whole fl_grid4)
  have e79: "jadd (Num 500000) (Num (- (683665 / 4))) = Num (1316335 / 4)"
    by (simp add: fl_grid fl_whole fl_grid4)
  have e80: "Math_pow2 (Num (1316335 / 4)) = Num (1732737832225 / 16)"
    by (simp add: fl_grid fl_whole fl_grid4 power2_eq_square)
  have e81: "jadd (Num (6497853748825 / 16)) (Num (1732737832225 / 16)) = Num (4115295790525 / 8)"
    by (simp add: fl_grid fl_whole fl_grid4)
  have e82: "jadd (Num 750000) (Num (- (683665 / 4))) = Num (2316335 / 4)"
    by (simp add: fl_grid fl_whole fl_grid4)
  have e83: "Math_pow2 (Num (2316335 / 4)) = Num (5365407832225 / 16)"
    by (simp add: fl_grid fl_whole fl_grid4 power2_eq_square)
  have e84: "jadd (Num (4115295790525 / 8)) (Num (5365407832225 / 16)) = Num (13595999413275 / 16)"
    by (simp add: fl_grid fl_whole fl_grid4)
  have e85: "jadd (Num 1000000) (Num (- (683665 / 4))) = Num (3316335 / 4)"
    by (simp add: fl_grid fl_whole fl_grid4)
  have e86: "Math_pow2 (Num (3316335 / 4)) = Num (10998077832225 / 16)"
    by (simp add: fl_grid fl_whole fl_grid4 power2_eq_square)
  have e87: "jadd (Num (13595999413275 / 16)) (Num (10998077832225 / 16)) = Num (6148519311375 / 4)"
    by (simp add: fl_grid fl_whole fl_grid4)
  have e88: "jdiv (Num (6148519311375 / 4)) (Num 20) = Num (1229703862275 / 16)"
    by (simp add: fl_grid fl_whole fl_grid4)
  have "\<exists>z. jsqrt (Num (1229703862275 / 16)) = Num z \<and> 18604592604915 / 67108864 \<le> z \<and> z \<le> 297673481678641 / 1073741824 \<and> fl z = Num z"
    by (rule sqrt_ex [OF order_refl [of "(1229703862275 / 16)::real"] order_refl [of "(1229703862275 / 16)::real"]]) (simp_all add: fl_grid fl_whole)
  then obtain z89 where z89: "jsqrt (Num (1229703862275 / 16)) = Num z89" "18604592604915 / 67108864 \<le> z89" "z89 \<le> 297673481678641 / 1073741824" "fl z89 = Num z89"
    by blast
  have "\<exists>z. jdiv (Num z89) (Num (683665 / 4)) = Num z \<and> 1741633587 / 1073741824 \<le> z \<and> z \<le> 435408397 / 268435456 \<and> fl z = Num z"
    by (rule div_ex [OF z89(2) z89(3) order_refl [of "(683665 / 4)::real"] order_refl [of "(683665 / 4)::real"]]) (simp_all add: fl_grid fl_whole)
  then obtain z90 where z90: "jdiv (Num z89) (Num (683665 / 4)) = Num z90" "1741633587 / 1073741824 \<le> z90" "z90 \<le> 435408397 / 268435456" "fl z90 = Num z90"
    by blast
  have d91: "\<not> 2 < z90"
    using z90(2,3) by simp
  have d92: "(3 / 2) < z90"
    using z90(2,3) by simp
  have "\<exists>z. fl (9 / 10) = Num z \<and> 966367641 / 1073741824 \<le> z \<and> z \<le> 483183821 / 536870912 \<and> fl z = Num z"
    by (rule lit_ex) (simp_all add: fl_grid fl_whole)
  then obtain c93 where c93: "fl (9 / 10) = Num c93" "966367641 / 1073741824 \<le> c93" "c93 \<le> 483183821 / 536870912" "fl c93 = Num c93"
    by blast
  have s_risk: "getRiskMultiplier64 [Num 75, Num 100, Num 200, Num 300, Num 400, Num 500, Num 750, Num 1000, Num 5000, Num 10000, Num 25000, Num 50000, Num 75000, Num 100000, Num 200000, Num 300000, Num 400000, Num 500000, Num 750000, Num 1000000] = Num c93"
    unfolding getRiskMultiplier64_def jsub_def Let_def s_mean s_rm s_pm
    using z90(2,3)
    by (simp add: fl_grid e28 e29 e30 e31 e32 e33 e34 e35 e36 e37 e38 e39 e40 e41 e42 e43 e44 e45 e46 e47 e48 e49 e50 e51 e52 e53 e54 e55 e56 e57 e58 e59 e60 e61 e62 e63 e64 e65 e66 e67 e68 e69 e70 e71 e72 e73 e74 e75 e76 e77 e78 e79 e80 e81 e82 e83 e84 e85 e86 e87 e88 z89(1) z90(1) d91 d92 c23(1) c26(1) c93(1) 
          del: jadd.simps jmul.simps jdiv.simps jsqrt.simps Math_pow2.simps Math_round64.simps)
  have e94: "jmul (Num (683665 / 4)) (Num (1 / 4)) = Num (683665 / 16)"
    by (simp add: fl_grid fl_whole fl_grid4)
  have e95: "jmul (Num (683665 / 16)) (Num 1) = Num (683665 / 16)"
    by (simp add: fl_grid fl_whole fl_grid4)
  have "\<exists>z. jmul (Num (683665 / 16)) (Num c93) = Num z \<and> 20645991665133 / 536870912 \<le> z \<and> z \<le> 10322995843249 / 268435456 \<and> fl z = Num z"
    by (rule mul_ex [OF order_refl [of "(683665 / 16)::real"] order_refl [of "(683665 / 16)::real"] c93(2) c93(3)]) (simp_all add: fl_grid fl_whole)
  then obtain z96 where z96: "jmul (Num (683665 / 16)) (Num c93) = Num z96" "20645991665133 / 536870912 \<le> z96" "z96 \<le> 10322995843249 / 268435456" "fl z96 = Num z96"
    by blast
  have s_floored: "flooredOffer64 newBanker64 [Num 75, Num 100, Num 200, Num 300, Num 400, Num 500, Num 750, Num 1000, Num 5000, Num 10000, Num 25000, Num 50000, Num 75000, Num 100000, Num 200000, Num 300000, Num 400000, Num 500000, Num 750000, Num 1000000] 1 = Num z96"
    unfolding flooredOffer64_def Let_def s_mean s_rm s_pm s_risk
    by (simp add:  e94 e95 z96(1) c23(1) c26(1) c93(1) 
          del: jadd.simps jmul.simps jdiv.simps jsqrt.simps Math_pow2.simps Math_round64.simps)
  have "\<exists>z. fl (19 / 20) = Num z \<and> 255013683 / 268435456 \<le> z \<and> z \<le> 1020054733 / 1073741824 \<and> fl z = Num z"
    by (rule lit_ex) (simp_all add: fl_grid fl_whole)
  then obtain c97 where c97: "fl (19 / 20) = Num c97" "255013683 / 268435456 \<le> c97" "c97 \<le> 1020054733 / 1073741824" "fl c97 = Num c97"
    by blast
  have "\<exists>z. fl (1 / 10) = Num z \<and> 53687091 / 536870912 \<le> z \<and> z \<le> 107374183 / 1073741824 \<and> fl z = Num z"
    by (rule lit_ex) (simp_all add: fl_grid fl_whole)
  then obtain c98 where c98: "fl (1 / 10) = Num c98" "53687091 / 536870912 \<le> c98" "c98 \<le> 107374183 / 1073741824" "fl c98 = Num c98"
    by blast
  have "\<exists>z. jmul (Num (1 / 2)) (Num c98) = Num z \<and> 53687091 / 1073741824 \<le> z \<and> z \<le> 13421773 / 268435456 \<and> fl z = Num z"
    by (rule mul_ex [OF order_refl [of "(1 / 2)::real"] order_refl [of "(1 / 2)::real"] c98(2) c98(3)]) (simp_all add: fl_grid fl_whole)
  then obtain z99 where z99: "jmul (Num (1 / 2)) (Num c98) = Num z99" "53687091 / 1073741824 \<le> z99" "z99 \<le> 13421773 / 268435456" "fl z99 = Num z99"
    by blast
  have "\<exists>z. jadd (Num c97) (Num z99) = Num z \<and> 1073741823 / 1073741824 \<le> z \<and> z \<le> 1073741825 / 1073741824 \<and> fl z = Num z"
    by (rule add_ex [OF c97(2) c97(3) z99(2) z99(3)]) (simp_all add: fl_grid fl_whole)
  then obtain z100 where z100: "jadd (Num c97) (Num z99) = Num z100" "1073741823 / 1073741824 \<le> z100" "z100 \<le> 1073741825 / 1073741824" "fl z100 = Num z100"
    by blast
  have s_rf: "randomFactor64 (1 / 2) = Num z100"
    unfolding randomFactor64_def Let_def s_mean s_rm s_pm s_risk s_floored
    by (simp add:  z99(1) z100(1) c23(1) c26(1) c93(1) c97(1) c98(1) 
          del: jadd.simps jmul.simps jdiv.simps jsqrt.simps Math_pow2.simps Math_round64.simps)
  have "\<exists>z. jmul (Num z96) (Num z100) = Num z \<and> 41291983291809 / 1073741824 \<le> z \<and> z \<le> 41291983411453 / 1073741824 \<and> fl z = Num z"
    by (rule mul_ex [OF z96(2) z96(3) z100(2) z100(3)]) (simp_all add: fl_grid fl_whole)
  then obtain z101 where z101: "jmul (Num z96) (Num z100) = Num z101" "41291983291809 / 1073741824 \<le> z101" "z101 \<le> 41291983411453 / 1073741824" "fl z101 = Num z101"
    by blast
  have d102: "\<not> z101 < 100"
    using z101(2,3) by simp
  have d103: "\<not> z101 < 1000"
    using z101(2,3) by simp
  have d104: "\<not> z101 < 10000"
    using z101(2,3) by simp
  have d105: "z101 < 100000"
    using z101(2,3) by simp
  have "\<exists>z. jdiv (Num z101) (Num 500) = Num z \<and> 82583966583 / 1073741824 \<le> z \<and> z \<le> 82583966823 / 1073741824 \<and> fl z = Num z"
    by (rule div_ex [OF z101(2) z101(3) order_refl [of "500::real"] order_refl [of "500::real"]]) (simp_all add: fl_grid fl_whole)
  then obtain z106 where z106: "jdiv (Num z101) (Num 500) = Num z106" "82583966583 / 1073741824 \<le> z106" "z106 \<le> 82583966823 / 1073741824" "fl z106 = Num z106"
    by blast
  have e107: "Math_round64 (Num z106) = Num 77"
    using round_ex [OF z106(2) z106(3), where n = 77] by simp
  have e108: "jmul (Num 77) (Num 500) = Num 38500"
    by (simp add: fl_grid fl_whole fl_grid4)
  have s_rounded: "roundedOffer64 newBanker64 [Num 75, Num 100, Num 200, Num 300, Num 400, Num 500, Num 750, Num 1000, Num 5000, Num 10000, Num 25000, Num 50000, Num 75000, Num 100000, Num 200000, Num 300000, Num 400000, Num 500000, Num 750000, Num 1000000] 1 (1 / 2) = Num 38500"
    unfolding roundedOffer64_def roundOffer64_def Let_def s_mean s_rm s_pm s_risk s_floored s_rf
    using z101(2,3)
    by (simp add:  z101(1) d102 d103 d104 d105 z106(1) e107 e108 c23(1) c26(1) c93(1) c97(1) c98(1) 
          del: jadd.simps jmul.simps jdiv.simps jsqrt.simps Math_pow2.simps Math_round64.simps)
  have s_prog: "progressedOffer64 newBanker64 [Num 75, Num 100, Num 200, Num 300, Num 400, Num 500, Num 750, Num 1000, Num 5000, Num 10000, Num 25000, Num 50000, Num 75000, Num 100000, Num 200000, Num 300000, Num 400000, Num 500000, Num 750000, Num 1000000] 1 (1 / 2) = Num 38500"
    unfolding progressedOffer64_def Let_def s_mean s_rm s_pm s_risk s_floored s_rf s_rounded
    by (simp add:  c23(1) c26(1) c93(1) c97(1) c98(1) newBanker64_def
          del: jadd.simps jmul.simps jdiv.simps jsqrt.simps Math_pow2.simps Math_round64.simps)
  have "\<exists>z. fl (17 / 20) = Num z \<and> 456340275 / 536870912 \<le> z \<and> z \<le> 912680551 / 1073741824 \<and> fl z = Num z"
    by (rule lit_ex) (simp_all add: fl_grid fl_whole)
  then obtain c109 where c109: "fl (17 / 20) = Num c109" "456340275 / 536870912 \<le> c109" "c109 \<le> 912680551 / 1073741824" "fl c109 = Num c109"
    by blast
  have "\<exists>z. jmul (Num (683665 / 4)) (Num c109) = Num z \<and> 155991937053937 / 1073741824 \<le> z \<and> z \<le> 77995968612427 / 536870912 \<and> fl z = Num z"
    by (rule mul_ex [OF order_refl [of "(683665 / 4)::real"] order_refl [of "(683665 / 4)::real"] c109(2) c109(3)]) (simp_all add: fl_grid fl_whole)
  then obtain z110 where z110: "jmul (Num (683665 / 4)) (Num c109) = Num z110" "155991937053937 / 1073741824 \<le> z110" "z110 \<le> 77995968612427 / 536870912" "fl z110 = Num z110"
    by blast
  have s_cap: "maxOffer64 ?rv [Num 75, Num 100, Num 200, Num 300, Num 400, Num 500, Num 750, Num 1000, Num 5000, Num 10000, Num 25000, Num 50000, Num 75000, Num 100000, Num 200000, Num 300000, Num 400000, Num 500000, Num 750000, Num 1000000] = Num z110"
    unfolding maxOffer64_def Let_def s_mean s_rm s_pm s_risk s_floored s_rf s_rounded s_prog
    by (simp add:  z110(1) c23(1) c26(1) c93(1) c97(1) c98(1) c109(1) len
          del: jadd.simps jmul.simps jdiv.simps jsqrt.simps Math_pow2.simps Math_round64.simps)
  have d111: "38500 \<le> z110"
    using z110(2,3) by simp
  have e112: "jmin (Num 38500) (Num z110) = Num 38500"
    using z110(2,3) by (simp add: jmin_def)
  have s_capped: "cappedOffer64 newBanker64 ?rv [Num 75, Num 100, Num 200, Num 300, Num 400, Num 500, Num 750, Num 1000, Num 5000, Num 10000, Num 25000, Num 50000, Num 75000, Num 100000, Num 200000, Num 300000, Num 400000, Num 500000, Num 750000, Num 1000000] 1 (1 / 2) = Num 38500"
    unfolding cappedOffer64_def Let_def s_mean s_rm s_pm s_risk s_floored s_rf s_rounded s_prog s_cap
    using z110(2,3)
    by (simp add:  d111 e112 c23(1) c26(1) c93(1) c97(1) c98(1) c109(1) 
          del: jadd.simps jmul.simps jdiv.simps jsqrt.simps Math_pow2.simps Math_round64.simps)
  have s_safe: "safeOffer64 newBanker64 ?rv [Num 75, Num 100, Num 200, Num 300, Num 400, Num 500, Num 750, Num 1000, Num 5000, Num 10000, Num 25000, Num 50000, Num 75000, Num 100000, Num 200000, Num 300000, Num 400000, Num 500000, Num 750000, Num 1000000] 1 (1 / 2) = Num 38500"
    unfolding safeOffer64_def Let_def s_mean s_rm s_pm s_risk s_floored s_rf s_rounded s_prog s_cap s_capped
    by (simp add:  c23(1) c26(1) c93(1) c97(1) c98(1) c109(1) 
          del: jadd.simps jmul.simps jdiv.simps jsqrt.simps Math_pow2.simps Math_round64.simps)
  have e113: "Math_round64 (Num 38500) = Num 38500"
    by simp
  have s_ret: "Math_round64 (safeOffer64 newBanker64 ?rv [Num 75, Num 100, Num 200, Num 300, Num 400, Num 500, Num 750, Num 1000, Num 5000, Num 10000, Num 25000, Num 50000, Num 75000, Num 100000, Num 200000, Num 300000, Num 400000, Num 500000, Num 750000, Num 1000000] 1 (1 / 2)) = Num 38500"
    unfolding Let_def s_mean s_rm s_pm s_risk s_floored s_rf s_rounded s_prog s_cap s_capped s_safe
    by (simp add:  e113 c23(1) c26(1) c93(1) c97(1) c98(1) c109(1) 
          del: jadd.simps jmul.simps jdiv.simps jsqrt.simps Math_pow2.simps Math_round64.simps)
  have ne: "?rv \<noteq> []"
    by (simp add: afterRound1_64_def valuesAfterRound1_def)
  have "calculateOffer64 newBanker64 (Some ?rv) 1 (1 / 2) =
          (Num 38500, newBanker64\<lparr>offers64 := offers64 newBanker64 @ [Num 38500],
             currentOffer64 := Num 38500, offerNumber64 := offerNumber64 newBanker64 + 1\<rparr>)"
    unfolding calculateOffer64_def option.case Let_def vs s_ret using ne by simp
  then show ?thesis
    by (simp add: newBanker64_def bankerAfterRound1_64_def)
qed

lemma offer64_round2:
  shows "fst (calculateOffer64 bankerAfterRound1_64 (Some afterRound2_64) 2 (1 / 2)) = Num 26538"
    and "\<not> jle (minIncrease64 bankerAfterRound1_64) (Num 26538)"
proof -
  let ?rv = "afterRound2_64"
  have vs: "validValuesOf64 ?rv = [Num 75, Num 100, Num 200, Num 300, Num 400, Num 500, Num 750, Num 1000, Num 5000, Num 10000, Num 25000, Num 50000, Num 75000, Num 100000, Num 200000]"
    by (simp add: validValuesOf64_def afterRound2_64_def valuesAfterRound2_def)
  have len: "length ?rv = 15"
    by (simp add: afterRound2_64_def valuesAfterRound2_def)
  have e1: "jadd (Num 0) (Num 75) = Num 75"
    by (simp add: fl_grid fl_whole fl_grid4)
  have e2: "jadd (Num 75) (Num 100) = Num 175"
    by (simp add: fl_grid fl_whole fl_grid4)
  have e3: "jadd (Num 175) (Num 200) = Num 375"
    by (simp add: fl_grid fl_whole fl_grid4)
  have e4: "jadd (Num 375) (Num 300) = Num 675"
    by (simp add: fl_grid fl_whole fl_grid4)
  have e5: "jadd (Num 675) (Num 400) = Num 1075"
    by (simp add: fl_grid fl_whole fl_grid4)
  have e6: "jadd (Num 1075) (Num 500) = Num 1575"
    by (simp add: fl_grid fl_whole fl_grid4)
  have e7: "jadd (Num 1575) (Num 750) = Num 2325"
    by (simp add: fl_grid fl_whole fl_grid4)
  have e8: "jadd (Num 2325) (Num 1000) = Num 3325"
    by (simp add: fl_grid fl_whole fl_grid4)
  have e9: "jadd (Num 3325) (Num 5000) = Num 8325"
    by (simp add: fl_grid fl_whole fl_grid4)
  have e10: "jadd (Num 8325) (Num 10000) = Num 18325"
    by (simp add: fl_grid fl_whole fl_grid4)
  have e11: "jadd (Num 18325) (Num 25000) = Num 43325"
    by (simp add: fl_grid fl_whole fl_grid4)
  have e12: "jadd (Num 43325) (Num 50000) = Num 93325"
    by (simp add: fl_grid fl_whole fl_grid4)
  have e13: "jadd (Num 93325) (Num 75000) = Num 168325"
    by (simp add: fl_grid fl_whole fl_grid4)
  have e14: "jadd (Num 168325) (Num 100000) = Num 268325"
    by (simp add: fl_grid fl_whole fl_grid4)
  have e15: "jadd (Num 268325) (Num 200000) = Num 468325"
    by (simp add: fl_grid fl_whole fl_grid4)
  have "\<exists>z. jdiv (Num 468325) (Num 15) = Num z \<and> 16762004657493 / 536870912 \<le> z \<and> z \<le> 33524009314987 / 1073741824 \<and> fl z = Num z"
    by (rule div_ex [OF order_refl [of "468325::real"] order_refl [of "468325::real"] order_refl [of "15::real"] order_refl [of "15::real"]]) (simp_all add: fl_grid fl_whole)
  then obtain z16 where z16: "jdiv (Num 468325) (Num 15) = Num z16" "16762004657493 / 536870912 \<le> z16" "z16 \<le> 33524009314987 / 1073741824" "fl z16 = Num z16"
    by blast
  have s_mean: "calculateExpectedValue64 [Num 75, Num 100, Num 200, Num 300, Num 400, Num 500, Num 750, Num 1000, Num 5000, Num 10000, Num 25000, Num 50000, Num 75000, Num 100000, Num 200000] = Num z16"
    unfolding calculateExpectedValue64_def Let_def
    by (simp add:  e1 e2 e3 e4 e5 e6 e7 e8 e9 e10 e11 e12 e13 e14 e15 z16(1) 
          del: jadd.simps jmul.simps jdiv.simps jsqrt.simps Math_pow2.simps Math_round64.simps)
  have "\<exists>z. fl (7 / 20) = Num z \<and> 187904819 / 536870912 \<le> z \<and> z \<le> 375809639 / 1073741824 \<and> fl z = Num z"
    by (rule lit_ex) (simp_all add: fl_grid fl_whole)
  then obtain c17 where c17: "fl (7 / 20) = Num c17" "187904819 / 536870912 \<le> c17" "c17 \<le> 375809639 / 1073741824" "fl c17 = Num c17"
    by blast
  have s_rm: "getRoundMultiplier64 2 (length [Num 75, Num 100, Num 200, Num 300, Num 400, Num 500, Num 750, Num 1000, Num 5000, Num 10000, Num 25000, Num 50000, Num 75000, Num 100000, Num 200000]) = Num c17"
    unfolding getRoundMultiplier64_def Let_def s_mean
    by (simp add: fl_grid c17(1) 
          del: jadd.simps jmul.simps jdiv.simps jsqrt.simps Math_pow2.simps Math_round64.simps)
  have "\<exists>z. jdiv (Num 2) (Num 15) = Num z \<and> 17895697 / 134217728 \<le> z \<and> z \<le> 143165577 / 1073741824 \<and> fl z = Num z"
    by (rule div_ex [OF order_refl [of "2::real"] order_refl [of "2::real"] order_refl [of "15::real"] order_refl [of "15::real"]]) (simp_all add: fl_grid fl_whole)
  then obtain z18 where z18: "jdiv (Num 2) (Num 15) = Num z18" "17895697 / 134217728 \<le> z18" "z18 \<le> 143165577 / 1073741824" "fl z18 = Num z18"
    by blast
  have "\<exists>z. jdiv (Num 7) (Num 15) = Num z \<and> 501079517 / 1073741824 \<le> z \<and> z \<le> 250539759 / 536870912 \<and> fl z = Num z"
    by (rule div_ex [OF order_refl [of "7::real"] order_refl [of "7::real"] order_refl [of "15::real"] order_refl [of "15::real"]]) (simp_all add: fl_grid fl_whole)
  then obtain z19 where z19: "jdiv (Num 7) (Num 15) = Num z19" "501079517 / 1073741824 \<le> z19" "z19 \<le> 250539759 / 536870912" "fl z19 = Num z19"
    by blast
  have "\<exists>z. fl (7 / 10) = Num z \<and> 187904819 / 268435456 \<le> z \<and> z \<le> 751619277 / 1073741824 \<and> fl z = Num z"
    by (rule lit_ex) (simp_all add: fl_grid fl_whole)
  then obtain c20 where c20: "fl (7 / 10) = Num c20" "187904819 / 268435456 \<le> c20" "c20 \<le> 751619277 / 1073741824" "fl c20 = Num c20"
    by blast
  have d21: "\<not> c20 < z18"
    using c20(2,3) z18(2,3) by simp
  have d22: "\<not> (1 / 2) < z18"
    using z18(2,3) by simp
  have "\<exists>z. fl (3 / 5) = Num z \<and> 322122547 / 536870912 \<le> z \<and> z \<le> 644245095 / 1073741824 \<and> fl z = Num z"
    by (rule lit_ex) (simp_all add: fl_grid fl_whole)
  then obtain c23 where c23: "fl (3 / 5) = Num c23" "322122547 / 536870912 \<le> c23" "c23 \<le> 644245095 / 1073741824" "fl c23 = Num c23"
    by blast
  have d24: "\<not> c23 < z19"
    using c23(2,3) z19(2,3) by simp
  have s_pm: "getPsychologyMultiplier64 bankerAfterRound1_64 [Num 75, Num 100, Num 200, Num 300, Num 400, Num 500, Num 750, Num 1000, Num 5000, Num 10000, Num 25000, Num 50000, Num 75000, Num 100000, Num 200000] = Num 1"
    unfolding getPsychologyMultiplier64_def Let_def s_mean s_rm
    using c20(2,3) z18(2,3) c23(2,3) z19(2,3)
    by (simp add: fl_grid z18(1) z19(1) d21 d22 d24 c17(1) c20(1) c23(1) bankerAfterRound1_64_def
          del: jadd.simps jmul.simps jdiv.simps jsqrt.simps Math_pow2.simps Math_round64.simps)
  have "\<exists>z. jadd (Num 75) (Num (- z16)) = Num z \<and> - (33443478678187 / 1073741824) \<le> z \<and> z \<le> - (16721739339093 / 536870912) \<and> fl z = Num z"
    by (rule sub_ex [OF order_refl [of "75::real"] order_refl [of "75::real"] z16(2) z16(3)]) (simp_all add: fl_grid fl_whole)
  then obtain z25 where z25: "jadd (Num 75) (Num (- z16)) = Num z25" "- (33443478678187 / 1073741824) \<le> z25" "z25 \<le> - (16721739339093 / 536870912)" "fl z25 = Num z25"
    by blast
  have "\<exists>z. Math_pow2 (Num z25) = Num z \<and> 970114844 \<le> z \<and> z \<le> 970114845 \<and> fl z = Num z"
    by (rule sq_neg_ex [OF z25(2) z25(3)]) (simp_all add: fl_grid fl_whole)
  then obtain z26 where z26: "Math_pow2 (Num z25) = Num z26" "970114844 \<le> z26" "z26 \<le> 970114845" "fl z26 = Num z26"
    by blast
  have e27: "jadd (Num 0) (Num z26) = Num z26"
    using z26(4) by simp
  have "\<exists>z. jadd (Num 100) (Num (- z16)) = Num z \<and> - (33416635132587 / 1073741824) \<le> z \<and> z \<le> - (16708317566293 / 536870912) \<and> fl z = Num z"
    by (rule sub_ex [OF order_refl [of "100::real"] order_refl [of "100::real"] z16(2) z16(3)]) (simp_all add: fl_grid fl_whole)
  then obtain z28 where z28: "jadd (Num 100) (Num (- z16)) = Num z28" "- (33416635132587 / 1073741824) \<le> z28" "z28 \<le> - (16708317566293 / 536870912)" "fl z28 = Num z28"
    by blast
  have "\<exists>z. Math_pow2 (Num z28) = Num z \<and> 968558136 \<le> z \<and> z \<le> 968558137 \<and> fl z = Num z"
    by (rule sq_neg_ex [OF z28(2) z28(3)]) (simp_all add: fl_grid fl_whole)
  then obtain z29 where z29: "Math_pow2 (Num z28) = Num z29" "968558136 \<le> z29" "z29 \<le> 968558137" "fl z29 = Num z29"
    by blast
  have "\<exists>z. jadd (Num z26) (Num z29) = Num z \<and> 1938672980 \<le> z \<and> z \<le> 1938672982 \<and> fl z = Num z"
    by (rule add_ex [OF z26(2) z26(3) z29(2) z29(3)]) (simp_all add: fl_grid fl_whole)
  then obtain z30 where z30: "jadd (Num z26) (Num z29) = Num z30" "1938672980 \<le> z30" "z30 \<le> 1938672982" "fl z30 = Num z30"
    by blast
  have "\<exists>z. jadd (Num 200) (Num (- z16)) = Num z \<and> - (33309260950187 / 1073741824) \<le> z \<and> z \<le> - (16654630475093 / 536870912) \<and> fl z = Num z"
    by (rule sub_ex [OF order_refl [of "200::real"] order_refl [of "200::real"] z16(2) z16(3)]) (simp_all add: fl_grid fl_whole)
  then obtain z31 where z31: "jadd (Num 200) (Num (- z16)) = Num z31" "- (33309260950187 / 1073741824) \<le> z31" "z31 \<le> - (16654630475093 / 536870912)" "fl z31 = Num z31"
    by blast
  have "\<exists>z. Math_pow2 (Num z31) = Num z \<and> 962343802 \<le> z \<and> z \<le> 962343803 \<and> fl z = Num z"
    by (rule sq_neg_ex [OF z31(2) z31(3)]) (simp_all add: fl_grid fl_whole)
  then obtain z32 where z32: "Math_pow2 (Num z31) = Num z32" "962343802 \<le> z32" "z32 \<le> 962343803" "fl z32 = Num z32"
    by blast
  have "\<exists>z. jadd (Num z30) (Num z32) = Num z \<and> 2901016782 \<le> z \<and> z \<le> 2901016785 \<and> fl z = Num z"
    by (rule add_ex [OF z30(2) z30(3) z32(2) z32(3)]) (simp_all add: fl_grid fl_whole)
  then obtain z33 where z33: "jadd (Num z30) (Num z32) = Num z33" "2901016782 \<le> z33" "z33 \<le> 2901016785" "fl z33 = Num z33"
    by blast
  have "\<exists>z. jadd (Num 300) (Num (- z16)) = Num z \<and> - (33201886767787 / 1073741824) \<le> z \<and> z \<le> - (16600943383893 / 536870912) \<and> fl z = Num z"
    by (rule sub_ex [OF order_refl [of "300::real"] order_refl [of "300::real"] z16(2) z16(3)]) (simp_all add: fl_grid fl_whole)
  then obtain z34 where z34: "jadd (Num 300) (Num (- z16)) = Num z34" "- (33201886767787 / 1073741824) \<le> z34" "z34 \<le> - (16600943383893 / 536870912)" "fl z34 = Num z34"
    by blast
  have "\<exists>z. Math_pow2 (Num z34) = Num z \<and> 956149469 \<le> z \<and> z \<le> 956149470 \<and> fl z = Num z"
    by (rule sq_neg_ex [OF z34(2) z34(3)]) (simp_all add: fl_grid fl_whole)
  then obtain z35 where z35: "Math_pow2 (Num z34) = Num z35" "956149469 \<le> z35" "z35 \<le> 956149470" "fl z35 = Num z35"
    by blast
  have "\<exists>z. jadd (Num z33) (Num z35) = Num z \<and> 3857166251 \<le> z \<and> z \<le> 3857166255 \<and> fl z = Num z"
    by (rule add_ex [OF z33(2) z33(3) z35(2) z35(3)]) (simp_all add: fl_grid fl_whole)
  then obtain z36 where z36: "jadd (Num z33) (Num z35) = Num z36" "3857166251 \<le> z36" "z36 \<le> 3857166255" "fl z36 = Num z36"
    by blast
  have "\<exists>z. jadd (Num 400) (Num (- z16)) = Num z \<and> - (33094512585387 / 1073741824) \<le> z \<and> z \<le> - (16547256292693 / 536870912) \<and> fl z = Num z"
    by (rule sub_ex [OF order_refl [of "400::real"] order_refl [of "400::real"] z16(2) z16(3)]) (simp_all add: fl_grid fl_whole)
  then obtain z37 where z37: "jadd (Num 400) (Num (- z16)) = Num z37" "- (33094512585387 / 1073741824) \<le> z37" "z37 \<le> - (16547256292693 / 536870912)" "fl z37 = Num z37"
    by blast
  have "\<exists>z. Math_pow2 (Num z37) = Num z \<and> 949975136 \<le> z \<and> z \<le> 949975137 \<and> fl z = Num z"
    by (rule sq_neg_ex [OF z37(2) z37(3)]) (simp_all add: fl_grid fl_whole)
  then obtain z38 where z38: "Math_pow2 (Num z37) = Num z38" "949975136 \<le> z38" "z38 \<le> 949975137" "fl z38 = Num z38"
    by blast
  have "\<exists>z. jadd (Num z36) (Num z38) = Num z \<and> 4807141387 \<le> z \<and> z \<le> 4807141392 \<and> fl z = Num z"
    by (rule add_ex [OF z36(2) z36(3) z38(2) z38(3)]) (simp_all add: fl_grid fl_whole)
  then obtain z39 where z39: "jadd (Num z36) (Num z38) = Num z39" "4807141387 \<le> z39" "z39 \<le> 4807141392" "fl z39 = Num z39"
    by blast
  have "\<exists>z. jadd (Num 500) (Num (- z16)) = Num z \<and> - (32987138402987 / 1073741824) \<le> z \<and> z \<le> - (16493569201493 / 536870912) \<and> fl z = Num z"
    by (rule sub_ex [OF order_refl [of "500::real"] order_refl [of "500::real"] z16(2) z16(3)]) (simp_all add: fl_grid fl_whole)
  then obtain z40 where z40: "jadd (Num 500) (Num (- z16)) = Num z40" "- (32987138402987 / 1073741824) \<le> z40" "z40 \<le> - (16493569201493 / 536870912)" "fl z40 = Num z40"
    by blast
  have "\<exists>z. Math_pow2 (Num z40) = Num z \<and> 943820802 \<le> z \<and> z \<le> 943820803 \<and> fl z = Num z"
    by (rule sq_neg_ex [OF z40(2) z40(3)]) (simp_all add: fl_grid fl_whole)
  then obtain z41 where z41: "Math_pow2 (Num z40) = Num z41" "943820802 \<le> z41" "z41 \<le> 943820803" "fl z41 = Num z41"
    by blast
  have "\<exists>z. jadd (Num z39) (Num z41) = Num z \<and> 5750962189 \<le> z \<and> z \<le> 5750962195 \<and> fl z = Num z"
    by (rule add_ex [OF z39(2) z39(3) z41(2) z41(3)]) (simp_all add: fl_grid fl_whole)
  then obtain z42 where z42: "jadd (Num z39) (Num z41) = Num z42" "5750962189 \<le> z42" "z42 \<le> 5750962195" "fl z42 = Num z42"
    by blast
  have "\<exists>z. jadd (Num 750) (Num (- z16)) = Num z \<and> - (32718702946987 / 1073741824) \<le> z \<and> z \<le> - (16359351473493 / 536870912) \<and> fl z = Num z"
    by (rule sub_ex [OF order_refl [of "750::real"] order_refl [of "750::real"] z16(2) z16(3)]) (simp_all add: fl_grid fl_whole)
  then obtain z43 where z43: "jadd (Num 750) (Num (- z16)) = Num z43" "- (32718702946987 / 1073741824) \<le> z43" "z43 \<le> - (16359351473493 / 536870912)" "fl z43 = Num z43"
    by blast
  have "\<exists>z. Math_pow2 (Num z43) = Num z \<and> 928522469 \<le> z \<and> z \<le> 928522470 \<and> fl z = Num z"
    by (rule sq_neg_ex [OF z43(2) z43(3)]) (simp_all add: fl_grid fl_whole)
  then obtain z44 where z44: "Math_pow2 (Num z43) = Num z44" "928522469 \<le> z44" "z44 \<le> 928522470" "fl z44 = Num z44"
    by blast
  have "\<exists>z. jadd (Num z42) (Num z44) = Num z \<and> 6679484658 \<le> z \<and> z \<le> 6679484665 \<and> fl z = Num z"
    by (rule add_ex [OF z42(2) z42(3) z44(2) z44(3)]) (simp_all add: fl_grid fl_whole)
  then obtain z45 where z45: "jadd (Num z42) (Num z44) = Num z45" "6679484658 \<le> z45" "z45 \<le> 6679484665" "fl z45 = Num z45"
    by blast
  have "\<exists>z. jadd (Num 1000) (Num (- z16)) = Num z \<and> - (32450267490987 / 1073741824) \<le> z \<and> z \<le> - (16225133745493 / 536870912) \<and> fl z = Num z"
    by (rule sub_ex [OF order_refl [of "1000::real"] order_refl [of "1000::real"] z16(2) z16(3)]) (simp_all add: fl_grid fl_whole)
  then obtain z46 where z46: "jadd (Num 1000) (Num (- z16)) = Num z46" "- (32450267490987 / 1073741824) \<le> z46" "z46 \<le> - (16225133745493 / 536870912)" "fl z46 = Num z46"
    by blast
  have "\<exists>z. Math_pow2 (Num z46) = Num z \<and> 913349136 \<le> z \<and> z \<le> 913349137 \<and> fl z = Num z"
    by (rule sq_neg_ex [OF z46(2) z46(3)]) (simp_all add: fl_grid fl_whole)
  then obtain z47 where z47: "Math_pow2 (Num z46) = Num z47" "913349136 \<le> z47" "z47 \<le> 913349137" "fl z47 = Num z47"
    by blast
  have "\<exists>z. jadd (Num z45) (Num z47) = Num z \<and> 7592833794 \<le> z \<and> z \<le> 7592833802 \<and> fl z = Num z"
    by (rule add_ex [OF z45(2) z45(3) z47(2) z47(3)]) (simp_all add: fl_grid fl_whole)
  then obtain z48 where z48: "jadd (Num z45) (Num z47) = Num z48" "7592833794 \<le> z48" "z48 \<le> 7592833802" "fl z48 = Num z48"
    by blast
  have "\<exists>z. jadd (Num 5000) (Num (- z16)) = Num z \<and> - (28155300194987 / 1073741824) \<le> z \<and> z \<le> - (14077650097493 / 536870912) \<and> fl z = Num z"
    by (rule sub_ex [OF order_refl [of "5000::real"] order_refl [of "5000::real"] z16(2) z16(3)]) (simp_all add: fl_grid fl_whole)
  then obtain z49 where z49: "jadd (Num 5000) (Num (- z16)) = Num z49" "- (28155300194987 / 1073741824) \<le> z49" "z49 \<le> - (14077650097493 / 536870912)" "fl z49 = Num z49"
    by blast
  have "\<exists>z. Math_pow2 (Num z49) = Num z \<and> 687575802 \<le> z \<and> z \<le> 687575803 \<and> fl z = Num z"
    by (rule sq_neg_ex [OF z49(2) z49(3)]) (simp_all add: fl_grid fl_whole)
  then obtain z50 where z50: "Math_pow2 (Num z49) = Num z50" "687575802 \<le> z50" "z50 \<le> 687575803" "fl z50 = Num z50"
    by blast
  have "\<exists>z. jadd (Num z48) (Num z50) = Num z \<and> 8280409596 \<le> z \<and> z \<le> 8280409605 \<and> fl z = Num z"
    by (rule add_ex [OF z48(2) z48(3) z50(2) z50(3)]) (simp_all add: fl_grid fl_whole)
  then obtain z51 where z51: "jadd (Num z48) (Num z50) = Num z51" "8280409596 \<le> z51" "z51 \<le> 8280409605" "fl z51 = Num z51"
    by blast
  have "\<exists>z. jadd (Num 10000) (Num (- z16)) = Num z \<and> - (22786591074987 / 1073741824) \<le> z \<and> z \<le> - (11393295537493 / 536870912) \<and> fl z = Num z"
    by (rule sub_ex [OF order_refl [of "10000::real"] order_refl [of "10000::real"] z16(2) z16(3)]) (simp_all add: fl_grid fl_whole)
  then obtain z52 where z52: "jadd (Num 10000) (Num (- z16)) = Num z52" "- (22786591074987 / 1073741824) \<le> z52" "z52 \<le> - (11393295537493 / 536870912)" "fl z52 = Num z52"
    by blast
  have "\<exists>z. Math_pow2 (Num z52) = Num z \<and> 450359136 \<le> z \<and> z \<le> 450359137 \<and> fl z = Num z"
    by (rule sq_neg_ex [OF z52(2) z52(3)]) (simp_all add: fl_grid fl_whole)
  then obtain z53 where z53: "Math_pow2 (Num z52) = Num z53" "450359136 \<le> z53" "z53 \<le> 450359137" "fl z53 = Num z53"
    by blast
  have "\<exists>z. jadd (Num z51) (Num z53) = Num z \<and> 8730768732 \<le> z \<and> z \<le> 8730768742 \<and> fl z = Num z"
    by (rule add_ex [OF z51(2) z51(3) z53(2) z53(3)]) (simp_all add: fl_grid fl_whole)
  then obtain z54 where z54: "jadd (Num z51) (Num z53) = Num z54" "8730768732 \<le> z54" "z54 \<le> 8730768742" "fl z54 = Num z54"
    by blast
  have "\<exists>z. jadd (Num 25000) (Num (- z16)) = Num z \<and> - (6680463714987 / 1073741824) \<le> z \<and> z \<le> - (3340231857493 / 536870912) \<and> fl z = Num z"
    by (rule sub_ex [OF order_refl [of "25000::real"] order_refl [of "25000::real"] z16(2) z16(3)]) (simp_all add: fl_grid fl_whole)
  then obtain z55 where z55: "jadd (Num 25000) (Num (- z16)) = Num z55" "- (6680463714987 / 1073741824) \<le> z55" "z55 \<le> - (3340231857493 / 536870912)" "fl z55 = Num z55"
    by blast
  have "\<exists>z. Math_pow2 (Num z55) = Num z \<and> 38709136 \<le> z \<and> z \<le> 38709137 \<and> fl z = Num z"
    by (rule sq_neg_ex [OF z55(2) z55(3)]) (simp_all add: fl_grid fl_whole)
  then obtain z56 where z56: "Math_pow2 (Num z55) = Num z56" "38709136 \<le> z56" "z56 \<le> 38709137" "fl z56 = Num z56"
    by blast
  have "\<exists>z. jadd (Num z54) (Num z56) = Num z \<and> 8769477868 \<le> z \<and> z \<le> 8769477879 \<and> fl z = Num z"
    by (rule add_ex [OF z54(2) z54(3) z56(2) z56(3)]) (simp_all add: fl_grid fl_whole)
  then obtain z57 where z57: "jadd (Num z54) (Num z56) = Num z57" "8769477868 \<le> z57" "z57 \<le> 8769477879" "fl z57 = Num z57"
    by blast
  have "\<exists>z. jadd (Num 50000) (Num (- z16)) = Num z \<and> 20163081885013 / 1073741824 \<le> z \<and> z \<le> 10081540942507 / 536870912 \<and> fl z = Num z"
    by (rule sub_ex [OF order_refl [of "50000::real"] order_refl [of "50000::real"] z16(2) z16(3)]) (simp_all add: fl_grid fl_whole)
  then obtain z58 where z58: "jadd (Num 50000) (Num (- z16)) = Num z58" "20163081885013 / 1073741824 \<le> z58" "z58 \<le> 10081540942507 / 536870912" "fl z58 = Num z58"
    by blast
  have "\<exists>z. Math_pow2 (Num z58) = Num z \<and> 352625802 \<le> z \<and> z \<le> 352625803 \<and> fl z = Num z"
    by (rule sq_pos_ex [OF z58(2) z58(3)]) (simp_all add: fl_grid fl_whole)
  then obtain z59 where z59: "Math_pow2 (Num z58) = Num z59" "352625802 \<le> z59" "z59 \<le> 352625803" "fl z59 = Num z59"
    by blast
  have "\<exists>z. jadd (Num z57) (Num z59) = Num z \<and> 9122103670 \<le> z \<and> z \<le> 9122103682 \<and> fl z = Num z"
    by (rule add_ex [OF z57(2) z57(3) z59(2) z59(3)]) (simp_all add: fl_grid fl_whole)
  then obtain z60 where z60: "jadd (Num z57) (Num z59) = Num z60" "9122103670 \<le> z60" "z60 \<le> 9122103682" "fl z60 = Num z60"
    by blast
  have "\<exists>z. jadd (Num 75000) (Num (- z16)) = Num z \<and> 47006627485013 / 1073741824 \<le> z \<and> z \<le> 23503313742507 / 536870912 \<and> fl z = Num z"
    by (rule sub_ex [OF order_refl [of "75000::real"] order_refl [of "75000::real"] z16(2) z16(3)]) (simp_all add: fl_grid fl_whole)
  then obtain z61 where z61: "jadd (Num 75000) (Num (- z16)) = Num z61" "47006627485013 / 1073741824 \<le> z61" "z61 \<le> 23503313742507 / 536870912" "fl z61 = Num z61"
    by blast
  have "\<exists>z. Math_pow2 (Num z61) = Num z \<and> 1916542469 \<le> z \<and> z \<le> 1916542470 \<and> fl z = Num z"
    by (rule sq_pos_ex [OF z61(2) z61(3)]) (simp_all add: fl_grid fl_whole)
  then obtain z62 where z62: "Math_pow2 (Num z61) = Num z62" "1916542469 \<le> z62" "z62 \<le> 1916542470" "fl z62 = Num z62"
    by blast
  have "\<exists>z. jadd (Num z60) (Num z62) = Num z \<and> 11038646139 \<le> z \<and> z \<le> 11038646152 \<and> fl z = Num z"
    by (rule add_ex [OF z60(2) z60(3) z62(2) z62(3)]) (simp_all add: fl_grid fl_whole)
  then obtain z63 where z63: "jadd (Num z60) (Num z62) = Num z63" "11038646139 \<le> z63" "z63 \<le> 11038646152" "fl z63 = Num z63"
    by blast
  have "\<exists>z. jadd (Num 100000) (Num (- z16)) = Num z \<and> 73850173085013 / 1073741824 \<le> z \<and> z \<le> 36925086542507 / 536870912 \<and> fl z = Num z"
    by (rule sub_ex [OF order_refl [of "100000::real"] order_refl [of "100000::real"] z16(2) z16(3)]) (simp_all add: fl_grid fl_whole)
  then obtain z64 where z64: "jadd (Num 100000) (Num (- z16)) = Num z64" "73850173085013 / 1073741824 \<le> z64" "z64 \<le> 36925086542507 / 536870912" "fl z64 = Num z64"
    by blast
  have "\<exists>z. Math_pow2 (Num z64) = Num z \<and> 4730459136 \<le> z \<and> z \<le> 4730459137 \<and> fl z = Num z"
    by (rule sq_pos_ex [OF z64(2) z64(3)]) (simp_all add: fl_grid fl_whole)
  then obtain z65 where z65: "Math_pow2 (Num z64) = Num z65" "4730459136 \<le> z65" "z65 \<le> 4730459137" "fl z65 = Num z65"
    by blast
  have "\<exists>z. jadd (Num z63) (Num z65) = Num z \<and> 15769105275 \<le> z \<and> z \<le> 15769105289 \<and> fl z = Num z"
    by (rule add_ex [OF z63(2) z63(3) z65(2) z65(3)]) (simp_all add: fl_grid fl_whole)
  then obtain z66 where z66: "jadd (Num z63) (Num z65) = Num z66" "15769105275 \<le> z66" "z66 \<le> 15769105289" "fl z66 = Num z66"
    by blast
  have "\<exists>z. jadd (Num 200000) (Num (- z16)) = Num z \<and> 181224355485013 / 1073741824 \<le> z \<and> z \<le> 90612177742507 / 536870912 \<and> fl z = Num z"
    by (rule sub_ex [OF order_refl [of "200000::real"] order_refl [of "200000::real"] z16(2) z16(3)]) (simp_all add: fl_grid fl_whole)
  then obtain z67 where z67: "jadd (Num 200000) (Num (- z16)) = Num z67" "181224355485013 / 1073741824 \<le> z67" "z67 \<le> 90612177742507 / 536870912" "fl z67 = Num z67"
    by blast
  have "\<exists>z. Math_pow2 (Num z67) = Num z \<and> 28486125802 \<le> z \<and> z \<le> 28486125803 \<and> fl z = Num z"
    by (rule sq_pos_ex [OF z67(2) z67(3)]) (simp_all add: fl_grid fl_whole)
  then obtain z68 where z68: "Math_pow2 (Num z67) = Num z68" "28486125802 \<le> z68" "z68 \<le> 28486125803" "fl z68 = Num z68"
    by blast
  have "\<exists>z. jadd (Num z66) (Num z68) = Num z \<and> 44255231077 \<le> z \<and> z \<le> 44255231092 \<and> fl z = Num z"
    by (rule add_ex [OF z66(2) z66(3) z68(2) z68(3)]) (simp_all add: fl_grid fl_whole)
  then obtain z69 where z69: "jadd (Num z66) (Num z68) = Num z69" "44255231077 \<le> z69" "z69 \<le> 44255231092" "fl z69 = Num z69"
    by blast
  have "\<exists>z. jdiv (Num z69) (Num 15) = Num z \<and> 2950348738 \<le> z \<and> z \<le> 2950348740 \<and> fl z = Num z"
    by (rule div_ex [OF z69(2) z69(3) order_refl [of "15::real"] order_refl [of "15::real"]]) (simp_all add: fl_grid fl_whole)
  then obtain z70 where z70: "jdiv (Num z69) (Num 15) = Num z70" "2950348738 \<le> z70" "z70 \<le> 2950348740" "fl z70 = Num z70"
    by blast
  have "\<exists>z. jsqrt (Num z70) = Num z \<and> 29161277861789 / 536870912 \<le> z \<and> z \<le> 58322555743347 / 1073741824 \<and> fl z = Num z"
    by (rule sqrt_ex [OF z70(2) z70(3)]) (simp_all add: fl_grid fl_whole)
  then obtain z71 where z71: "jsqrt (Num z70) = Num z71" "29161277861789 / 536870912 \<le> z71" "z71 \<le> 58322555743347 / 1073741824" "fl z71 = Num z71"
    by blast
  have "\<exists>z. jdiv (Num z71) (Num z16) = Num z \<and> 934007725 / 536870912 \<le> z \<and> z \<le> 467003863 / 268435456 \<and> fl z = Num z"
    by (rule div_ex [OF z71(2) z71(3) z16(2) z16(3)]) (simp_all add: fl_grid fl_whole)
  then obtain z72 where z72: "jdiv (Num z71) (Num z16) = Num z72" "934007725 / 536870912 \<le> z72" "z72 \<le> 467003863 / 268435456" "fl z72 = Num z72"
    by blast
  have d73: "\<not> 2 < z72"
    using z72(2,3) by simp
  have d74: "(3 / 2) < z72"
    using z72(2,3) by simp
  have "\<exists>z. fl (9 / 10) = Num z \<and> 966367641 / 1073741824 \<le> z \<and> z \<le> 483183821 / 536870912 \<and> fl z = Num z"
    by (rule lit_ex) (simp_all add: fl_grid fl_whole)
  then obtain c75 where c75: "fl (9 / 10) = Num c75" "966367641 / 1073741824 \<le> c75" "c75 \<le> 483183821 / 536870912" "fl c75 = Num c75"
    by blast
  have s_risk: "getRiskMultiplier64 [Num 75, Num 100, Num 200, Num 300, Num 400, Num 500, Num 750, Num 1000, Num 5000, Num 10000, Num 25000, Num 50000, Num 75000, Num 100000, Num 200000] = Num c75"
    unfolding getRiskMultiplier64_def jsub_def Let_def s_mean s_rm s_pm
    using z72(2,3)
    by (simp add: fl_grid z25(1) z26(1) e27 z28(1) z29(1) z30(1) z31(1) z32(1) z33(1) z34(1) z35(1) z36(1) z37(1) z38(1) z39(1) z40(1) z41(1) z42(1) z43(1) z44(1) z45(1) z46(1) z47(1) z48(1) z49(1) z50(1) z51(1) z52(1) z53(1) z54(1) z55(1) z56(1) z57(1) z58(1) z59(1) z60(1) z61(1) z62(1) z63(1) z64(1) z65(1) z66(1) z67(1) z68(1) z69(1) z70(1) z71(1) z72(1) d73 d74 c17(1) c20(1) c23(1) c75(1) 
          del: jadd.simps jmul.simps jdiv.simps jsqrt.simps Math_pow2.simps Math_round64.simps)
  have "\<exists>z. jmul (Num z16) (Num c17) = Num z \<and> 2933350811939 / 268435456 \<le> z \<and> z \<le> 11733403278979 / 1073741824 \<and> fl z = Num z"
    by (rule mul_ex [OF z16(2) z16(3) c17(2) c17(3)]) (simp_all add: fl_grid fl_whole)
  then obtain z76 where z76: "jmul (Num z16) (Num c17) = Num z76" "2933350811939 / 268435456 \<le> z76" "z76 \<le> 11733403278979 / 1073741824" "fl z76 = Num z76"
    by blast
  have e77: "jmul (Num z76) (Num 1) = Num z76"
    using z76(4) by simp
  have "\<exists>z. jmul (Num z76) (Num c75) = Num z \<and> 10560062916423 / 1073741824 \<le> z \<and> z \<le> 10560062955453 / 1073741824 \<and> fl z = Num z"
    by (rule mul_ex [OF z76(2) z76(3) c75(2) c75(3)]) (simp_all add: fl_grid fl_whole)
  then obtain z78 where z78: "jmul (Num z76) (Num c75) = Num z78" "10560062916423 / 1073741824 \<le> z78" "z78 \<le> 10560062955453 / 1073741824" "fl z78 = Num z78"
    by blast
  have s_floored: "flooredOffer64 bankerAfterRound1_64 [Num 75, Num 100, Num 200, Num 300, Num 400, Num 500, Num 750, Num 1000, Num 5000, Num 10000, Num 25000, Num 50000, Num 75000, Num 100000, Num 200000] 2 = Num z78"
    unfolding flooredOffer64_def Let_def s_mean s_rm s_pm s_risk
    by (simp add:  z76(1) e77 z78(1) c17(1) c20(1) c23(1) c75(1) 
          del: jadd.simps jmul.simps jdiv.simps jsqrt.simps Math_pow2.simps Math_round64.simps)
  have "\<exists>z. fl (19 / 20) = Num z \<and> 255013683 / 268435456 \<le> z \<and> z \<le> 1020054733 / 1073741824 \<and> fl z = Num z"
    by (rule lit_ex) (simp_all add: fl_grid fl_whole)
  then obtain c79 where c79: "fl (19 / 20) = Num c79" "255013683 / 268435456 \<le> c79" "c79 \<le> 1020054733 / 1073741824" "fl c79 = Num c79"
    by blast
  have "\<exists>z. fl (1 / 10) = Num z \<and> 53687091 / 536870912 \<le> z \<and> z \<le> 107374183 / 1073741824 \<and> fl z = Num z"
    by (rule lit_ex) (simp_all add: fl_grid fl_whole)
  then obtain c80 where c80: "fl (1 / 10) = Num c80" "53687091 / 536870912 \<le> c80" "c80 \<le> 107374183 / 1073741824" "fl c80 = Num c80"
    by blast
  have "\<exists>z. jmul (Num (1 / 2)) (Num c80) = Num z \<and> 53687091 / 1073741824 \<le> z \<and> z \<le> 13421773 / 268435456 \<and> fl z = Num z"
    by (rule mul_ex [OF order_refl [of "(1 / 2)::real"] order_refl [of "(1 / 2)::real"] c80(2) c80(3)]) (simp_all add: fl_grid fl_whole)
  then obtain z81 where z81: "jmul (Num (1 / 2)) (Num c80) = Num z81" "53687091 / 1073741824 \<le> z81" "z81 \<le> 13421773 / 268435456" "fl z81 = Num z81"
    by blast
  have "\<exists>z. jadd (Num c79) (Num z81) = Num z \<and> 1073741823 / 1073741824 \<le> z \<and> z \<le> 1073741825 / 1073741824 \<and> fl z = Num z"
    by (rule add_ex [OF c79(2) c79(3) z81(2) z81(3)]) (simp_all add: fl_grid fl_whole)
  then obtain z82 where z82: "jadd (Num c79) (Num z81) = Num z82" "1073741823 / 1073741824 \<le> z82" "z82 \<le> 1073741825 / 1073741824" "fl z82 = Num z82"
    by blast
  have s_rf: "randomFactor64 (1 / 2) = Num z82"
    unfolding randomFactor64_def Let_def s_mean s_rm s_pm s_risk s_floored
    by (simp add:  z81(1) z82(1) c17(1) c20(1) c23(1) c75(1) c79(1) c80(1) 
          del: jadd.simps jmul.simps jdiv.simps jsqrt.simps Math_pow2.simps Math_round64.simps)
  have "\<exists>z. jmul (Num z78) (Num z82) = Num z \<and> 2640015726647 / 268435456 \<le> z \<and> z \<le> 1320007870661 / 134217728 \<and> fl z = Num z"
    by (rule mul_ex [OF z78(2) z78(3) z82(2) z82(3)]) (simp_all add: fl_grid fl_whole)
  then obtain z83 where z83: "jmul (Num z78) (Num z82) = Num z83" "2640015726647 / 268435456 \<le> z83" "z83 \<le> 1320007870661 / 134217728" "fl z83 = Num z83"
    by blast
  have d84: "\<not> z83 < 100"
    using z83(2,3) by simp
  have d85: "\<not> z83 < 1000"
    using z83(2,3) by simp
  have d86: "z83 < 10000"
    using z83(2,3) by simp
  have "\<exists>z. jdiv (Num z83) (Num 100) = Num z \<and> 105600629065 / 1073741824 \<le> z \<and> z \<le> 105600629653 / 1073741824 \<and> fl z = Num z"
    by (rule div_ex [OF z83(2) z83(3) order_refl [of "100::real"] order_refl [of "100::real"]]) (simp_all add: fl_grid fl_whole)
  then obtain z87 where z87: "jdiv (Num z83) (Num 100) = Num z87" "105600629065 / 1073741824 \<le> z87" "z87 \<le> 105600629653 / 1073741824" "fl z87 = Num z87"
    by blast
  have e88: "Math_round64 (Num z87) = Num 98"
    using round_ex [OF z87(2) z87(3), where n = 98] by simp
  have e89: "jmul (Num 98) (Num 100) = Num 9800"
    by (simp add: fl_grid fl_whole fl_grid4)
  have s_rounded: "roundedOffer64 bankerAfterRound1_64 [Num 75, Num 100, Num 200, Num 300, Num 400, Num 500, Num 750, Num 1000, Num 5000, Num 10000, Num 25000, Num 50000, Num 75000, Num 100000, Num 200000] 2 (1 / 2) = Num 9800"
    unfolding roundedOffer64_def roundOffer64_def Let_def s_mean s_rm s_pm s_risk s_floored s_rf
    using z83(2,3)
    by (simp add:  z83(1) d84 d85 d86 z87(1) e88 e89 c17(1) c20(1) c23(1) c75(1) c79(1) c80(1) 
          del: jadd.simps jmul.simps jdiv.simps jsqrt.simps Math_pow2.simps Math_round64.simps)
  have "\<exists>z. fl (21 / 20) = Num z \<and> 1127428915 / 1073741824 \<le> z \<and> z \<le> 281857229 / 268435456 \<and> fl z = Num z"
    by (rule lit_ex) (simp_all add: fl_grid fl_whole)
  then obtain c90 where c90: "fl (21 / 20) = Num c90" "1127428915 / 1073741824 \<le> c90" "c90 \<le> 281857229 / 268435456" "fl c90 = Num c90"
    by blast
  have "\<exists>z. jmul (Num 38500) (Num c90) = Num z \<and> 10851503306875 / 268435456 \<le> z \<and> z \<le> 2712875829125 / 67108864 \<and> fl z = Num z"
    by (rule mul_ex [OF order_refl [of "38500::real"] order_refl [of "38500::real"] c90(2) c90(3)]) (simp_all add: fl_grid fl_whole)
  then obtain z91 where z91: "jmul (Num 38500) (Num c90) = Num z91" "10851503306875 / 268435456 \<le> z91" "z91 \<le> 2712875829125 / 67108864" "fl z91 = Num z91"
    by blast
  have s_mi: "minIncrease64 bankerAfterRound1_64 = Num z91"
    unfolding minIncrease64_def Let_def s_mean s_rm s_pm s_risk s_floored s_rf s_rounded
    by (simp add:  z91(1) c17(1) c20(1) c23(1) c75(1) c79(1) c80(1) c90(1) bankerAfterRound1_64_def
          del: jadd.simps jmul.simps jdiv.simps jsqrt.simps Math_pow2.simps Math_round64.simps)
  have d92: "9800 \<le> z91"
    using z91(2,3) by simp
  have e93: "jmax (Num 9800) (Num z91) = Num z91"
    using z91(2,3) by (simp add: jmax_def)
  have s_prog: "progressedOffer64 bankerAfterRound1_64 [Num 75, Num 100, Num 200, Num 300, Num 400, Num 500, Num 750, Num 1000, Num 5000, Num 10000, Num 25000, Num 50000, Num 75000, Num 100000, Num 200000] 2 (1 / 2) = Num z91"
    unfolding progressedOffer64_def Let_def s_mean s_rm s_pm s_risk s_floored s_rf s_rounded s_mi
    using z91(2,3)
    by (simp add:  d92 e93 c17(1) c20(1) c23(1) c75(1) c79(1) c80(1) c90(1) bankerAfterRound1_64_def
          del: jadd.simps jmul.simps jdiv.simps jsqrt.simps Math_pow2.simps Math_round64.simps)
  have "\<exists>z. fl (17 / 20) = Num z \<and> 456340275 / 536870912 \<le> z \<and> z \<le> 912680551 / 1073741824 \<and> fl z = Num z"
    by (rule lit_ex) (simp_all add: fl_grid fl_whole)
  then obtain c94 where c94: "fl (17 / 20) = Num c94" "456340275 / 536870912 \<le> c94" "c94 \<le> 912680551 / 1073741824" "fl c94 = Num c94"
    by blast
  have "\<exists>z. jmul (Num z16) (Num c94) = Num z \<and> 28495407905249 / 1073741824 \<le> z \<and> z \<le> 3561925992059 / 134217728 \<and> fl z = Num z"
    by (rule mul_ex [OF z16(2) z16(3) c94(2) c94(3)]) (simp_all add: fl_grid fl_whole)
  then obtain z95 where z95: "jmul (Num z16) (Num c94) = Num z95" "28495407905249 / 1073741824 \<le> z95" "z95 \<le> 3561925992059 / 134217728" "fl z95 = Num z95"
    by blast
  have s_cap: "maxOffer64 ?rv [Num 75, Num 100, Num 200, Num 300, Num 400, Num 500, Num 750, Num 1000, Num 5000, Num 10000, Num 25000, Num 50000, Num 75000, Num 100000, Num 200000] = Num z95"
    unfolding maxOffer64_def Let_def s_mean s_rm s_pm s_risk s_floored s_rf s_rounded s_mi s_prog
    by (simp add:  z95(1) c17(1) c20(1) c23(1) c75(1) c79(1) c80(1) c90(1) c94(1) len
          del: jadd.simps jmul.simps jdiv.simps jsqrt.simps Math_pow2.simps Math_round64.simps)
  have d96: "\<not> z91 \<le> z95"
    using z91(2,3) z95(2,3) by simp
  have e97: "jmin (Num z91) (Num z95) = Num z95"
    using z91(2,3) z95(2,3) by (simp add: jmin_def)
  have s_capped: "cappedOffer64 bankerAfterRound1_64 ?rv [Num 75, Num 100, Num 200, Num 300, Num 400, Num 500, Num 750, Num 1000, Num 5000, Num 10000, Num 25000, Num 50000, Num 75000, Num 100000, Num 200000] 2 (1 / 2) = Num z95"
    unfolding cappedOffer64_def Let_def s_mean s_rm s_pm s_risk s_floored s_rf s_rounded s_mi s_prog s_cap
    using z91(2,3) z95(2,3)
    by (simp add:  d96 e97 c17(1) c20(1) c23(1) c75(1) c79(1) c80(1) c90(1) c94(1) 
          del: jadd.simps jmul.simps jdiv.simps jsqrt.simps Math_pow2.simps Math_round64.simps)
  have d98: "\<not> z95 \<le> 0"
    using z95(2,3) by simp
  have s_safe: "safeOffer64 bankerAfterRound1_64 ?rv [Num 75, Num 100, Num 200, Num 300, Num 400, Num 500, Num 750, Num 1000, Num 5000, Num 10000, Num 25000, Num 50000, Num 75000, Num 100000, Num 200000] 2 (1 / 2) = Num z95"
    unfolding safeOffer64_def Let_def s_mean s_rm s_pm s_risk s_floored s_rf s_rounded s_mi s_prog s_cap s_capped
    using z95(2,3)
    by (simp add:  d98 c17(1) c20(1) c23(1) c75(1) c79(1) c80(1) c90(1) c94(1) 
          del: jadd.simps jmul.simps jdiv.simps jsqrt.simps Math_pow2.simps Math_round64.simps)
  have e99: "Math_round64 (Num z95) = Num 26538"
    using round_ex [OF z95(2) z95(3), where n = 26538] by simp
  have s_ret: "Math_round64 (safeOffer64 bankerAfterRound1_64 ?rv [Num 75, Num 100, Num 200, Num 300, Num 400, Num 500, Num 750, Num 1000, Num 5000, Num 10000, Num 25000, Num 50000, Num 75000, Num 100000, Num 200000] 2 (1 / 2)) = Num 26538"
    unfolding Let_def s_mean s_rm s_pm s_risk s_floored s_rf s_rounded s_mi s_prog s_cap s_capped s_safe
    by (simp add:  e99 c17(1) c20(1) c23(1) c75(1) c79(1) c80(1) c90(1) c94(1) 
          del: jadd.simps jmul.simps jdiv.simps jsqrt.simps Math_pow2.simps Math_round64.simps)
  have d100: "\<not> z91 \<le> 26538"
    using z91(2,3) by simp
  have ne: "?rv \<noteq> []"
    by (simp add: afterRound2_64_def valuesAfterRound2_def)
  show "fst (calculateOffer64 bankerAfterRound1_64 (Some afterRound2_64) 2 (1 / 2)) = Num 26538"
    unfolding calculateOffer64_def option.case Let_def vs s_ret using ne by simp
  show "\<not> jle (minIncrease64 bankerAfterRound1_64) (Num 26538)"
    using d100 by (simp add: s_mi)
qed

text \<open>
  Round 7 with seventeen values and the earlier offer 236995. The ceiling is computed as
  170111.49999999997, the number below 170111.5, and wins over the raised offer; the offer
  returned is 170111 whatever the random draw, where exact arithmetic would give 170112.
\<close>

lemma valid_round7:
  "validValuesOf64 round7_64 = map Num valuesRound7"
  by (simp add: validValuesOf64_def round7_64_def valuesRound7_def)

lemma mean_round7:
  "calculateExpectedValue64 (map Num valuesRound7) = Num (6876454862809449 / 2 ^ 35)"
proof -
  have "calculateExpectedValue64 (map Num valuesRound7) = fl (3402230 / 17)"
    by (simp add: calculateExpectedValue64_def valuesRound7_def fl_whole)
  also have "\<dots> = Num (of_int (rne (3402230 / 17 / 2 powi (17 - 52))) * 2 powi (17 - 52))"
    by (rule fl_eval) simp_all
  also have "\<dots> = Num (6876454862809449 / 2 ^ 35)"
    by (simp add: rne_def Let_def power_int_minus)
  finally show ?thesis .
qed

lemma cap_round7:
  "maxOffer64 round7_64 (map Num valuesRound7) = Num (5844986633388031 / 2 ^ 35)"
proof -
  let ?x = "6876454862809449 / 2 ^ 35 * (7656119366529843 / 2 ^ 53) :: real"
  have "maxOffer64 round7_64 (map Num valuesRound7) = fl ?x"
    unfolding maxOffer64_def Let_def mean_round7 fl_85_exact
    by (simp add: round7_64_def valuesRound7_def)
  also have "\<dots> = Num (of_int (rne (?x / 2 powi (17 - 52))) * 2 powi (17 - 52))"
    by (rule fl_eval) simp_all
  also have "\<dots> = Num (5844986633388031 / 2 ^ 35)"
    by (simp add: rne_def Let_def power_int_minus)
  finally show ?thesis .
qed

lemma minIncrease_round7:
  "jle (Num (5844986633388031 / 2 ^ 35)) (minIncrease64 bankerRound7_64)"
proof -
  from literal105 obtain y where y: "fl (105 / 100) = Num y" "1 \<le> y" "y \<le> 2" by blast
  have "jle (fl (236995 * 1)) (fl (236995 * y))"
    using y(2) by (intro fl_mono_gen) simp
  then have "jle (Num 236995) (fl (236995 * y))" by (simp add: fl_whole)
  moreover have "jle (Num (5844986633388031 / 2 ^ 35)) (Num 236995)" by simp
  ultimately have "jle (Num (5844986633388031 / 2 ^ 35)) (fl (236995 * y))"
    using jle_trans by blast
  moreover have "minIncrease64 bankerRound7_64 = fl (236995 * y)"
    unfolding minIncrease64_def y(1) by (simp add: bankerRound7_64_def)
  ultimately show ?thesis by simp
qed

lemma bound_round7:
  "Math_round64 (jmin (minIncrease64 bankerRound7_64)
                   (maxOffer64 round7_64 (validValuesOf64 round7_64))) = Num 170111"
proof -
  have "jmin (minIncrease64 bankerRound7_64) (maxOffer64 round7_64 (validValuesOf64 round7_64))
          = Num (5844986633388031 / 2 ^ 35)"
    using jmin_right [OF minIncrease_round7] by (simp add: valid_round7 cap_round7)
  then show ?thesis by simp
qed

lemma offer64_round7:
  assumes rnd: "0 \<le> rnd" "rnd < 1"
  shows "fst (calculateOffer64 bankerRound7_64 (Some round7_64) 7 rnd) = Num 170111"
proof -
  let ?vs = "validValuesOf64 round7_64"
  have valid: "?vs \<noteq> []" by (simp add: valid_round7 valuesRound7_def)
  have hist: "\<forall>o' \<in> set (offers64 bankerRound7_64). jle (Num 0) o'"
    by (simp add: bankerRound7_64_def)
  have ne: "offers64 bankerRound7_64 \<noteq> []" by (simp add: bankerRound7_64_def)
  have "jle (minIncrease64 bankerRound7_64) (progressedOffer64 bankerRound7_64 ?vs 7 rnd)"
    using progressedOffer64_facts(3) [OF validValuesOf64_nonneg rnd hist ne] by simp
  with minIncrease_round7
  have "jle (Num (5844986633388031 / 2 ^ 35)) (progressedOffer64 bankerRound7_64 ?vs 7 rnd)"
    by (rule jle_trans)
  then have "jle (maxOffer64 round7_64 ?vs) (progressedOffer64 bankerRound7_64 ?vs 7 rnd)"
    by (simp add: valid_round7 cap_round7)
  then have "cappedOffer64 bankerRound7_64 round7_64 ?vs 7 rnd = maxOffer64 round7_64 ?vs"
    unfolding cappedOffer64_def by (rule jmin_right)
  then have c: "cappedOffer64 bankerRound7_64 round7_64 ?vs 7 rnd
                  = Num (5844986633388031 / 2 ^ 35)"
    by (simp add: valid_round7 cap_round7)
  then have "jlt (Num 0) (cappedOffer64 bankerRound7_64 round7_64 ?vs 7 rnd)" by simp
  from returned64(1) [OF valid rnd hist this] show ?thesis by (simp add: c)
qed

subsection \<open>Claims about the offer\<close>

text \<open>
  Claim C1, as the code has it. All numbers are the binary64 numbers the code computes. When
  \<^verbatim>\<open>calculateOffer\<close> is called with a round above 1, at least one valid value and a
  non-empty history of non-negative offers, the offer is raised to at least
  \<^verbatim>\<open>lastOffer * 1.05\<close> before the ceiling is applied; the ceiling \<^verbatim>\<open>maxOffer\<close> (the mean
  times 0.95 when at most 3 values were passed, else times 0.85) comes afterwards and wins.
  The returned offer is therefore at least the smaller of \<^verbatim>\<open>lastOffer * 1.05\<close> and
  \<^verbatim>\<open>maxOffer\<close>, rounded by \<^verbatim>\<open>Math.round\<close>; and the history stays one of non-negative
  offers.
\<close>

theorem offer_progression:
  assumes valid: "validValuesOf64 rv \<noteq> []" and r: "1 < r" and ne: "offers64 b \<noteq> []"
      and hist: "\<forall>o' \<in> set (offers64 b). jle (Num 0) o'"
      and rnd: "0 \<le> rnd" "rnd < 1"
  shows "jle (minIncrease64 b) (progressedOffer64 b (validValuesOf64 rv) r rnd) \<and>
         jle (Math_round64 (jmin (minIncrease64 b) (maxOffer64 rv (validValuesOf64 rv))))
             (fst (calculateOffer64 b (Some rv) r rnd)) \<and>
         (\<forall>o' \<in> set (offers64 (snd (calculateOffer64 b (Some rv) r rnd))). jle (Num 0) o')"
proof -
  let ?vs = "validValuesOf64 rv"
  note vs = validValuesOf64_nonneg [of rv]
  have p: "jle (minIncrease64 b) (progressedOffer64 b ?vs r rnd)"
    using progressedOffer64_facts(3) [OF vs rnd hist ne r] .
  have "jle (jmin (minIncrease64 b) (maxOffer64 rv ?vs)) (cappedOffer64 b rv ?vs r rnd)"
    using cappedOffer64_facts(3) [OF vs rnd hist p] .
  then have "jle (Math_round64 (jmin (minIncrease64 b) (maxOffer64 rv ?vs)))
                 (Math_round64 (cappedOffer64 b rv ?vs r rnd))"
    by (rule Math_round64_mono)
  then have q: "jle (Math_round64 (jmin (minIncrease64 b) (maxOffer64 rv ?vs)))
                    (fst (calculateOffer64 b (Some rv) r rnd))"
    using returned64(3) [OF valid rnd hist] by (rule jle_trans)
  have "jle (Num 0) (fst (calculateOffer64 b (Some rv) r rnd))"
    using returned64(4) [OF valid rnd hist] .
  then have h: "\<forall>o' \<in> set (offers64 (snd (calculateOffer64 b (Some rv) r rnd))). jle (Num 0) o'"
    using hist by (simp add: calculateOffer64_valid [OF valid])
  from p q h show ?thesis by blast
qed

theorem offer_progression_witness:
  "validValuesOf64 round7_64 \<noteq> [] \<and> (1::int) < 7 \<and>
   offers64 bankerRound7_64 = [Num 236995] \<and> jle (Num 0) (Num 236995) \<and>
   (0::real) \<le> 1 / 2 \<and> (1 / 2::real) < 1 \<and>
   jle (minIncrease64 bankerRound7_64)
       (progressedOffer64 bankerRound7_64 (validValuesOf64 round7_64) 7 (1 / 2)) \<and>
   Math_round64 (jmin (minIncrease64 bankerRound7_64)
                   (maxOffer64 round7_64 (validValuesOf64 round7_64))) = Num 170111 \<and>
   jle (Num 170111) (fst (calculateOffer64 bankerRound7_64 (Some round7_64) 7 (1 / 2)))"
proof -
  have 1: "validValuesOf64 round7_64 \<noteq> []" by (simp add: valid_round7 valuesRound7_def)
  have 2: "(1::int) < 7" by simp
  have 3: "offers64 bankerRound7_64 = [Num 236995]" by (simp add: bankerRound7_64_def)
  have 4: "jle (Num 0) (Num 236995)" by simp
  have 5: "(0::real) \<le> 1 / 2" by simp
  have 6: "(1 / 2::real) < 1" by simp
  have ne: "offers64 bankerRound7_64 \<noteq> []" by (simp add: 3)
  have hist: "\<forall>o' \<in> set (offers64 bankerRound7_64). jle (Num 0) o'" by (simp add: 3)
  note t = offer_progression [OF 1 2 ne hist 5 6]
  have 7: "jle (minIncrease64 bankerRound7_64)
             (progressedOffer64 bankerRound7_64 (validValuesOf64 round7_64) 7 (1 / 2))"
    using t by (rule conjunct1)
  have 8: "Math_round64 (jmin (minIncrease64 bankerRound7_64)
                   (maxOffer64 round7_64 (validValuesOf64 round7_64))) = Num 170111"
    by (rule bound_round7)
  have "jle (Math_round64 (jmin (minIncrease64 bankerRound7_64)
                   (maxOffer64 round7_64 (validValuesOf64 round7_64))))
            (fst (calculateOffer64 bankerRound7_64 (Some round7_64) 7 (1 / 2)))"
    using t [THEN conjunct2] by (rule conjunct1)
  then have 9: "jle (Num 170111) (fst (calculateOffer64 bankerRound7_64 (Some round7_64) 7 (1 / 2)))"
    by (simp only: 8)
  show ?thesis by (intro conjI) (rule 1 2 3 4 5 6 7 8 9)+
qed

text \<open>
  Against claim C1 as stated: a session opens the six smallest values and is offered 38500
  in round 1; it then opens the five largest values, and the round 2 offer is 26538, below
  the preceding offer and so below 1.05 times it, because the ceiling of 0.85 times the new
  mean is applied after the increase.
\<close>

theorem offer_progression_counterexample:
  "calculateOffer64 newBanker64 (Some afterRound1_64) 1 (1 / 2)
     = (Num 38500, bankerAfterRound1_64) \<and>
   last (offers64 bankerAfterRound1_64) = Num 38500 \<and>
   fst (calculateOffer64 bankerAfterRound1_64 (Some afterRound2_64) 2 (1 / 2)) = Num 26538 \<and>
   \<not> jle (jmul (last (offers64 bankerAfterRound1_64)) (fl (105 / 100)))
          (fst (calculateOffer64 bankerAfterRound1_64 (Some afterRound2_64) 2 (1 / 2))) \<and>
   \<not> jle (last (offers64 bankerAfterRound1_64))
          (fst (calculateOffer64 bankerAfterRound1_64 (Some afterRound2_64) 2 (1 / 2)))"
proof -
  have 1: "last (offers64 bankerAfterRound1_64) = Num 38500"
    by (simp add: bankerAfterRound1_64_def)
  have 2: "\<not> jle (jmul (last (offers64 bankerAfterRound1_64)) (fl (105 / 100)))
          (fst (calculateOffer64 bankerAfterRound1_64 (Some afterRound2_64) 2 (1 / 2)))"
    using offer64_round2(2) unfolding offer64_round2(1) minIncrease64_def .
  have 3: "\<not> jle (last (offers64 bankerAfterRound1_64))
          (fst (calculateOffer64 bankerAfterRound1_64 (Some afterRound2_64) 2 (1 / 2)))"
    by (simp add: offer64_round2(1) 1)
  show ?thesis by (intro conjI) (rule offer64_round1 1 offer64_round2(1) 2 3)+
qed

text \<open>
  Claim C2, as the code has it. All numbers are the binary64 numbers the code computes. For a
  non-empty array of valid values, a history of non-negative offers and a random draw in
  [0, 1), with \<open>mean\<close> the expected value as \<^verbatim>\<open>calculateExpectedValue\<close> returns it: the
  ceiling \<^verbatim>\<open>maxOffer\<close> is the mean times 0.95 when at most 3 values were passed and times
  0.85 otherwise, and the offer after the ceiling step is at most that. If that offer is
  positive, the returned offer is its rounding by \<^verbatim>\<open>Math.round\<close>, which is at most the
  rounded ceiling (and can exceed the ceiling itself); if not, the returned offer is the
  rounded fallback, the larger of 1 and a tenth of the smallest value. When at most 3 values
  remain, the offer right after the floor step is at least the mean times 0.85, and the
  returned offer is at least the rounding of the smaller of the ceiling and
  \<^verbatim>\<open>roundOffer(mean * 0.85 * 0.95)\<close>, the least the random factor and the bracket rounding
  can leave of the floor.
\<close>

theorem offer_bounds:
  assumes ne: "rv \<noteq> []" and ok: "\<forall>v \<in> set rv. isValidValue64 v"
      and hist: "\<forall>o' \<in> set (offers64 b). jle (Num 0) o'"
      and rnd: "0 \<le> rnd" "rnd < 1"
  shows "let vs = validValuesOf64 rv;
             mean = calculateExpectedValue64 vs;
             cap = jmul mean (if length rv \<le> 3 then fl (95 / 100) else fl (85 / 100));
             capped = cappedOffer64 b rv vs r rnd;
             returned = fst (calculateOffer64 b (Some rv) r rnd)
         in maxOffer64 rv vs = cap \<and>
            jle capped cap \<and>
            (jlt (Num 0) capped \<longrightarrow>
               returned = Math_round64 capped \<and> jle returned (Math_round64 cap)) \<and>
            (\<not> jlt (Num 0) capped \<longrightarrow> returned = Math_round64 (fallbackOffer64 vs)) \<and>
            (length rv \<le> 3 \<longrightarrow>
               jle (jmul mean (fl (85 / 100))) (flooredOffer64 b vs r) \<and>
               jle (Math_round64
                      (jmin (roundOffer64 (jmul (jmul mean (fl (85 / 100))) (fl (95 / 100))))
                         cap))
                   returned)"
proof -
  let ?vs = "validValuesOf64 rv"
  let ?mean = "calculateExpectedValue64 ?vs"
  let ?cap = "jmul ?mean (if length rv \<le> 3 then fl (95 / 100) else fl (85 / 100))"
  let ?capped = "cappedOffer64 b rv ?vs r rnd"
  let ?ret = "fst (calculateOffer64 b (Some rv) r rnd)"
  note vs = validValuesOf64_nonneg [of rv]
  have len: "length ?vs = length rv" using ok by (simp add: validValuesOf64_def)
  with ne have valid: "?vs \<noteq> []" by auto
  have cap: "maxOffer64 rv ?vs = ?cap" by (simp add: maxOffer64_def Let_def)
  note c = cappedOffer64_facts [OF vs rnd hist, where rv = rv and r = r]
  note ret = returned64 [OF valid rnd hist, where r = r]
  have a: "jle ?capped ?cap" using c(2) by (simp only: cap)
  have b1: "?ret = Math_round64 ?capped \<and> jle ?ret (Math_round64 ?cap)" if "jlt (Num 0) ?capped"
    using ret(1) [OF that] Math_round64_mono [OF a] by simp
  have b2: "?ret = Math_round64 (fallbackOffer64 ?vs)" if "\<not> jlt (Num 0) ?capped"
    using ret(2) [OF that] .
  have c1: "jle (jmul ?mean (fl (85 / 100))) (flooredOffer64 b ?vs r)" if "length rv \<le> 3"
    using flooredOffer64_floor [OF vs] that len by simp
  have c2: "jle (Math_round64
                   (jmin (roundOffer64 (jmul (jmul ?mean (fl (85 / 100))) (fl (95 / 100)))) ?cap))
                ?ret" if "length rv \<le> 3"
  proof -
    have "jle (roundOffer64 (jmul (jmul ?mean (fl (85 / 100))) (fl (95 / 100))))
              (roundedOffer64 b ?vs r rnd)"
      using roundedOffer64_floor [OF vs rnd] that len by simp
    then have "jle (roundOffer64 (jmul (jmul ?mean (fl (85 / 100))) (fl (95 / 100))))
              (progressedOffer64 b ?vs r rnd)"
      using progressedOffer64_facts(2) [OF vs rnd hist] by (rule jle_trans)
    from cappedOffer64_facts(3) [OF vs rnd hist this, where rv = rv]
    have "jle (jmin (roundOffer64 (jmul (jmul ?mean (fl (85 / 100))) (fl (95 / 100)))) ?cap)
              ?capped"
      by (simp only: cap)
    then have "jle (Math_round64
                   (jmin (roundOffer64 (jmul (jmul ?mean (fl (85 / 100))) (fl (95 / 100)))) ?cap))
               (Math_round64 ?capped)"
      by (rule Math_round64_mono)
    then show ?thesis using ret(3) by (rule jle_trans)
  qed
  show ?thesis
    unfolding Let_def
  proof (intro conjI impI)
    show "maxOffer64 rv ?vs = ?cap" by (rule cap)
    show "jle ?capped ?cap" by (rule a)
    show "?ret = Math_round64 ?capped" if "jlt (Num 0) ?capped"
      using b1 [OF that] by (rule conjunct1)
    show "jle ?ret (Math_round64 ?cap)" if "jlt (Num 0) ?capped"
      using b1 [OF that] by (rule conjunct2)
    show "?ret = Math_round64 (fallbackOffer64 ?vs)" if "\<not> jlt (Num 0) ?capped"
      using that by (rule b2)
    show "jle (jmul ?mean (fl (85 / 100))) (flooredOffer64 b ?vs r)" if "length rv \<le> 3"
      using that by (rule c1)
    show "jle (Math_round64
                 (jmin (roundOffer64 (jmul (jmul ?mean (fl (85 / 100))) (fl (95 / 100)))) ?cap))
              ?ret" if "length rv \<le> 3"
      using that by (rule c2)
  qed
qed

theorem offer_bounds_witness:
  "[JNumber (Num 1), JNumber (Num 5), JNumber (Num 25)] \<noteq> [] \<and>
   isValidValue64 (JNumber (Num 1)) \<and> isValidValue64 (JNumber (Num 5)) \<and>
   isValidValue64 (JNumber (Num 25)) \<and> offers64 newBanker64 = [] \<and>
   (0::real) \<le> 1 / 2 \<and> (1 / 2::real) < 1 \<and>
   validValuesOf64 [JNumber (Num 1), JNumber (Num 5), JNumber (Num 25)] = [Num 1, Num 5, Num 25] \<and>
   jle (cappedOffer64 newBanker64 [JNumber (Num 1), JNumber (Num 5), JNumber (Num 25)]
          [Num 1, Num 5, Num 25] 1 (1 / 2))
       (jmul (calculateExpectedValue64 [Num 1, Num 5, Num 25]) (fl (95 / 100))) \<and>
   jlt (Num 0) (cappedOffer64 newBanker64 [JNumber (Num 1), JNumber (Num 5), JNumber (Num 25)]
          [Num 1, Num 5, Num 25] 1 (1 / 2)) \<and>
   fst (calculateOffer64 newBanker64 (Some [JNumber (Num 1), JNumber (Num 5), JNumber (Num 25)])
          1 (1 / 2))
     = Math_round64 (cappedOffer64 newBanker64 [JNumber (Num 1), JNumber (Num 5), JNumber (Num 25)]
          [Num 1, Num 5, Num 25] 1 (1 / 2)) \<and>
   jle (fst (calculateOffer64 newBanker64
               (Some [JNumber (Num 1), JNumber (Num 5), JNumber (Num 25)]) 1 (1 / 2)))
       (Math_round64 (jmul (calculateExpectedValue64 [Num 1, Num 5, Num 25]) (fl (95 / 100)))) \<and>
   jle (jmul (calculateExpectedValue64 [Num 1, Num 5, Num 25]) (fl (85 / 100)))
       (flooredOffer64 newBanker64 [Num 1, Num 5, Num 25] 1) \<and>
   jle (Math_round64
          (jmin (roundOffer64 (jmul (jmul (calculateExpectedValue64 [Num 1, Num 5, Num 25])
                                       (fl (85 / 100))) (fl (95 / 100))))
             (jmul (calculateExpectedValue64 [Num 1, Num 5, Num 25]) (fl (95 / 100)))))
       (fst (calculateOffer64 newBanker64
               (Some [JNumber (Num 1), JNumber (Num 5), JNumber (Num 25)]) 1 (1 / 2)))"
proof -
  let ?rv = "[JNumber (Num 1), JNumber (Num 5), JNumber (Num 25)]"
  let ?vs = "[Num 1, Num 5, Num 25]"
  let ?mean = "calculateExpectedValue64 ?vs"
  let ?cap = "jmul ?mean (fl (95 / 100))"
  let ?capped = "cappedOffer64 newBanker64 ?rv ?vs 1 (1 / 2)"
  let ?ret = "fst (calculateOffer64 newBanker64 (Some ?rv) 1 (1 / 2))"
  have 1: "?rv \<noteq> []" by simp
  have 2: "isValidValue64 (JNumber (Num 1))" by simp
  have 3: "isValidValue64 (JNumber (Num 5))" by simp
  have 4: "isValidValue64 (JNumber (Num 25))" by simp
  have 5: "offers64 newBanker64 = []" by (simp add: newBanker64_def)
  have 6: "(0::real) \<le> 1 / 2" by simp
  have 7: "(1 / 2::real) < 1" by simp
  have 8: "validValuesOf64 ?rv = ?vs" by (simp add: validValuesOf64_def)
  have ok: "\<forall>v \<in> set ?rv. isValidValue64 v" by simp
  have hist: "\<forall>o' \<in> set (offers64 newBanker64). jle (Num 0) o'" by (simp add: 5)
  have len: "length ?rv \<le> 3" by simp
  note t = offer_bounds [OF 1 ok hist 6 7, where r = 1, unfolded Let_def 8]
  have 9: "jle ?capped ?cap"
    using t [THEN conjunct2, THEN conjunct1] by simp
  have 10: "jlt (Num 0) ?capped" by (rule offer64_1_5_25(4))
  have a: "?ret = Math_round64 ?capped \<and> jle ?ret (Math_round64 (jmul ?mean (if length ?rv \<le> 3 then fl (95 / 100) else fl (85 / 100))))"
    using t [THEN conjunct2, THEN conjunct2, THEN conjunct1] 10 by (rule mp)
  have 11: "?ret = Math_round64 ?capped" using a by (rule conjunct1)
  have 12: "jle ?ret (Math_round64 ?cap)" using a [THEN conjunct2] by simp
  have b: "jle (jmul ?mean (fl (85 / 100))) (flooredOffer64 newBanker64 ?vs 1) \<and>
           jle (Math_round64 (jmin (roundOffer64 (jmul (jmul ?mean (fl (85 / 100))) (fl (95 / 100))))
                  (jmul ?mean (if length ?rv \<le> 3 then fl (95 / 100) else fl (85 / 100))))) ?ret"
    using t [THEN conjunct2, THEN conjunct2, THEN conjunct2, THEN conjunct2] len by (rule mp)
  have 13: "jle (jmul ?mean (fl (85 / 100))) (flooredOffer64 newBanker64 ?vs 1)"
    using b by (rule conjunct1)
  have 14: "jle (Math_round64 (jmin (roundOffer64 (jmul (jmul ?mean (fl (85 / 100))) (fl (95 / 100))))
                  ?cap)) ?ret"
    using b [THEN conjunct2] by simp
  show ?thesis by (intro conjI) (rule 1 2 3 4 5 6 7 8 9 10 11 12 13 14)+
qed

text \<open>
  Against claim C2 as stated: with 1, 5 and 25 left the ceiling, the mean times 0.95, is
  about 9.82 and the returned offer is 10, since the result is rounded to an integer after
  the ceiling; with 1000, 5000 and 50000 left and the random draw 0, the mean times 0.85 is
  about 15866.67 and the returned offer is 15000, since the random factor 0.95 and the
  rounding to a multiple of 500 come after the floor.
\<close>

theorem offer_bounds_counterexample:
  "fst (calculateOffer64 newBanker64 (Some [JNumber (Num 1), JNumber (Num 5), JNumber (Num 25)])
          1 (1 / 2)) = Num 10 \<and>
   maxOffer64 [JNumber (Num 1), JNumber (Num 5), JNumber (Num 25)] [Num 1, Num 5, Num 25]
     = jmul (calculateExpectedValue64 [Num 1, Num 5, Num 25]) (fl (95 / 100)) \<and>
   \<not> jle (fst (calculateOffer64 newBanker64
                  (Some [JNumber (Num 1), JNumber (Num 5), JNumber (Num 25)]) 1 (1 / 2)))
          (jmul (calculateExpectedValue64 [Num 1, Num 5, Num 25]) (fl (95 / 100))) \<and>
   fst (calculateOffer64 newBanker64
          (Some [JNumber (Num 1000), JNumber (Num 5000), JNumber (Num 50000)]) 1 0) = Num 15000 \<and>
   \<not> jle (jmul (calculateExpectedValue64 [Num 1000, Num 5000, Num 50000]) (fl (85 / 100)))
          (fst (calculateOffer64 newBanker64
                  (Some [JNumber (Num 1000), JNumber (Num 5000), JNumber (Num 50000)]) 1 0))"
proof -
  have 1: "\<not> jle (fst (calculateOffer64 newBanker64
                  (Some [JNumber (Num 1), JNumber (Num 5), JNumber (Num 25)]) 1 (1 / 2)))
          (jmul (calculateExpectedValue64 [Num 1, Num 5, Num 25]) (fl (95 / 100)))"
    using offer64_1_5_25(3) unfolding offer64_1_5_25(1) offer64_1_5_25(2) .
  have 2: "\<not> jle (jmul (calculateExpectedValue64 [Num 1000, Num 5000, Num 50000]) (fl (85 / 100)))
          (fst (calculateOffer64 newBanker64
                  (Some [JNumber (Num 1000), JNumber (Num 5000), JNumber (Num 50000)]) 1 0))"
    using offer64_3k(2) unfolding offer64_3k(1) .
  show ?thesis by (intro conjI) (rule offer64_1_5_25(1) offer64_1_5_25(2) 1 offer64_3k(1) 2)+
qed

section \<open>Properties of the game controller\<close>

lemma finalFour_remaining: "getRemainingValues finalFour = [1 / 100, 1, 5, 1000000]"
  by (simp add: getRemainingValues_def finalFour_def tableBoard_def denominations_def upto_1_26)

lemma finalFour_count: "getRemainingCasesCount finalFour = 4"
  by (simp add: getRemainingCasesCount_def finalFour_def tableBoard_def denominations_def
      upto_1_26)

lemma finalFour_in_play:
  "map value (getRemainingCases finalFour) = [1 / 100, 1, 5]"
  by (simp add: getRemainingCases_def finalFour_def tableBoard_def denominations_def upto_1_26)

lemma endRound_finalFour:
  "endRound (finalFourGame newBanker) (1 / 2)
     = (finalFourOffered, BankerOffer \<lparr>amount = 212501, offerRound = 5, offerNo = 1\<rparr>)"
  by (simp add: endRound_def finalFourGame_def finalFour_count finalFour_remaining makeOffer_def
      offer_four finalFourOffered_def)

text \<open>
  Claim C3, as the code has it. When more than two cases are left, \<^verbatim>\<open>endRound\<close> computes
  the offer from the values of all briefcases that are not eliminated, in board order, for
  the current round; the held case is one of them, so its value is part of the input.
\<close>

theorem endRound_offer_input:
  "(2 < getRemainingCasesCount (board g) \<longrightarrow>
      endRound g rnd =
        (let (offer, bk) =
               makeOffer (banker g)
                 (Some (map JNum (map value (filter (\<lambda>bc. \<not> isEliminated bc)
                                               (briefcases (board g))))))
                 (round_n g) rnd
         in (g\<lparr>eliminatedThisRound := 0, banker := bk, gameState := banker_offer\<rparr>,
             BankerOffer offer))) \<and>
   (\<forall>bc \<in> set (briefcases (board g)).
      isSelected bc \<and> \<not> isEliminated bc \<longrightarrow>
        JNum (value bc) \<in> set (map JNum (map value (filter (\<lambda>bc. \<not> isEliminated bc)
                                                     (briefcases (board g))))))"
  by (auto simp: endRound_def Let_def getRemainingValues_def split: prod.splits)

theorem endRound_offer_input_witness:
  "2 < getRemainingCasesCount (board (finalFourGame newBanker)) \<and>
   snd (endRound (finalFourGame newBanker) (1 / 2))
     = BankerOffer (fst (makeOffer newBanker
                           (Some [JNum (1 / 100), JNum 1, JNum 5, JNum 1000000]) 5 (1 / 2))) \<and>
   JNum 1000000 \<in> set [JNum (1 / 100), JNum 1, JNum 5, JNum 1000000]"
proof -
  have c: "2 < getRemainingCasesCount (board (finalFourGame newBanker))"
    by (simp add: finalFourGame_board finalFour_count)
  have l: "map JNum (map value (filter (\<lambda>bc. \<not> isEliminated bc)
                                  (briefcases (board (finalFourGame newBanker)))))
             = [JNum (1 / 100), JNum 1, JNum 5, JNum 1000000]"
    using finalFour_remaining by (simp add: finalFourGame_board getRemainingValues_def)
  have "endRound (finalFourGame newBanker) (1 / 2) =
          (let (offer, bk) =
                 makeOffer (banker (finalFourGame newBanker))
                   (Some [JNum (1 / 100), JNum 1, JNum 5, JNum 1000000])
                   (round_n (finalFourGame newBanker)) (1 / 2)
           in ((finalFourGame newBanker)\<lparr>eliminatedThisRound := 0, banker := bk,
                                          gameState := banker_offer\<rparr>,
               BankerOffer offer))"
    using endRound_offer_input [of "finalFourGame newBanker" "1 / 2", THEN conjunct1] c
    by (simp only: l)
  then show ?thesis
    using c by (simp add: finalFourGame_def split: prod.splits)
qed

text \<open>
  Against claim C3 as stated: on the late-game board the cases in play hold 0.01, 1 and 5
  and the held case holds 1000000. \<^verbatim>\<open>endRound\<close> offers 212501; the banker on the three values
  without the held one would offer 1.
\<close>

theorem endRound_offer_input_counterexample:
  "snd (endRound (finalFourGame newBanker) (1 / 2))
     = BankerOffer \<lparr>amount = 212501, offerRound = 5, offerNo = 1\<rparr> \<and>
   map value (getRemainingCases (board (finalFourGame newBanker))) = [1 / 100, 1, 5] \<and>
   fst (calculateOffer newBanker
          (Some (map JNum (map value (getRemainingCases (board (finalFourGame newBanker))))))
          5 (1 / 2)) = 1"
  by (simp add: endRound_finalFour finalFourGame_board finalFour_in_play offer_three)

text \<open>
  Claim C4, as the code has it. \<^verbatim>\<open>handleDealRejected\<close> advances the round, returns to the
  playing phase and picks the quota from the number of briefcases that are not eliminated,
  the held one counted: 5 above 10, 4 above 6, 2 above 3, else 1. It does not write
  \<^verbatim>\<open>eliminatedThisRound\<close>; that counter is 0 after a rejection because \<^verbatim>\<open>endRound\<close> reset it
  before the offer was made.
\<close>

theorem handleDealRejected_quota:
  "casesToEliminate (handleDealRejected g) =
     (let n = length (filter (\<lambda>bc. \<not> isEliminated bc) (briefcases (board g)))
      in if n > 10 then 5 else if n > 6 then 4 else if n > 3 then 2 else 1) \<and>
   round_n (handleDealRejected g) = round_n g + 1 \<and>
   gameState (handleDealRejected g) = playing \<and>
   board (handleDealRejected g) = board g \<and>
   banker (handleDealRejected g) = banker g \<and>
   eliminatedThisRound (handleDealRejected g) = eliminatedThisRound g \<and>
   eliminatedThisRound (fst (endRound g rnd)) = 0 \<and>
   eliminatedThisRound (handleDealRejected (fst (endRound g rnd))) = 0"
  by (auto simp: handleDealRejected_def Let_def getRemainingCasesCount_def endRound_def
      offerSwitchOption_def endGame_def split: prod.splits)

theorem handleDealRejected_quota_witness:
  "casesToEliminate (handleDealRejected finalFourOffered) = 2 \<and>
   round_n (handleDealRejected finalFourOffered) = 6 \<and>
   eliminatedThisRound (handleDealRejected (fst (endRound (finalFourGame newBanker) (1 / 2)))) = 0"
proof -
  have n: "length (filter (\<lambda>bc. \<not> isEliminated bc) (briefcases (board finalFourOffered))) = 4"
    using finalFour_count by (simp add: finalFourOffered_def getRemainingCasesCount_def)
  from handleDealRejected_quota [of finalFourOffered "1 / 2"]
       handleDealRejected_quota [of "finalFourGame newBanker" "1 / 2"]
  show ?thesis
    by (simp add: n) (simp add: finalFourOffered_def)
qed

text \<open>
  Against claim C4 as stated: after the offer on the late-game board three cases other than
  the held one are in play, for which the claim gives the quota 1; the controller counts four
  cases and sets the quota 2.
\<close>

theorem handleDealRejected_quota_counterexample:
  "fst (endRound (finalFourGame newBanker) (1 / 2)) = finalFourOffered \<and>
   gameState finalFourOffered = banker_offer \<and>
   length (getRemainingCases (board finalFourOffered)) = 3 \<and>
   casesToEliminate (handleDealRejected finalFourOffered) = 2 \<and>
   casesToEliminate (handleDealRejected finalFourOffered) \<noteq> 1"
proof -
  have 1: "length (getRemainingCases (board finalFourOffered)) = 3"
    using finalFour_in_play [THEN arg_cong, of length] by (simp add: finalFourOffered_def)
  have 2: "casesToEliminate (handleDealRejected finalFourOffered) = 2"
    by (simp add: handleDealRejected_def Let_def finalFourOffered_def finalFour_count)
  from 1 2 show ?thesis
    by (simp add: endRound_finalFour) (simp add: finalFourOffered_def)
qed

end
